theory Spec2Isabelle
  imports Main
begin

section \<open>Grid geometry (ocr\_page\_fast.py, ocr\_page\_python.py)\<close>

text \<open>
  Both page scripts start with the same module constants and walk the grid with the same
  nested loop (\<open>for row in range(GRID_ROWS): for col in range(GRID_COLS)\<close>).
  Pixel sizes and grid indices are non-negative Python integers, modelled as \<open>nat\<close>.
\<close>

definition GRID_COLS :: nat where "GRID_COLS = 3"
definition GRID_ROWS :: nat where "GRID_ROWS = 10"
definition RECORD_WIDTH :: nat where "RECORD_WIDTH = 298"
definition RECORD_HEIGHT :: nat where "RECORD_HEIGHT = 121"
definition START_X :: nat where "START_X = 22"
definition START_Y :: nat where "START_Y = 42"
definition GAP_X :: nat where "GAP_X = 5"
definition GAP_Y :: nat where "GAP_Y = 5"

text \<open>\<open>str(n)\<close> for a non-negative integer, and the format \<open>f"{n:02d}"\<close>.\<close>

definition digit_char :: "nat \<Rightarrow> char" where
  "digit_char d = ''0123456789'' ! d"

function dec_str :: "nat \<Rightarrow> string" where
  "dec_str n = (if n < 10 then [digit_char n] else dec_str (n div 10) @ [digit_char (n mod 10)])"
  by pat_completeness auto
termination
  by (relation "measure (\<lambda>n. n)") auto

definition fmt02 :: "nat \<Rightarrow> string" where
  "fmt02 n = (let s = dec_str n in replicate (2 - length s) (CHR ''0'') @ s)"

text \<open>
  The per-tile data both loops compute before the bounds check: \<open>record_id\<close>, \<open>row\<close>,
  \<open>col\<close>, \<open>x\<close>, \<open>y\<close> (the \<open>record_data\<close> dictionary of ocr\_page\_python.py).
\<close>

record tile =
  record_id :: string
  row :: nat
  col :: nat
  x :: nat
  y :: nat

text \<open>\<open>record_box = (x, y, x + RECORD_WIDTH, y + RECORD_HEIGHT)\<close>: left, upper, right, lower.\<close>

type_synonym box = "nat \<times> nat \<times> nat \<times> nat"

definition record_box :: "tile \<Rightarrow> box" where
  "record_box t = (x t, y t, x t + RECORD_WIDTH, y t + RECORD_HEIGHT)"

text \<open>Two boxes share a pixel (a box covers the columns \<open>left..<right\<close> and rows \<open>upper..<lower\<close>).\<close>

fun boxes_overlap :: "box \<Rightarrow> box \<Rightarrow> bool" where
  "boxes_overlap (l1, u1, r1, d1) (l2, u2, r2, d2) \<longleftrightarrow> l1 < r2 \<and> l2 < r1 \<and> u1 < d2 \<and> u2 < d1"

text \<open>
  The loop body up to the bounds check (ocr\_page\_fast.py lines 186-195,
  ocr\_page\_python.py lines 43-53): \<open>None\<close> is the \<open>continue\<close>.
\<close>

definition tile_at :: "nat \<Rightarrow> nat \<Rightarrow> nat \<Rightarrow> nat \<Rightarrow> tile option" where
  "tile_at width height r c =
     (let record_num = r * GRID_COLS + c;
          rid = fmt02 record_num;
          px = START_X + c * (RECORD_WIDTH + GAP_X);
          py = START_Y + r * (RECORD_HEIGHT + GAP_Y)
      in if px + RECORD_WIDTH > width \<or> py + RECORD_HEIGHT > height then None
         else Some \<lparr>record_id = rid, row = r, col = c, x = px, y = py\<rparr>)"

text \<open>The nested loop: the tiles that reach the crop, in the order the loop visits them.\<close>

definition grid_tiles :: "nat \<Rightarrow> nat \<Rightarrow> tile list" where
  "grid_tiles width height =
     concat (map (\<lambda>r. concat (map (\<lambda>c. case tile_at width height r c of
                                            None \<Rightarrow> [] | Some t \<Rightarrow> [t])
                                   [0..<GRID_COLS]))
                 [0..<GRID_ROWS])"

section \<open>Python strings and the \<open>re\<close> operations the scripts use\<close>

text \<open>
  A Python \<open>str\<close> is a sequence of Unicode code points, and \<open>len\<close>, \<open>strip\<close> and \<open>re\<close> work
  on code points: OCR text is a list of code points. Identifiers made by the scripts
  themselves (record ids, column names) are ASCII and stay \<open>string\<close>.
\<close>

type_synonym ustring = "nat list"

definition ustr :: "string \<Rightarrow> ustring" where
  "ustr s = map of_char s"

text \<open>
  The whitespace of \<open>str.strip()\<close>, \<open>str.isspace()\<close> and of \<open>\s\<close> in a \<open>str\<close> pattern
  (one table in CPython): U+0009..000D, U+001C..0020, U+0085, U+00A0, U+1680,
  U+2000..200A, U+2028, U+2029, U+202F, U+205F, U+3000.
\<close>

definition is_space :: "nat \<Rightarrow> bool" where
  "is_space c \<longleftrightarrow> (9 \<le> c \<and> c \<le> 13) \<or> (28 \<le> c \<and> c \<le> 32) \<or> c = 133 \<or> c = 160 \<or> c = 5760
     \<or> (8192 \<le> c \<and> c \<le> 8202) \<or> c = 8232 \<or> c = 8233 \<or> c = 8239 \<or> c = 8287 \<or> c = 12288"

definition py_strip :: "ustring \<Rightarrow> ustring" where
  "py_strip s = rev (dropWhile is_space (rev (dropWhile is_space s)))"

text \<open>
  Which code points beyond ASCII are alphanumeric (\<open>str.isalnum()\<close>, used by \<open>\b\<close>) and
  which are decimal digits (used by \<open>\d\<close> and \<open>int()\<close>) is decided by the Unicode
  database of the Python runtime, which is not part of the repository: it is a parameter
  \<open>U\<close> of the model. ASCII is fixed.
\<close>

datatype uclass = UDecimal nat | UAlnum | UOther

type_synonym ucd = "nat \<Rightarrow> uclass"

definition ascii_digit :: "nat \<Rightarrow> bool" where
  "ascii_digit c \<longleftrightarrow> 48 \<le> c \<and> c \<le> 57"

definition ascii_upper :: "nat \<Rightarrow> bool" where
  "ascii_upper c \<longleftrightarrow> 65 \<le> c \<and> c \<le> 90"

definition ascii_lower :: "nat \<Rightarrow> bool" where
  "ascii_lower c \<longleftrightarrow> 97 \<le> c \<and> c \<le> 122"

definition decimal_value :: "ucd \<Rightarrow> nat \<Rightarrow> nat option" where
  "decimal_value U c =
     (if c < 128 then (if ascii_digit c then Some (c - 48) else None)
      else case U c of UDecimal d \<Rightarrow> Some d | _ \<Rightarrow> None)"

definition is_word :: "ucd \<Rightarrow> nat \<Rightarrow> bool" where
  "is_word U c \<longleftrightarrow>
     (if c < 128 then ascii_digit c \<or> ascii_upper c \<or> ascii_lower c \<or> c = 95
      else U c \<noteq> UOther)"

text \<open>
  The Devanagari block (U+0900..097F) of the Unicode database: letters U+0904..0939,
  U+093D, U+0950, U+0958..0961, U+0971..097F; decimal digits U+0966..096F; the vowel
  signs, virama and punctuation are not alphanumeric. Every other code point beyond ASCII
  is left unclassified here; this table serves the concrete evaluations below, whose
  inputs are ASCII and Devanagari.
\<close>

definition ucd_devanagari :: ucd where
  "ucd_devanagari c =
     (if 2406 \<le> c \<and> c \<le> 2415 then UDecimal (c - 2406)
      else if (2308 \<le> c \<and> c \<le> 2361) \<or> c = 2365 \<or> c = 2384 \<or> (2392 \<le> c \<and> c \<le> 2401)
              \<or> (2417 \<le> c \<and> c \<le> 2431) then UAlnum
      else UOther)"

text \<open>
  \<open>int(s)\<close> for a string: surrounding whitespace is dropped, a sign may follow, then
  decimal digits with single underscores allowed between them. \<open>None\<close> is \<open>ValueError\<close>.
\<close>

fun int_digits :: "ucd \<Rightarrow> nat \<Rightarrow> bool \<Rightarrow> ustring \<Rightarrow> nat option" where
  "int_digits U acc after_digit [] = (if after_digit then Some acc else None)"
| "int_digits U acc after_digit (c # cs) =
     (if c = 95 then (if after_digit then int_digits U acc False cs else None)
      else case decimal_value U c of
             None \<Rightarrow> None
           | Some d \<Rightarrow> int_digits U (10 * acc + d) True cs)"

definition py_int :: "ucd \<Rightarrow> ustring \<Rightarrow> int option" where
  "py_int U s =
     (case py_strip s of
        [] \<Rightarrow> None
      | c # cs \<Rightarrow>
          if c = 43 then map_option int (int_digits U 0 False cs)
          else if c = 45 then map_option (\<lambda>n. - int n) (int_digits U 0 False cs)
          else map_option int (int_digits U 0 False (c # cs)))"

subsection \<open>Regular expressions\<close>

text \<open>
  The fragment of \<open>re\<close> syntax that occurs in the scripts: one-character classes, literal
  strings, concatenation, alternation, a quantified character class (\<open>*\<close>, \<open>+\<close>, \<open>{m,n}\<close>,
  greedy or lazy \<open>*?\<close>), \<open>\b\<close>, \<open>^\<close> and \<open>$\<close>. A matcher state is the code point before the
  current position (if any) and the rest of the subject. \<open>rmatch\<close> lists the states in which
  a match of the expression can end, in the order in which the backtracking matcher of
  \<open>re\<close> tries them: the first element is the match \<open>re\<close> returns.
\<close>

datatype regex =
    Eps
  | Atom "nat \<Rightarrow> bool"
  | Seq regex regex
  | Alt regex regex
  | Rep "nat \<Rightarrow> bool" nat "nat option" bool
  | WordB "nat \<Rightarrow> bool"
  | Bol
  | Eol

type_synonym mstate = "nat option \<times> ustring"

definition word_before :: "(nat \<Rightarrow> bool) \<Rightarrow> nat option \<Rightarrow> bool" where
  "word_before w prev = (case prev of None \<Rightarrow> False | Some c \<Rightarrow> w c)"

definition word_after :: "(nat \<Rightarrow> bool) \<Rightarrow> ustring \<Rightarrow> bool" where
  "word_after w s = (case s of [] \<Rightarrow> False | c # _ \<Rightarrow> w c)"

definition advance :: "mstate \<Rightarrow> nat \<Rightarrow> mstate" where
  "advance st j = (if j = 0 then st else (Some (snd st ! (j - 1)), drop j (snd st)))"

fun rmatch :: "regex \<Rightarrow> mstate \<Rightarrow> mstate list" where
  "rmatch Eps st = [st]"
| "rmatch (Atom p) st =
     (case snd st of [] \<Rightarrow> [] | c # cs \<Rightarrow> if p c then [(Some c, cs)] else [])"
| "rmatch (Seq a b) st = concat (map (rmatch b) (rmatch a st))"
| "rmatch (Alt a b) st = rmatch a st @ rmatch b st"
| "rmatch (Rep p m n greedy) st =
     (let k = length (takeWhile p (snd st));
          hi = (case n of None \<Rightarrow> k | Some b \<Rightarrow> min b k);
          counts = [m..<Suc hi]
      in map (advance st) (if greedy then rev counts else counts))"
| "rmatch (WordB w) st = (if word_before w (fst st) \<noteq> word_after w (snd st) then [st] else [])"
| "rmatch Bol st = (if fst st = None then [st] else [])"
| "rmatch Eol st = (if snd st = [] \<or> snd st = [10] then [st] else [])"

text \<open>A literal string, one code point after the other.\<close>

fun lit :: "ustring \<Rightarrow> regex" where
  "lit [] = Eps"
| "lit (c # cs) = Seq (Atom (\<lambda>d. d = c)) (lit cs)"

text \<open>
  Every extraction pattern of the scripts has exactly one capturing group, not nested in a
  quantifier or an alternative: \<open>Pattern pre group post\<close>. \<open>pmatch\<close> lists the texts
  of group 1 of the matches that start in the given state, in the matcher's order.
\<close>

datatype pattern = Pattern regex regex regex

fun pmatch :: "pattern \<Rightarrow> mstate \<Rightarrow> ustring list" where
  "pmatch (Pattern pre grp post) st =
     concat (map (\<lambda>s1. concat (map (\<lambda>s2. map (\<lambda>s3. take (length (snd s1) - length (snd s2)) (snd s1))
                                                (rmatch post s2))
                                     (rmatch grp s1)))
                 (rmatch pre st))"

text \<open>\<open>re.search\<close>: the first start position, from the left, at which the pattern matches.\<close>

fun search_from :: "pattern \<Rightarrow> nat option \<Rightarrow> ustring \<Rightarrow> ustring option" where
  "search_from pat prev [] = (case pmatch pat (prev, []) of [] \<Rightarrow> None | g # _ \<Rightarrow> Some g)"
| "search_from pat prev (c # cs) =
     (case pmatch pat (prev, c # cs) of [] \<Rightarrow> search_from pat (Some c) cs | g # _ \<Rightarrow> Some g)"

definition re_search :: "pattern \<Rightarrow> ustring \<Rightarrow> ustring option" where
  "re_search pat s = search_from pat None s"

text \<open>\<open>re.match\<close> used as a truth value: a match starting at position 0.\<close>

definition re_match :: "regex \<Rightarrow> ustring \<Rightarrow> bool" where
  "re_match r s \<longleftrightarrow> rmatch r (None, s) \<noteq> []"

text \<open>
  \<open>re.sub(pattern, repl, text)\<close> for a pattern that never matches the empty string (the
  two patterns of \<open>clean_text\<close>): leftmost matches are replaced, the scan goes on after
  each match.
\<close>

function re_sub :: "regex \<Rightarrow> ustring \<Rightarrow> nat option \<Rightarrow> ustring \<Rightarrow> ustring" where
  "re_sub r repl prev [] = []"
| "re_sub r repl prev (c # cs) =
     (case rmatch r (prev, c # cs) of
        [] \<Rightarrow> c # re_sub r repl (Some c) cs
      | st # _ \<Rightarrow>
          if length (snd st) \<le> length cs then repl @ re_sub r repl (fst st) (snd st)
          else c # re_sub r repl (Some c) cs)"
  by pat_completeness auto
termination
  by (relation "measure (\<lambda>(r, repl, prev, s). length s)") auto

section \<open>parse\_ocr.py: \<open>VoterParser\<close>\<close>

text \<open>
  A Python dictionary with string keys is an association list in insertion order;
  its values here are strings, integers and truth values. \<open>truthy\<close> is Python's truth of
  \<open>d.get(k)\<close>: a missing key gives \<open>None\<close>, which is false like the empty string.
\<close>

datatype pyval = PStr ustring | PInt int | PBool bool

type_synonym pydict = "(string \<times> pyval) list"

fun truthy :: "pyval option \<Rightarrow> bool" where
  "truthy None = False"
| "truthy (Some (PStr s)) = (s \<noteq> [])"
| "truthy (Some (PInt n)) = (n \<noteq> 0)"
| "truthy (Some (PBool b)) = b"

text \<open>The character classes of the patterns, under the flags each pattern is used with.\<close>

definition cls_space_colon :: "nat \<Rightarrow> bool" where
  \<comment> \<open>\<open>[\s:]\<close>\<close>
  "cls_space_colon c \<longleftrightarrow> is_space c \<or> c = 58"

definition cls_not_newline :: "nat \<Rightarrow> bool" where
  \<comment> \<open>\<open>[^\n]\<close> and \<open>.\<close>\<close>
  "cls_not_newline c \<longleftrightarrow> c \<noteq> 10"

definition cls_AZ_ignorecase :: "nat \<Rightarrow> bool" where
  \<comment> \<open>\<open>[A-Z]\<close> under \<open>re.IGNORECASE\<close> on a \<open>str\<close>: the 52 ASCII letters and U+0130, U+0131,
      U+017F, U+212A\<close>
  "cls_AZ_ignorecase c \<longleftrightarrow> ascii_upper c \<or> ascii_lower c \<or> c = 304 \<or> c = 305 \<or> c = 383 \<or> c = 8490"

definition cls_AZ09_ignorecase :: "nat \<Rightarrow> bool" where
  \<comment> \<open>\<open>[A-Z0-9]\<close> under \<open>re.IGNORECASE\<close>\<close>
  "cls_AZ09_ignorecase c \<longleftrightarrow> cls_AZ_ignorecase c \<or> ascii_digit c"

definition cls_hspace :: "nat \<Rightarrow> bool" where
  \<comment> \<open>\<open>[ \t]\<close>\<close>
  "cls_hspace c \<longleftrightarrow> c = 32 \<or> c = 9"

definition cls_newline :: "nat \<Rightarrow> bool" where
  "cls_newline c \<longleftrightarrow> c = 10"

definition seqs :: "regex list \<Rightarrow> regex" where
  "seqs rs = foldr Seq rs Eps"

abbreviation star :: "(nat \<Rightarrow> bool) \<Rightarrow> regex" where
  "star p \<equiv> Rep p 0 None True"

abbreviation plus :: "(nat \<Rightarrow> bool) \<Rightarrow> regex" where
  "plus p \<equiv> Rep p 1 None True"

text \<open>
  The Devanagari words of the patterns, as code points. The script has no letter case, so
  \<open>re.IGNORECASE\<close> leaves these literals as they are.
\<close>

definition w_nirvachak :: ustring where "w_nirvachak = [2344, 2367, 2352, 2381, 2357, 2366, 2330, 2325]"
definition w_ka :: ustring where "w_ka = [2325, 2366]"
definition w_naam :: ustring where "w_naam = [2344, 2366, 2350]"
definition w_pati :: ustring where "w_pati = [2346, 2340, 2367]"
definition w_pita :: ustring where "w_pita = [2346, 2367, 2340, 2366]"
definition w_mata :: ustring where "w_mata = [2350, 2366, 2340, 2366]"
definition w_makan :: ustring where "w_makan = [2350, 2325, 2366, 2344]"
definition w_sankhya :: ustring where "w_sankhya = [2360, 2306, 2326, 2381, 2351, 2366]"
definition w_umr :: ustring where "w_umr = [2313, 2350, 2381, 2352]"
definition w_ling :: ustring where "w_ling = [2354, 2367, 2306, 2327]"
definition w_aayu :: ustring where "w_aayu = [2310, 2351, 2369]"
definition w_pata :: ustring where "w_pata = [2346, 2340, 2366]"
definition w_gram :: ustring where "w_gram = [2327, 2381, 2352, 2366, 2350]"

text \<open>\<open>VoterParser.PATTERNS\<close>, in the order of the dictionary.\<close>

definition pat_serial :: "ucd \<Rightarrow> pattern" where
  \<comment> \<open>\<open>\b([0-9]{1,4})\b\<close>\<close>
  "pat_serial U = Pattern (WordB (is_word U)) (Rep ascii_digit 1 (Some 4) True) (WordB (is_word U))"

definition pat_name :: pattern where
  \<comment> \<open>\<open>nirvachak \s* ka \s* naam [\s:]* ([^\n]+)\<close>\<close>
  "pat_name = Pattern (seqs [lit w_nirvachak, star is_space, lit w_ka, star is_space, lit w_naam,
                             star cls_space_colon])
                      (plus cls_not_newline) Eps"

definition pat_relation :: pattern where
  \<comment> \<open>\<open>(?:pati|pita|mata) \s* ka \s* naam [\s:]* ([^\n]+)\<close>\<close>
  "pat_relation = Pattern (seqs [Alt (lit w_pati) (Alt (lit w_pita) (lit w_mata)), star is_space,
                                 lit w_ka, star is_space, lit w_naam, star cls_space_colon])
                          (plus cls_not_newline) Eps"

definition pat_house_no :: pattern where
  \<comment> \<open>\<open>makan \s* sankhya [\s:]* ([^\n]+)\<close>\<close>
  "pat_house_no = Pattern (seqs [lit w_makan, star is_space, lit w_sankhya, star cls_space_colon])
                          (plus cls_not_newline) Eps"

definition pat_age :: pattern where
  \<comment> \<open>\<open>umr [\s:]* ([0-9]{1,3})\<close>\<close>
  "pat_age = Pattern (seqs [lit w_umr, star cls_space_colon]) (Rep ascii_digit 1 (Some 3) True) Eps"

definition pat_gender :: pattern where
  \<comment> \<open>\<open>ling [\s:]* ([^\n]+)\<close>\<close>
  "pat_gender = Pattern (seqs [lit w_ling, star cls_space_colon]) (plus cls_not_newline) Eps"

definition pat_epic :: "ucd \<Rightarrow> pattern" where
  \<comment> \<open>\<open>\b([A-Z]{3}[0-9]{6,7})\b\<close>\<close>
  "pat_epic U = Pattern (WordB (is_word U))
                        (Seq (Rep cls_AZ_ignorecase 3 (Some 3) True) (Rep ascii_digit 6 (Some 7) True))
                        (WordB (is_word U))"

definition PATTERNS :: "ucd \<Rightarrow> (string \<times> pattern) list" where
  "PATTERNS U =
     [(''serial'', pat_serial U), (''name'', pat_name), (''relation'', pat_relation),
      (''house_no'', pat_house_no), (''age'', pat_age), (''gender'', pat_gender),
      (''epic'', pat_epic U)]"

definition REQUIRED_FIELDS :: "string list" where
  "REQUIRED_FIELDS = [''name'', ''age'', ''epic'']"

text \<open>The two patterns written out in \<open>parse_record\<close> and the format check of \<open>parse_tile\<close>.\<close>

definition pat_epic_region :: "ucd \<Rightarrow> pattern" where
  \<comment> \<open>\<open>\b([A-Z0-9]{6,12})\b\<close>\<close>
  "pat_epic_region U = Pattern (WordB (is_word U)) (Rep cls_AZ09_ignorecase 6 (Some 12) True)
                               (WordB (is_word U))"

definition re_epic_format :: regex where
  \<comment> \<open>\<open>^[A-Z]{3}[0-9]{6,7}$\<close>, used without flags\<close>
  "re_epic_format = seqs [Bol, Rep ascii_upper 3 (Some 3) True, Rep ascii_digit 6 (Some 7) True, Eol]"

text \<open>
  The statistics dictionary and the strictness flag are the object's state; \<open>parse_tile\<close>
  and \<open>parse_record\<close> read only \<open>strict_mode\<close>, \<open>process_page\<close> updates only \<open>stats\<close>.
\<close>

record stats =
  total_tiles :: nat
  valid_records :: nat
  invalid_records :: nat
  skipped_tiles :: nat

definition init_stats :: stats where
  "init_stats = \<lparr>total_tiles = 0, valid_records = 0, invalid_records = 0, skipped_tiles = 0\<rparr>"

definition extract_field :: "pattern \<Rightarrow> ustring \<Rightarrow> ustring" where
  "extract_field pat text = (case re_search pat text of None \<Rightarrow> [] | Some g \<Rightarrow> py_strip g)"

text \<open>The two substitutions of \<open>clean_text\<close> (lines 58 and 60) and the function itself.\<close>

definition collapse_hspace :: "ustring \<Rightarrow> ustring" where
  \<comment> \<open>\<open>re.sub(r"[ \t]+", " ", text)\<close>\<close>
  "collapse_hspace text = re_sub (plus cls_hspace) [32] None text"

definition collapse_newlines :: "ustring \<Rightarrow> ustring" where
  \<comment> \<open>\<open>re.sub(r"\n{3,}", "\n\n", text)\<close>\<close>
  "collapse_newlines text = re_sub (Rep cls_newline 3 None True) [10, 10] None text"

definition clean_text :: "ustring \<Rightarrow> ustring" where
  "clean_text text =
     (let text1 = collapse_hspace text;
          text2 = collapse_newlines text1
      in py_strip text2)"

text \<open>What \<open>parse_tile\<close> and \<open>parse_record\<close> print before they give a record up or go on.\<close>

datatype diag =
    MissingFields ustring "string list"
  | InvalidAge ustring int
  | NonNumericAge ustring ustring
  | InvalidEpicFormat ustring ustring

text \<open>
  The age check both functions share (parse\_ocr.py lines 106-114 and 169-177): \<open>None\<close>
  when the record passes, the printed line when the function returns \<open>None\<close>.
\<close>

definition check_age :: "ucd \<Rightarrow> ustring \<Rightarrow> ustring \<Rightarrow> diag option" where
  "check_age U ident age =
     (if age \<noteq> [] then
        (case py_int U age of
           Some a \<Rightarrow> if a < 18 \<or> a > 120 then Some (InvalidAge ident a) else None
         | None \<Rightarrow> Some (NonNumericAge ident age))
      else None)"

text \<open>
  The dictionary \<open>parse_tile\<close> builds from the cleaned text (lines 78-88), the strings it
  reads back from it (\<open>record["age"]\<close>, \<open>record.get("epic")\<close>) and the list \<open>missing\<close>
  (line 99, the same comprehension at line 162).
\<close>

definition tile_record :: "ucd \<Rightarrow> ustring \<Rightarrow> ustring \<Rightarrow> pydict" where
  "tile_record U text tile_id =
     [(''tile_id'', PStr tile_id),
      (''serial'', PStr (extract_field (pat_serial U) text)),
      (''epic'', PStr (extract_field (pat_epic U) text)),
      (''name'', PStr (extract_field pat_name text)),
      (''relation'', PStr (extract_field pat_relation text)),
      (''house_no'', PStr (extract_field pat_house_no text)),
      (''age'', PStr (extract_field pat_age text)),
      (''gender'', PStr (extract_field pat_gender text)),
      (''raw_text_length'', PInt (int (length text)))]"

definition str_field :: "pydict \<Rightarrow> string \<Rightarrow> ustring" where
  "str_field record key = (case map_of record key of Some (PStr s) \<Rightarrow> s | _ \<Rightarrow> [])"

definition missing_fields :: "string list \<Rightarrow> pydict \<Rightarrow> string list" where
  "missing_fields required record = filter (\<lambda>field. \<not> truthy (map_of record field)) required"

definition parse_tile :: "ucd \<Rightarrow> bool \<Rightarrow> ustring \<Rightarrow> ustring \<Rightarrow> diag list \<times> pydict option" where
  "parse_tile U strict_mode ocr_text tile_id =
     (let text = clean_text ocr_text in
      if length text < 20 then ([], None)
      else
        let record = tile_record U text tile_id;
            required = (if strict_mode then map fst (PATTERNS U) else REQUIRED_FIELDS);
            missing = missing_fields required record
        in if missing \<noteq> [] then ([MissingFields tile_id missing], None)
           else case check_age U tile_id (str_field record ''age'') of
                  Some d \<Rightarrow> ([d], None)
                | None \<Rightarrow>
                    if str_field record ''epic'' \<noteq> []
                       \<and> \<not> re_match re_epic_format (str_field record ''epic'') then
                      (if strict_mode then ([InvalidEpicFormat tile_id (str_field record ''epic'')], None)
                       else ([InvalidEpicFormat tile_id (str_field record ''epic'')], Some record))
                    else ([], Some record))"

subsection \<open>Files and paths\<close>

text \<open>
  The file system is what the parser is run on: it is an input of the model. \<open>read_file\<close>
  is \<open>open(path).read()\<close> (\<open>None\<close> when the call raises), \<open>glob_sorted\<close> is
  \<open>sorted(glob.glob(pattern))\<close>, \<open>list_dirs\<close> the sorted sub-directories of a directory
  (\<open>None\<close> when the directory does not exist).
\<close>

record fsys =
  read_file :: "string \<Rightarrow> ustring option"
  glob_sorted :: "string \<Rightarrow> string list"
  list_dirs :: "string \<Rightarrow> string list option"

definition path_join :: "string \<Rightarrow> string \<Rightarrow> string" where
  \<comment> \<open>\<open>os.path.join(a, b)\<close> on POSIX\<close>
  "path_join a b =
     (if b \<noteq> [] \<and> hd b = CHR ''/'' then b
      else if a = [] \<or> last a = CHR ''/'' then a @ b
      else a @ ''/'' @ b)"

definition basename :: "string \<Rightarrow> string" where
  \<comment> \<open>\<open>os.path.basename\<close>: what follows the last slash\<close>
  "basename p = rev (takeWhile (\<lambda>c. c \<noteq> CHR ''/'') (rev p))"

text \<open>\<open>s.replace(old, new)\<close> for a non-empty \<open>old\<close>.\<close>

function str_replace :: "string \<Rightarrow> string \<Rightarrow> string \<Rightarrow> string" where
  "str_replace old new [] = []"
| "str_replace old new (c # cs) =
     (if old \<noteq> [] \<and> take (length old) (c # cs) = old
      then new @ str_replace old new (drop (length old) (c # cs))
      else c # str_replace old new cs)"
  by pat_completeness auto
termination
  by (relation "measure (\<lambda>(old, new, s). length s)") auto

subsection \<open>\<open>parse_record\<close>, \<open>process_page\<close>, \<open>process_directory\<close>\<close>

definition read_or_empty :: "fsys \<Rightarrow> string \<Rightarrow> ustring" where
  \<comment> \<open>\<open>try: ... f.read() except: ""\<close>\<close>
  "read_or_empty fs path = (case read_file fs path of None \<Rightarrow> [] | Some content \<Rightarrow> content)"

text \<open>The dictionary \<open>parse_record\<close> builds from the three files of a record (lines 148-158).\<close>

definition file_record :: "ucd \<Rightarrow> string \<Rightarrow> ustring \<Rightarrow> ustring \<Rightarrow> ustring \<Rightarrow> pydict" where
  "file_record U rid serial_text epic_text hindi_text =
     [(''record_id'', PStr (ustr rid)),
      (''serial'', PStr (extract_field (pat_serial U) serial_text)),
      (''epic'', PStr (extract_field (pat_epic_region U) epic_text)),
      (''name'', PStr (extract_field pat_name hindi_text)),
      (''relation'', PStr (extract_field pat_relation hindi_text)),
      (''house_no'', PStr (extract_field pat_house_no hindi_text)),
      (''age'', PStr (extract_field pat_age hindi_text)),
      (''gender'', PStr (extract_field pat_gender hindi_text)),
      (''raw_text_length'', PInt (int (length hindi_text)))]"

definition parse_record :: "ucd \<Rightarrow> fsys \<Rightarrow> string \<Rightarrow> string \<Rightarrow> diag list \<times> pydict option" where
  "parse_record U fs rid ocr_dir =
     (let base_path = path_join ocr_dir rid;
          serial_text = py_strip (read_or_empty fs (base_path @ ''_serial.txt''));
          epic_text = py_strip (read_or_empty fs (base_path @ ''_epic.txt''));
          hindi_text = read_or_empty fs (base_path @ ''_text.txt'');
          record = file_record U rid serial_text epic_text hindi_text;
          required_fields = [''name'', ''age'', ''serial''];
          missing = missing_fields required_fields record
      in if missing \<noteq> [] then ([MissingFields (ustr rid) missing], None)
         else case check_age U (ustr rid) (str_field record ''age'') of
                Some d \<Rightarrow> ([d], None)
              | None \<Rightarrow> ([], Some record))"

text \<open>
  One turn of the loop of \<open>process_page\<close> over the status files: the state is the list
  \<open>records\<close> and \<open>self.stats\<close>.
\<close>

definition read_status :: "fsys \<Rightarrow> string \<Rightarrow> ustring" where
  "read_status fs status_file =
     (case read_file fs status_file of None \<Rightarrow> ustr ''UNKNOWN'' | Some content \<Rightarrow> py_strip content)"

definition page_step ::
  "ucd \<Rightarrow> fsys \<Rightarrow> string \<Rightarrow> string \<Rightarrow> pydict list \<times> stats \<Rightarrow> string \<Rightarrow> pydict list \<times> stats" where
  "page_step U fs ocr_dir page_id acc status_file =
     (let records = fst acc;
          st = (snd acc)\<lparr>total_tiles := total_tiles (snd acc) + 1\<rparr>;
          rid = str_replace ''.status'' '''' (basename status_file);
          status = read_status fs status_file
      in if status \<noteq> ustr ''VALID'' then (records, st\<lparr>skipped_tiles := skipped_tiles st + 1\<rparr>)
         else case snd (parse_record U fs rid ocr_dir) of
                Some record \<Rightarrow>
                  (records @ [record @ [(''page_id'', PStr (ustr page_id))]],
                   st\<lparr>valid_records := valid_records st + 1\<rparr>)
              | None \<Rightarrow> (records, st\<lparr>invalid_records := invalid_records st + 1\<rparr>))"

definition process_page :: "ucd \<Rightarrow> fsys \<Rightarrow> stats \<Rightarrow> string \<Rightarrow> string \<Rightarrow> pydict list \<times> stats" where
  "process_page U fs st ocr_dir page_id =
     (let status_files = glob_sorted fs (path_join ocr_dir ''record_*.status'')
      in foldl (page_step U fs ocr_dir page_id) ([], st) status_files)"

text \<open>
  \<open>csv.DictWriter\<close>: a file is the list of its rows, the header first. A row holds the
  values of the dictionary in the order of \<open>fieldnames\<close>, the empty string for a missing key.
\<close>

type_synonym csv_file = "pyval list list"

definition dict_row :: "string list \<Rightarrow> pydict \<Rightarrow> pyval list" where
  "dict_row fieldnames d = map (\<lambda>k. case map_of d k of None \<Rightarrow> PStr [] | Some v \<Rightarrow> v) fieldnames"

definition write_dicts :: "string list \<Rightarrow> pydict list \<Rightarrow> csv_file" where
  \<comment> \<open>\<open>writer.writeheader(); writer.writerows(records)\<close>\<close>
  "write_dicts fieldnames records = map (PStr \<circ> ustr) fieldnames # map (dict_row fieldnames) records"




section \<open>The page scripts\<close>

subsection \<open>What both scripts share\<close>

text \<open>
  \<open>parse_hindi_text\<close> is the same function in both scripts. Its patterns:
  \<open>(?:nirvachak|naam).*?[::]\s*([^\n]+)\<close> and the like, where the second colon of the
  class is U+FF1A. The result dictionary has a key only for a pattern that matched.
\<close>

definition cls_colon :: "nat \<Rightarrow> bool" where
  "cls_colon c \<longleftrightarrow> c = 58 \<or> c = 65306"

definition hindi_pattern :: "ustring \<Rightarrow> ustring \<Rightarrow> regex \<Rightarrow> pattern" where
  "hindi_pattern w1 w2 grp =
     Pattern (seqs [Alt (lit w1) (lit w2), Rep cls_not_newline 0 None False, Atom cls_colon, star is_space])
             grp Eps"

definition hindi_patterns :: "ucd \<Rightarrow> (string \<times> pattern) list" where
  "hindi_patterns U =
     [(''name'', hindi_pattern w_nirvachak w_naam (plus cls_not_newline)),
      (''father'', hindi_pattern w_pita w_pati (plus cls_not_newline)),
      (''age'', hindi_pattern w_umr w_aayu (plus (\<lambda>c. decimal_value U c \<noteq> None))),
      (''address'', hindi_pattern w_pata w_gram (plus cls_not_newline))]"

definition parse_hindi_text :: "ucd \<Rightarrow> ustring \<Rightarrow> pydict" where
  "parse_hindi_text U text =
     concat (map (\<lambda>(field, pat). case re_search pat text of
                                     None \<Rightarrow> []
                                   | Some g \<Rightarrow> [(field, PStr (py_strip g))])
                 (hindi_patterns U))"

definition get_or_empty :: "pydict \<Rightarrow> string \<Rightarrow> pyval" where
  \<comment> \<open>\<open>parsed.get(key, '')\<close>\<close>
  "get_or_empty d k = (case map_of d k of None \<Rightarrow> PStr [] | Some v \<Rightarrow> v)"

definition path_stem :: "string \<Rightarrow> string" where
  \<comment> \<open>\<open>Path(p).stem\<close>: the last component without its last suffix\<close>
  "path_stem p =
     (let name = basename p;
          tail = takeWhile (\<lambda>c. c \<noteq> CHR ''.'') (rev name)
      in if length tail < length name \<and> tail \<noteq> [] \<and> Suc (length tail) < length name
         then take (length name - Suc (length tail)) name
         else name)"

definition dirname :: "string \<Rightarrow> string" where
  \<comment> \<open>\<open>os.path.dirname\<close> on POSIX: the part up to the last slash, without its trailing
      slashes unless it consists of slashes; empty for a name without a slash\<close>
  "dirname p =
     (let head = rev (dropWhile (\<lambda>c. c \<noteq> CHR ''/'') (rev p))
      in if head \<noteq> [] \<and> \<not> list_all (\<lambda>c. c = CHR ''/'') head
         then rev (dropWhile (\<lambda>c. c = CHR ''/'') (rev head))
         else head)"

definition serial_box :: box where "serial_box = (0, 0, 150, 25)"
definition epic_box :: box where "epic_box = (200, 0, 298, 25)"
definition text_box :: box where "text_box = (0, 25, 220, 115)"

text \<open>
  The record both scripts append to \<open>csv_records\<close>, and the file they write: the header
  and the rows are written only under \<open>if csv_records:\<close>, with the keys of the first
  record as columns.
\<close>

definition csv_record ::
  "string \<Rightarrow> tile \<Rightarrow> ustring \<Rightarrow> ustring \<Rightarrow> ustring \<Rightarrow> pydict \<Rightarrow> bool \<Rightarrow> pydict" where
  "csv_record image_path t serial epic text parsed is_valid =
     [(''page'', PStr (ustr (path_stem image_path))),
      (''record_id'', PStr (ustr (record_id t))),
      (''row'', PInt (int (row t))),
      (''col'', PInt (int (col t))),
      (''serial'', PStr serial),
      (''epic'', PStr epic),
      (''name'', get_or_empty parsed ''name''),
      (''father'', get_or_empty parsed ''father''),
      (''age'', get_or_empty parsed ''age''),
      (''address'', get_or_empty parsed ''address''),
      (''raw_text'', PStr text),
      (''valid'', PBool is_valid)]"

definition write_csv :: "pydict list \<Rightarrow> csv_file" where
  "write_csv csv_records =
     (case csv_records of
        [] \<Rightarrow> []
      | first # _ \<Rightarrow> write_dicts (map fst first) csv_records)"

definition count_valid :: "pydict list \<Rightarrow> nat" where
  "count_valid csv_records = length (filter (\<lambda>r. map_of r ''valid'' = Some (PBool True)) csv_records)"

definition summary :: "string \<Rightarrow> nat \<Rightarrow> nat \<Rightarrow> string \<Rightarrow> pydict" where
  "summary image_path n_total n_valid output_csv =
     [(''page'', PStr (ustr (path_stem image_path))),
      (''total_records'', PInt (int n_total)),
      (''valid_records'', PInt (int n_valid)),
      (''csv_file'', PStr (ustr output_csv))]"

text \<open>An opened page image: its size and its pixels, of a type the model leaves open.\<close>

record 'img image =
  img_width :: nat
  img_height :: nat
  pixels :: 'img

text \<open>
  The exceptions that leave \<open>process_page\<close>: \<open>FastOCR()\<close> raises; \<open>Image.open\<close> raises;
  \<open>img.crop(record_box)\<close>, which both scripts call outside their \<open>try\<close> blocks, raises;
  \<open>os.makedirs\<close> raises on the empty directory name.
\<close>

datatype page_error = EngineUnavailable | ImageUnreadable | CropFailed | OutputDirMissing

text \<open>
  A recognition profile, as the scripts hand it to Tesseract: the language, the engine
  mode (\<open>--oem\<close>; \<open>None\<close> where the script leaves it to the engine), the page
  segmentation mode as a number (6 a single block, 7 a single line, 8 a single word) and
  the character whitelist.
\<close>

record profile =
  pf_lang :: string
  pf_oem :: "nat option"
  pf_psm :: nat
  pf_whitelist :: "string option"

subsection \<open>ocr\_page\_fast.py\<close>

text \<open>
  The three \<open>PyTessBaseAPI\<close> objects of \<open>FastOCR.__init__\<close> (lines 84-90):
  \<open>PSM.SINGLE_LINE\<close> is mode 7 and \<open>PSM.SINGLE_BLOCK\<close> mode 6, the numbers the
  \<open>pytesseract\<close> fallback of the same class passes as \<open>--psm\<close>.
\<close>

definition fast_serial_profile :: profile where
  "fast_serial_profile =
     \<lparr>pf_lang = ''eng'', pf_oem = None, pf_psm = 7, pf_whitelist = Some ''0123456789''\<rparr>"

definition fast_epic_profile :: profile where
  "fast_epic_profile =
     \<lparr>pf_lang = ''eng'', pf_oem = None, pf_psm = 7,
      pf_whitelist = Some ''ABCDEFGHIJKLMNOPQRSTUVWXYZ0123456789''\<rparr>"

definition fast_text_profile :: profile where
  "fast_text_profile = \<lparr>pf_lang = ''hin+eng'', pf_oem = None, pf_psm = 6, pf_whitelist = None\<rparr>"

text \<open>
  The persistent engine and the image library. \<open>crop_img\<close> is the image \<open>Image.crop\<close>
  returns and \<open>crop_fails\<close> tells whether the call raises instead; \<open>to_gray\<close> is
  \<open>img.convert('L')\<close> of lines 174-175 (the identity on a page that is grayscale already; it
  keeps the size); \<open>recognize\<close> is \<open>SetImage\<close> followed by \<open>GetUTF8Text\<close> on the API object
  of a profile, \<open>None\<close> when the call raises. The engine itself is \<open>None\<close> when
  \<open>FastOCR()\<close> raises, the image when \<open>Image.open\<close> (or the conversion) does.
\<close>

record 'img engine =
  crop_img :: "'img \<Rightarrow> box \<Rightarrow> 'img"
  crop_fails :: "'img \<Rightarrow> box \<Rightarrow> bool"
  to_gray :: "'img \<Rightarrow> 'img"
  recognize :: "profile \<Rightarrow> 'img \<Rightarrow> ustring option"

definition api_serial :: "'img engine \<Rightarrow> 'img \<Rightarrow> ustring option" where
  "api_serial eng region_img = recognize eng fast_serial_profile region_img"

definition api_epic :: "'img engine \<Rightarrow> 'img \<Rightarrow> ustring option" where
  "api_epic eng region_img = recognize eng fast_epic_profile region_img"

definition api_text :: "'img engine \<Rightarrow> 'img \<Rightarrow> ustring option" where
  "api_text eng region_img = recognize eng fast_text_profile region_img"

text \<open>
  The \<open>try\<close> block of the loop body (lines 202-220): crop and call for the serial, the
  EPIC and the text region, in this order; an exception in any of the six steps leads to
  \<open>serial = epic = text = ""\<close>.
\<close>

definition ocr_tile_fast :: "'img engine \<Rightarrow> 'img \<Rightarrow> ustring \<times> ustring \<times> ustring" where
  "ocr_tile_fast eng record_img =
     (if crop_fails eng record_img serial_box then ([], [], [])
      else case api_serial eng (crop_img eng record_img serial_box) of
        None \<Rightarrow> ([], [], [])
      | Some s \<Rightarrow>
          (if crop_fails eng record_img epic_box then ([], [], [])
           else case api_epic eng (crop_img eng record_img epic_box) of
             None \<Rightarrow> ([], [], [])
           | Some e \<Rightarrow>
               (if crop_fails eng record_img text_box then ([], [], [])
                else case api_text eng (crop_img eng record_img text_box) of
                  None \<Rightarrow> ([], [], [])
                | Some t \<Rightarrow> (py_strip s, py_strip e, py_strip t))))"

text \<open>The loop body for a tile in bounds, on the page as the loop has it (converted).\<close>

definition record_fast :: "ucd \<Rightarrow> 'img engine \<Rightarrow> 'img \<Rightarrow> string \<Rightarrow> tile \<Rightarrow> pydict" where
  "record_fast U eng img image_path t =
     (let record_img = crop_img eng img (record_box t);
          res = ocr_tile_fast eng record_img;
          serial = fst res; epic = fst (snd res); text = snd (snd res);
          parsed = parse_hindi_text U text;
          is_valid = (length epic \<ge> 6 \<or> length text \<ge> 20)
      in csv_record image_path t serial epic text parsed is_valid)"

text \<open>The loop over the grid: \<open>csv_records\<close> when the loop ends.\<close>

definition csv_records_fast :: "ucd \<Rightarrow> 'img engine \<Rightarrow> 'img image \<Rightarrow> string \<Rightarrow> pydict list" where
  "csv_records_fast U eng img image_path =
     map (record_fast U eng (to_gray eng (pixels img)) image_path)
         (grid_tiles (img_width img) (img_height img))"

text \<open>
  \<open>process_page\<close> of ocr\_page\_fast.py. The crop of a record from the page (line 199)
  stands before the \<open>try\<close> block: when it raises for a tile the loop is left, nothing is
  written and the exception leaves the function. The directory of the output file is
  made with \<open>'.'\<close> in place of an empty name (line 251); that and the opening of the file
  are taken to succeed.
\<close>

definition process_page_fast ::
  "ucd \<Rightarrow> 'img engine option \<Rightarrow> 'img image option \<Rightarrow> string \<Rightarrow> string
     \<Rightarrow> page_error + (csv_file \<times> pydict)" where
  "process_page_fast U ocr_engine opened image_path output_csv =
     (case ocr_engine of
        None \<Rightarrow> Inl EngineUnavailable
      | Some eng \<Rightarrow>
          (case opened of
             None \<Rightarrow> Inl ImageUnreadable
           | Some img \<Rightarrow>
               if list_ex (\<lambda>t. crop_fails eng (to_gray eng (pixels img)) (record_box t))
                          (grid_tiles (img_width img) (img_height img))
               then Inl CropFailed
               else
                 (let csv_records = csv_records_fast U eng img image_path
                  in Inr (write_csv csv_records,
                          summary image_path (length csv_records) (count_valid csv_records)
                            output_csv))))"

subsection \<open>ocr\_page\_python.py\<close>

text \<open>
  The worker-pool script works through files. \<open>crop_py\<close> and \<open>crop_py_fails\<close> are
  \<open>Image.crop\<close> as above; \<open>enhance\<close> is the grayscale conversion, contrast and sharpening
  of the text region and \<open>enhance_fails\<close> tells whether one of the three raises;
  \<open>save_image\<close> tells whether \<open>Image.save\<close> to a path returns (\<open>False\<close>: it raises);
  \<open>tesseract\<close> is the external call of \<open>ocr_region\<close> with the options of a profile on an
  image file: it raises (a timeout after 10 seconds, a missing executable, a temporary
  file that cannot be made), or it completes with an exit status and the content of its
  output file, \<open>None\<close> when that file cannot be read.
\<close>

datatype proc_outcome =
    CallRaised
  | Completed int "ustring option"

record 'img py_env =
  crop_py :: "'img \<Rightarrow> box \<Rightarrow> 'img"
  crop_py_fails :: "'img \<Rightarrow> box \<Rightarrow> bool"
  enhance :: "'img \<Rightarrow> 'img"
  enhance_fails :: "'img \<Rightarrow> bool"
  save_image :: "string \<Rightarrow> 'img \<Rightarrow> bool"
  tesseract :: "profile \<Rightarrow> string \<Rightarrow> proc_outcome"

record region_record =
  rtile :: tile
  serial_path :: string
  epic_path :: string
  text_path :: string
  full_path :: string

definition region_path :: "string \<Rightarrow> string \<Rightarrow> string \<Rightarrow> string" where
  "region_path boxes_dir rid suffix = path_join boxes_dir (''record_'' @ rid @ suffix @ ''.png'')"

text \<open>
  The \<open>try\<close> block of \<open>extract_record_regions\<close> (lines 69-106), on the page image and a
  tile: \<open>None\<close> is the \<open>except ... continue\<close>, which leaves the tile out of \<open>records\<close>.
\<close>

definition save_regions :: "'img py_env \<Rightarrow> 'img \<Rightarrow> string \<Rightarrow> tile \<Rightarrow> region_record option" where
  "save_regions env img boxes_dir t =
     (let record_img = crop_py env img (record_box t);
          sp = region_path boxes_dir (record_id t) ''_serial'';
          ep = region_path boxes_dir (record_id t) ''_epic'';
          tp = region_path boxes_dir (record_id t) ''_text'';
          fp = region_path boxes_dir (record_id t) ''''
      in if crop_py_fails env record_img serial_box then None
         else if \<not> save_image env sp (crop_py env record_img serial_box) then None
         else if crop_py_fails env record_img epic_box then None
         else if \<not> save_image env ep (crop_py env record_img epic_box) then None
         else if crop_py_fails env record_img text_box then None
         else if enhance_fails env (crop_py env record_img text_box) then None
         else if \<not> save_image env tp (enhance env (crop_py env record_img text_box)) then None
         else if \<not> save_image env fp record_img then None
         else Some \<lparr>rtile = t, serial_path = sp, epic_path = ep, text_path = tp, full_path = fp\<rparr>)"

definition boxes_dir :: "string \<Rightarrow> string \<Rightarrow> string" where
  \<comment> \<open>\<open>Path(output_dir) / "boxes" / image_name\<close>\<close>
  "boxes_dir output_dir image_path = path_join (path_join output_dir ''boxes'') (path_stem image_path)"

text \<open>
  \<open>records\<close> when the loop of \<open>extract_record_regions\<close> ends. (The crop of a record from
  the page, line 57, stands before the \<open>try\<close> block; \<open>process_page\<close> below tells what
  happens when it raises.)
\<close>

definition extract_record_regions :: "'img py_env \<Rightarrow> 'img image \<Rightarrow> string \<Rightarrow> string \<Rightarrow> region_record list" where
  "extract_record_regions env img image_path output_dir =
     List.map_filter (save_regions env (pixels img) (boxes_dir output_dir image_path))
                     (grid_tiles (img_width img) (img_height img))"

record ocr_task =
  task_type :: string
  task_path :: string
  task_record_id :: string

record ocr_result =
  res_record_id :: string
  res_type :: string
  res_text :: ustring
  res_success :: bool

text \<open>The options of the command line \<open>ocr_region\<close> builds for a region type (lines 121-149).\<close>

definition region_profile :: "string \<Rightarrow> profile" where
  "region_profile region_type =
     (if region_type = ''serial'' then
        \<lparr>pf_lang = ''eng'', pf_oem = Some 1, pf_psm = 8, pf_whitelist = Some ''0123456789''\<rparr>
      else if region_type = ''epic'' then
        \<lparr>pf_lang = ''eng'', pf_oem = Some 1, pf_psm = 8,
         pf_whitelist = Some ''ABCDEFGHIJKLMNOPQRSTUVWXYZ0123456789''\<rparr>
      else
        \<lparr>pf_lang = ''hin+eng'', pf_oem = Some 1, pf_psm = 6, pf_whitelist = None\<rparr>)"

definition ocr_region :: "'img py_env \<Rightarrow> ocr_task \<Rightarrow> ocr_result" where
  "ocr_region env region_data =
     (case tesseract env (region_profile (task_type region_data)) (task_path region_data) of
        CallRaised \<Rightarrow>
          \<lparr>res_record_id = task_record_id region_data, res_type = task_type region_data,
           res_text = [], res_success = False\<rparr>
      | Completed returncode out \<Rightarrow>
          \<lparr>res_record_id = task_record_id region_data, res_type = task_type region_data,
           res_text = (case out of None \<Rightarrow> [] | Some content \<Rightarrow> py_strip content),
           res_success = (returncode = 0)\<rparr>)"

text \<open>The text and the success flag of \<open>ocr_region\<close>, as functions of the outcome of the call.\<close>

definition outcome_text :: "proc_outcome \<Rightarrow> ustring" where
  "outcome_text oc =
     (case oc of CallRaised \<Rightarrow> []
      | Completed returncode out \<Rightarrow> (case out of None \<Rightarrow> [] | Some content \<Rightarrow> py_strip content))"

definition outcome_success :: "proc_outcome \<Rightarrow> bool" where
  "outcome_success oc = (case oc of CallRaised \<Rightarrow> False | Completed returncode out \<Rightarrow> returncode = 0)"

definition ocr_tasks :: "region_record list \<Rightarrow> ocr_task list" where
  "ocr_tasks records =
     concat (map (\<lambda>r. [\<lparr>task_type = ''serial'', task_path = serial_path r, task_record_id = record_id (rtile r)\<rparr>,
                        \<lparr>task_type = ''epic'', task_path = epic_path r, task_record_id = record_id (rtile r)\<rparr>,
                        \<lparr>task_type = ''text'', task_path = text_path r, task_record_id = record_id (rtile r)\<rparr>])
                 records)"

text \<open>
  \<open>ocr_results\<close>, a dictionary of dictionaries. The results arrive in completion order;
  each result is stored under its own record id and region type.
\<close>

type_synonym ocr_results = "string \<rightharpoonup> (string \<rightharpoonup> ustring)"

definition store_result :: "ocr_results \<Rightarrow> ocr_result \<Rightarrow> ocr_results" where
  "store_result m res =
     (let inner = (case m (res_record_id res) of None \<Rightarrow> Map.empty | Some d \<Rightarrow> d)
      in m(res_record_id res \<mapsto> inner(res_type res \<mapsto> res_text res)))"

definition get_text :: "ocr_results \<Rightarrow> string \<Rightarrow> string \<Rightarrow> ustring" where
  \<comment> \<open>\<open>ocr_results.get(record_id, {}).get(region_type, '').strip()\<close>\<close>
  "get_text m rid ty =
     py_strip (case m rid of None \<Rightarrow> [] | Some d \<Rightarrow> (case d ty of None \<Rightarrow> [] | Some t \<Rightarrow> t))"

definition record_python :: "ucd \<Rightarrow> ocr_results \<Rightarrow> string \<Rightarrow> region_record \<Rightarrow> pydict" where
  "record_python U results image_path r =
     (let rid = record_id (rtile r);
          serial = get_text results rid ''serial'';
          epic = get_text results rid ''epic'';
          text = get_text results rid ''text'';
          parsed = parse_hindi_text U text;
          is_valid = (length serial \<ge> 1 \<and> length epic \<ge> 6 \<and> length text \<ge> 20)
      in csv_record image_path (rtile r) serial epic text parsed is_valid)"

text \<open>
  The isolated text of one region of a record: what \<open>ocr_region\<close> returns for the task
  of that region, stripped as \<open>process_page\<close> strips it.
\<close>

definition region_task :: "region_record \<Rightarrow> string \<Rightarrow> ocr_task" where
  "region_task r ty =
     \<lparr>task_type = ty,
      task_path = (if ty = ''serial'' then serial_path r else if ty = ''epic'' then epic_path r
                   else text_path r),
      task_record_id = record_id (rtile r)\<rparr>"

definition region_text :: "'img py_env \<Rightarrow> region_record \<Rightarrow> string \<Rightarrow> ustring" where
  "region_text env r ty = py_strip (res_text (ocr_region env (region_task r ty)))"

text \<open>
  The OCR phase and the loop over the records of \<open>process_page\<close>: \<open>csv_records\<close> when
  the loop ends.
\<close>

definition csv_records_python :: "ucd \<Rightarrow> 'img py_env \<Rightarrow> string \<Rightarrow> region_record list \<Rightarrow> pydict list" where
  "csv_records_python U env image_path records =
     (let results = foldl store_result Map.empty (map (ocr_region env) (ocr_tasks records))
      in map (record_python U results image_path) records)"

text \<open>
  \<open>process_page\<close> of ocr\_page\_python.py. A crop of a record from the page that raises
  leaves \<open>extract_record_regions\<close> and \<open>process_page\<close> as an exception. With no record
  extracted the function returns \<open>None\<close> before the output file is opened: the result is
  \<open>Inr None\<close>. After the loop over the records,
  \<open>os.makedirs(os.path.dirname(output_csv), exist_ok=True)\<close> (line 291) raises
  \<open>FileNotFoundError\<close> when the directory name is empty, that is when \<open>output_csv\<close> has no
  slash; nothing is written then. For a non-empty name the directory and the file are
  taken to be writable.
\<close>

definition process_page_python ::
  "ucd \<Rightarrow> 'img py_env \<Rightarrow> 'img image option \<Rightarrow> string \<Rightarrow> string \<Rightarrow> string
     \<Rightarrow> page_error + (csv_file \<times> pydict) option" where
  "process_page_python U env opened temp_dir image_path output_csv =
     (case opened of
        None \<Rightarrow> Inl ImageUnreadable
      | Some img \<Rightarrow>
          if list_ex (\<lambda>t. crop_py_fails env (pixels img) (record_box t))
                     (grid_tiles (img_width img) (img_height img))
          then Inl CropFailed
          else
            (let records = extract_record_regions env img image_path temp_dir in
             if records = [] then Inr None
             else
               let csv_records = csv_records_python U env image_path records
               in if dirname output_csv = [] then Inl OutputDirMissing
                  else Inr (Some (write_csv csv_records,
                                  summary image_path (length records) (count_valid csv_records)
                                    output_csv))))"

text \<open>
  To compare the records of the two scripts: a record without its validity flag, and the
  cells that place a record on its page.
\<close>

definition drop_valid :: "pydict \<Rightarrow> pydict" where
  "drop_valid d = filter (\<lambda>kv. fst kv \<noteq> ''valid'') d"

definition position_cells :: "pydict \<Rightarrow> pydict" where
  "position_cells d = filter (\<lambda>kv. fst kv \<in> set [''page'', ''record_id'', ''row'', ''col'']) d"

section \<open>Example inputs\<close>

text \<open>
  A directory of the decoupled parser with three status files: \<open>VALID\<close> (with a line
  break) for record 00, \<open>FAILED\<close> for record 01, \<open>VALID\<close> for record 02. Record 00 has a
  serial file \<open>7\<close> and a text file with a name line and \<open>umr: 45\<close>; record 01 has the same
  files; record 02 has none.
\<close>

definition ex_text_00 :: ustring where
  "ex_text_00 = [2344, 2367, 2352, 2381, 2357, 2366, 2330, 2325, 32, 2325, 2366, 32, 2344, 2366, 2350, 58, 32, 2352, 2366, 2350, 10, 2313, 2350, 2381, 2352, 58, 32, 52, 53]"

definition ex_fs :: fsys where
  "ex_fs = \<lparr>
     read_file = map_of
       [(''ocr/p1/record_00.status'', ustr ''VALID'' @ [10]),
        (''ocr/p1/record_01.status'', ustr ''FAILED''),
        (''ocr/p1/record_02.status'', ustr ''VALID''),
        (''ocr/p1/record_00_serial.txt'', ustr ''7''),
        (''ocr/p1/record_00_text.txt'', ex_text_00),
        (''ocr/p1/record_01_serial.txt'', ustr ''7''),
        (''ocr/p1/record_01_text.txt'', ex_text_00)],
     glob_sorted = (\<lambda>pat. if pat = ''ocr/p1/record_*.status''
                          then [''ocr/p1/record_00.status'', ''ocr/p1/record_01.status'',
                                ''ocr/p1/record_02.status'']
                          else []),
     list_dirs = (\<lambda>d. if d = ''ocr'' then Some [''p1''] else None)\<rparr>"

text \<open>
  Pages for the two page scripts: one that holds exactly the tile at row 0, column 0
  (320 by 163 pixels) and one too small for any tile. The pixels play no role in the
  examples; the engines below answer every region of a kind with the same outcome.
\<close>

definition ex_page_one :: "unit image" where
  "ex_page_one = \<lparr>img_width = 320, img_height = 163, pixels = ()\<rparr>"


definition ex_engine :: "ustring option \<Rightarrow> ustring option \<Rightarrow> ustring option \<Rightarrow> unit engine" where
  "ex_engine s e t =
     \<lparr>crop_img = (\<lambda>img b. ()), crop_fails = (\<lambda>img b. False), to_gray = (\<lambda>img. img),
      recognize = (\<lambda>pf img. if pf = fast_serial_profile then s
                             else if pf = fast_epic_profile then e else t)\<rparr>"

definition ex_py_env :: "proc_outcome \<Rightarrow> proc_outcome \<Rightarrow> proc_outcome \<Rightarrow> unit py_env" where
  "ex_py_env s e t =
     \<lparr>crop_py = (\<lambda>img b. ()), crop_py_fails = (\<lambda>img b. False), enhance = (\<lambda>img. img),
      enhance_fails = (\<lambda>img. False), save_image = (\<lambda>path img. True),
      tesseract = (\<lambda>pf path. if pf = region_profile ''serial'' then s
                               else if pf = region_profile ''epic'' then e else t)\<rparr>"

definition ex_text_25 :: ustring where
  \<comment> \<open>25 letters\<close>
  "ex_text_25 = ustr ''abcdefghijklmnopqrstuvwxy''"

text \<open>
  A recognition capability whose answer depends on the profile alone, so that it returns
  the same text for the same sub-image and profile, behind the two interfaces: told to
  expect a single line it reads \<open>12\<close> with the digit whitelist and \<open>ABC1234567\<close> with the
  other one, told to expect a single word it reads nothing, and it reads 25 letters from
  a block.
\<close>

definition ex_capability :: "profile \<Rightarrow> ustring" where
  "ex_capability pf =
     (if pf_psm pf = 7 then (if pf_whitelist pf = Some ''0123456789'' then ustr ''12''
                             else ustr ''ABC1234567'')
      else if pf_psm pf = 8 then []
      else ex_text_25)"

definition ex_capability_engine :: "unit engine" where
  "ex_capability_engine =
     \<lparr>crop_img = (\<lambda>img b. ()), crop_fails = (\<lambda>img b. False), to_gray = (\<lambda>img. img),
      recognize = (\<lambda>pf img. Some (ex_capability pf))\<rparr>"

definition ex_capability_env :: "unit py_env" where
  "ex_capability_env =
     \<lparr>crop_py = (\<lambda>img b. ()), crop_py_fails = (\<lambda>img b. False), enhance = (\<lambda>img. img),
      enhance_fails = (\<lambda>img. False), save_image = (\<lambda>path img. True),
      tesseract = (\<lambda>pf path. Completed 0 (Some (ex_capability pf)))\<rparr>"

definition ex_text_age17 :: ustring where
  \<comment> \<open>\<open>aayu: 17\<close>, a line break and 16 more characters\<close>
  "ex_text_age17 = [2310, 2351, 2369, 58, 32, 49, 55, 10] @ ustr ''no other labels.''"


definition ex_text_spaces :: ustring where
  \<comment> \<open>\<open>naam: A  B\<close>, with two spaces between the letters\<close>
  "ex_text_spaces = [2344, 2366, 2350, 58, 32, 65, 32, 32, 66]"
text \<open>
  Tile texts for \<open>parse_tile\<close>, each with the text \<open>clean_text\<close> makes of it.
\<close>

definition ex_tile_full :: ustring where
  \<comment> \<open>all seven fields, age 45, EPIC \<open>ABC1234567\<close>; with a leading space, a doubled
      space, four line breaks in a row and a final line break\<close>
  "ex_tile_full =
     [32, 2344, 2367, 2352, 2381, 2357, 2366, 2330, 2325, 32, 2325, 2366, 32, 2344, 2366,
      2350, 58, 32, 2352, 2366, 2350, 32, 32, 2325, 2369, 2350, 2366, 2352, 10, 2346, 2367,
      2340, 2366, 32, 2325, 2366, 32, 2344, 2366, 2350, 58, 32, 2358, 2381, 2351, 2366,
      2350, 10, 10, 10, 10, 2350, 2325, 2366, 2344, 32, 2360, 2306, 2326, 2381, 2351, 2366,
      58, 32, 49, 50, 10, 2313, 2350, 2381, 2352, 58, 32, 52, 53, 32, 2354, 2367, 2306,
      2327, 58, 32, 2346, 2369, 2352, 2369, 2359, 10, 65, 66, 67, 49, 50, 51, 52, 53, 54,
      55, 10]"

definition ex_tile_full_clean :: ustring where
  "ex_tile_full_clean =
     [2344, 2367, 2352, 2381, 2357, 2366, 2330, 2325, 32, 2325, 2366, 32, 2344, 2366, 2350,
      58, 32, 2352, 2366, 2350, 32, 2325, 2369, 2350, 2366, 2352, 10, 2346, 2367, 2340,
      2366, 32, 2325, 2366, 32, 2344, 2366, 2350, 58, 32, 2358, 2381, 2351, 2366, 2350, 10,
      10, 2350, 2325, 2366, 2344, 32, 2360, 2306, 2326, 2381, 2351, 2366, 58, 32, 49, 50,
      10, 2313, 2350, 2381, 2352, 58, 32, 52, 53, 32, 2354, 2367, 2306, 2327, 58, 32, 2346,
      2369, 2352, 2369, 2359, 10, 65, 66, 67, 49, 50, 51, 52, 53, 54, 55]"


definition ex_tile_17 :: ustring where
  \<comment> \<open>a name, age 17 and EPIC \<open>ABC1234567\<close>\<close>
  "ex_tile_17 =
     [2344, 2367, 2352, 2381, 2357, 2366, 2330, 2325, 32, 2325, 2366, 32, 2344, 2366, 2350,
      58, 32, 2352, 2366, 2350, 10, 2313, 2350, 2381, 2352, 58, 32, 49, 55, 10, 65, 66, 67,
      49, 50, 51, 52, 53, 54, 55]"

section \<open>Grid geometry: results\<close>

lemma dec_str_small: "n < 10 \<Longrightarrow> dec_str n = [digit_char n]"
  by simp

lemma dec_str_two: "10 \<le> n \<Longrightarrow> n < 100 \<Longrightarrow> dec_str n = [digit_char (n div 10), digit_char (n mod 10)]"
  by (subst dec_str.simps) simp

lemma length_fmt02: "n < 100 \<Longrightarrow> length (fmt02 n) = 2"
  by (cases "n < 10") (simp_all add: fmt02_def dec_str_small dec_str_two del: dec_str.simps)

lemma concat_loop_map_filter:
  "concat (map (\<lambda>r. concat (map (\<lambda>c. case g r c of None \<Rightarrow> [] | Some t \<Rightarrow> [t]) cs)) rs)
     = List.map_filter (\<lambda>(r, c). g r c) (List.product rs cs)"
proof (induction rs)
  case Nil
  show ?case by (simp add: List.map_filter_def)
next
  case (Cons r rs)
  have inner: "concat (map (\<lambda>c. case g r c of None \<Rightarrow> [] | Some t \<Rightarrow> [t]) cs)
                 = List.map_filter (\<lambda>(r, c). g r c) (map (Pair r) cs)"
    by (induction cs) (auto simp: List.map_filter_def split: option.splits)
  show ?case using Cons inner by (simp add: List.map_filter_def)
qed

lemma tile_at_Some:
  "tile_at w h r c = Some t \<longleftrightarrow>
     \<not> (22 + c * 303 + 298 > w \<or> 42 + r * 126 + 121 > h) \<and>
     t = \<lparr>record_id = fmt02 (r * 3 + c), row = r, col = c, x = 22 + c * 303, y = 42 + r * 126\<rparr>"
  by (auto simp: tile_at_def Let_def GRID_COLS_def START_X_def START_Y_def RECORD_WIDTH_def
      RECORD_HEIGHT_def GAP_X_def GAP_Y_def)

lemma grid_tiles_map_filter:
  "grid_tiles w h = List.map_filter (\<lambda>(r, c). tile_at w h r c) (List.product [0..<10] [0..<3])"
  unfolding grid_tiles_def GRID_COLS_def GRID_ROWS_def by (rule concat_loop_map_filter)

lemma grid_tiles_mem:
  "t \<in> set (grid_tiles w h) \<longleftrightarrow> (\<exists>r c. r < 10 \<and> c < 3 \<and> tile_at w h r c = Some t)"
  by (force simp: grid_tiles_map_filter List.map_filter_def)

lemma grid_tiles_filter:
  "grid_tiles w h =
     map (\<lambda>(r, c). \<lparr>record_id = fmt02 (r * 3 + c), row = r, col = c,
                      x = 22 + c * (298 + 5), y = 42 + r * (121 + 5)\<rparr>)
         (filter (\<lambda>(r, c). \<not> (22 + c * (298 + 5) + 298 > w \<or> 42 + r * (121 + 5) + 121 > h))
                 (List.product [0..<10] [0..<3]))"
proof -
  have "List.map_filter (\<lambda>(r, c). tile_at w h r c) ps =
          map (\<lambda>(r, c). \<lparr>record_id = fmt02 (r * 3 + c), row = r, col = c,
                          x = 22 + c * (298 + 5), y = 42 + r * (121 + 5)\<rparr>)
              (filter (\<lambda>(r, c). \<not> (22 + c * (298 + 5) + 298 > w \<or> 42 + r * (121 + 5) + 121 > h)) ps)"
    for ps
  proof (induction ps)
    case Nil
    show ?case by (simp add: List.map_filter_def)
  next
    case (Cons p ps)
    obtain r c where p: "p = (r, c)" by (cases p)
    show ?case
    proof (cases "tile_at w h r c")
      case None
      then have "22 + c * 303 + 298 > w \<or> 42 + r * 126 + 121 > h"
        using tile_at_Some [of w h r c] by auto
      with None Cons p show ?thesis by (auto simp: List.map_filter_def)
    next
      case (Some t)
      with Cons p show ?thesis
        using tile_at_Some [of w h r c t] by (auto simp: List.map_filter_def)
    qed
  qed
  then show ?thesis by (simp only: grid_tiles_map_filter)
qed

lemma grid_tiles_full:
  assumes "926 \<le> w" "1297 \<le> h"
  shows "grid_tiles w h =
     map (\<lambda>(r, c). \<lparr>record_id = fmt02 (r * 3 + c), row = r, col = c,
                      x = 22 + c * (298 + 5), y = 42 + r * (121 + 5)\<rparr>)
         (List.product [0..<10] [0..<3])"
proof -
  have "filter (\<lambda>(r, c). \<not> (22 + c * (298 + 5) + 298 > w \<or> 42 + r * (121 + 5) + 121 > h))
               (List.product [0..<10] [0..<3]) = List.product [0..<10] [0..<3]"
    using assms by (intro filter_True) auto
  then show ?thesis by (simp only: grid_tiles_filter)
qed

lemma fmt02_ids:
  "map (\<lambda>(r, c). fmt02 (r * 3 + c)) (List.product [0..<10] [0..<3]) =
     [''00'', ''01'', ''02'', ''03'', ''04'', ''05'', ''06'', ''07'', ''08'', ''09'',
      ''10'', ''11'', ''12'', ''13'', ''14'', ''15'', ''16'', ''17'', ''18'', ''19'',
      ''20'', ''21'', ''22'', ''23'', ''24'', ''25'', ''26'', ''27'', ''28'', ''29'']"
  by (simp add: upt_rec fmt02_def digit_char_def)

lemma tiles_disjoint:
  assumes "t \<in> set (grid_tiles w h)" "t' \<in> set (grid_tiles w h)" "t \<noteq> t'"
  shows "\<not> boxes_overlap (record_box t) (record_box t')"
proof -
  from assms(1) obtain r c where t: "tile_at w h r c = Some t" by (auto simp: grid_tiles_mem)
  from assms(2) obtain r' c' where t': "tile_at w h r' c' = Some t'" by (auto simp: grid_tiles_mem)
  have tx: "x t = 22 + c * 303" "y t = 42 + r * 126" using t by (auto simp: tile_at_Some)
  have tx': "x t' = 22 + c' * 303" "y t' = 42 + r' * 126" using t' by (auto simp: tile_at_Some)
  have "r \<noteq> r' \<or> c \<noteq> c'" using t t' assms(3) by auto
  then consider "c < c'" | "c' < c" | "r < r'" | "r' < r" by arith
  then show ?thesis
    by cases (simp_all add: record_box_def tx tx' RECORD_WIDTH_def RECORD_HEIGHT_def)
qed

lemma grid_tiles_full_ids:
  assumes "926 \<le> w" "1297 \<le> h"
  shows "map record_id (grid_tiles w h) =
     [''00'', ''01'', ''02'', ''03'', ''04'', ''05'', ''06'', ''07'', ''08'', ''09'',
      ''10'', ''11'', ''12'', ''13'', ''14'', ''15'', ''16'', ''17'', ''18'', ''19'',
      ''20'', ''21'', ''22'', ''23'', ''24'', ''25'', ''26'', ''27'', ''28'', ''29'']"
proof -
  have "map record_id (grid_tiles w h) =
          map (\<lambda>(r, c). fmt02 (r * 3 + c)) (List.product [0..<10] [0..<3])"
    by (simp only: grid_tiles_full [OF assms]) (simp add: comp_def case_prod_unfold)
  then show ?thesis by (simp only: fmt02_ids)
qed

text \<open>
  Claim C1. For every page width \<open>w\<close> and height \<open>h\<close> the loop visits the grid positions
  row 0..9, column 0..2 in row-major order; the tile at (row, col) has
  x = 22 + col * (298 + 5), y = 42 + row * (121 + 5), width 298, height 121 and
  record id row * 3 + col printed with two digits; a tile is left out, with the ids of the
  others unchanged, exactly when x + 298 > w or y + 121 > h; the rectangles of two different
  tiles never overlap; and on a page of at least the grid footprint (926 by 1297) there are
  exactly 30 tiles, with the ids 00, ..., 29.
\<close>

theorem grid_segmenter_tiles:
  "grid_tiles w h =
     map (\<lambda>(r, c). \<lparr>record_id = fmt02 (r * 3 + c), row = r, col = c,
                      x = 22 + c * (298 + 5), y = 42 + r * (121 + 5)\<rparr>)
         (filter (\<lambda>(r, c). \<not> (22 + c * (298 + 5) + 298 > w \<or> 42 + r * (121 + 5) + 121 > h))
                 (List.product [0..<10] [0..<3]))
   \<and> (\<forall>t \<in> set (grid_tiles w h). record_box t = (x t, y t, x t + 298, y t + 121)
         \<and> length (record_id t) = 2)
   \<and> (\<forall>t \<in> set (grid_tiles w h). \<forall>t' \<in> set (grid_tiles w h).
         t \<noteq> t' \<longrightarrow> \<not> boxes_overlap (record_box t) (record_box t'))
   \<and> (926 \<le> w \<and> 1297 \<le> h \<longrightarrow>
         length (grid_tiles w h) = 30
       \<and> map record_id (grid_tiles w h) =
           [''00'', ''01'', ''02'', ''03'', ''04'', ''05'', ''06'', ''07'', ''08'', ''09'',
      ''10'', ''11'', ''12'', ''13'', ''14'', ''15'', ''16'', ''17'', ''18'', ''19'',
      ''20'', ''21'', ''22'', ''23'', ''24'', ''25'', ''26'', ''27'', ''28'', ''29'']
       \<and> (\<forall>i < 30. \<forall>j < 30. i \<noteq> j \<longrightarrow>
             \<not> boxes_overlap (record_box (grid_tiles w h ! i)) (record_box (grid_tiles w h ! j))))"
proof (intro conjI ballI impI allI)
  show "grid_tiles w h =
     map (\<lambda>(r, c). \<lparr>record_id = fmt02 (r * 3 + c), row = r, col = c,
                      x = 22 + c * (298 + 5), y = 42 + r * (121 + 5)\<rparr>)
         (filter (\<lambda>(r, c). \<not> (22 + c * (298 + 5) + 298 > w \<or> 42 + r * (121 + 5) + 121 > h))
                 (List.product [0..<10] [0..<3]))"
    by (rule grid_tiles_filter)
next
  fix t assume "t \<in> set (grid_tiles w h)"
  then show "record_box t = (x t, y t, x t + 298, y t + 121)"
    by (simp add: record_box_def RECORD_WIDTH_def RECORD_HEIGHT_def)
next
  fix t assume "t \<in> set (grid_tiles w h)"
  then obtain r c where "r < 10" "c < 3" "tile_at w h r c = Some t"
    by (auto simp: grid_tiles_mem)
  then show "length (record_id t) = 2"
    by (auto simp: tile_at_Some intro!: length_fmt02)
next
  fix t t' assume "t \<in> set (grid_tiles w h)" "t' \<in> set (grid_tiles w h)" "t \<noteq> t'"
  then show "\<not> boxes_overlap (record_box t) (record_box t')" by (rule tiles_disjoint)
next
  assume big: "926 \<le> w \<and> 1297 \<le> h"
  have ids: "map record_id (grid_tiles w h) =
     [''00'', ''01'', ''02'', ''03'', ''04'', ''05'', ''06'', ''07'', ''08'', ''09'',
      ''10'', ''11'', ''12'', ''13'', ''14'', ''15'', ''16'', ''17'', ''18'', ''19'',
      ''20'', ''21'', ''22'', ''23'', ''24'', ''25'', ''26'', ''27'', ''28'', ''29'']"
    using big by (intro grid_tiles_full_ids) auto
  have len: "length (map record_id (grid_tiles w h)) = 30"
    by (simp only: ids) simp
  then show "length (grid_tiles w h) = 30" by simp
  show "map record_id (grid_tiles w h) =
     [''00'', ''01'', ''02'', ''03'', ''04'', ''05'', ''06'', ''07'', ''08'', ''09'',
      ''10'', ''11'', ''12'', ''13'', ''14'', ''15'', ''16'', ''17'', ''18'', ''19'',
      ''20'', ''21'', ''22'', ''23'', ''24'', ''25'', ''26'', ''27'', ''28'', ''29'']"
    by (rule ids)
  fix i j :: nat assume ij: "i < 30" "j < 30" "i \<noteq> j"
  have "distinct (map record_id (grid_tiles w h))" by (simp only: ids) simp
  then have "distinct (grid_tiles w h)" by (simp add: distinct_map)
  with ij len have "grid_tiles w h ! i \<noteq> grid_tiles w h ! j"
    by (simp add: nth_eq_iff_index_eq)
  moreover have "grid_tiles w h ! i \<in> set (grid_tiles w h)" "grid_tiles w h ! j \<in> set (grid_tiles w h)"
    using ij len by simp_all
  ultimately show "\<not> boxes_overlap (record_box (grid_tiles w h ! i)) (record_box (grid_tiles w h ! j))"
    by (intro tiles_disjoint)
qed

theorem grid_segmenter_tiles_witness:
  "(926::nat) \<le> 926 \<and> (1297::nat) \<le> 1297
   \<and> length (grid_tiles 926 1297) = 30
   \<and> map record_id (grid_tiles 926 1297) =
       [''00'', ''01'', ''02'', ''03'', ''04'', ''05'', ''06'', ''07'', ''08'', ''09'',
      ''10'', ''11'', ''12'', ''13'', ''14'', ''15'', ''16'', ''17'', ''18'', ''19'',
      ''20'', ''21'', ''22'', ''23'', ''24'', ''25'', ''26'', ''27'', ''28'', ''29'']
   \<and> \<not> boxes_overlap (record_box (grid_tiles 926 1297 ! 0)) (record_box (grid_tiles 926 1297 ! 1))
   \<and> grid_tiles 700 300 =
       [\<lparr>record_id = ''00'', row = 0, col = 0, x = 22, y = 42\<rparr>,
        \<lparr>record_id = ''01'', row = 0, col = 1, x = 325, y = 42\<rparr>,
        \<lparr>record_id = ''03'', row = 1, col = 0, x = 22, y = 168\<rparr>,
        \<lparr>record_id = ''04'', row = 1, col = 1, x = 325, y = 168\<rparr>]"
proof -
  have a: "(926::nat) \<le> 926 \<and> (1297::nat) \<le> 1297" by simp
  have b: "length (grid_tiles 926 1297) = 30
     \<and> map record_id (grid_tiles 926 1297) =
       [''00'', ''01'', ''02'', ''03'', ''04'', ''05'', ''06'', ''07'', ''08'', ''09'',
      ''10'', ''11'', ''12'', ''13'', ''14'', ''15'', ''16'', ''17'', ''18'', ''19'',
      ''20'', ''21'', ''22'', ''23'', ''24'', ''25'', ''26'', ''27'', ''28'', ''29'']
     \<and> \<not> boxes_overlap (record_box (grid_tiles 926 1297 ! 0)) (record_box (grid_tiles 926 1297 ! 1))"
  proof -
    note full = grid_segmenter_tiles [of 926 1297, THEN conjunct2, THEN conjunct2, THEN conjunct2,
        rule_format, OF a]
    from full have "\<forall>i < 30. \<forall>j < 30. i \<noteq> j \<longrightarrow>
        \<not> boxes_overlap (record_box (grid_tiles 926 1297 ! i)) (record_box (grid_tiles 926 1297 ! j))"
      by blast
    then have "\<not> boxes_overlap (record_box (grid_tiles 926 1297 ! 0)) (record_box (grid_tiles 926 1297 ! 1))"
      by simp
    with full show ?thesis by blast
  qed
  have c: "grid_tiles 700 300 =
       [\<lparr>record_id = ''00'', row = 0, col = 0, x = 22, y = 42\<rparr>,
        \<lparr>record_id = ''01'', row = 0, col = 1, x = 325, y = 42\<rparr>,
        \<lparr>record_id = ''03'', row = 1, col = 0, x = 22, y = 168\<rparr>,
        \<lparr>record_id = ''04'', row = 1, col = 1, x = 325, y = 168\<rparr>]"
    using grid_segmenter_tiles [of 700 300] by (simp add: upt_rec fmt02_def digit_char_def)
  from a b c show ?thesis by blast
qed

section \<open>Evaluating the text functions on concrete inputs\<close>

lemmas text_eval_defs =
  ustr_def is_space_def py_strip_def ascii_digit_def ascii_upper_def ascii_lower_def
  decimal_value_def is_word_def ucd_devanagari_def py_int_def
  word_before_def word_after_def advance_def re_search_def re_match_def
  cls_space_colon_def cls_not_newline_def cls_AZ_ignorecase_def cls_AZ09_ignorecase_def
  cls_hspace_def cls_newline_def cls_colon_def seqs_def
  w_nirvachak_def w_ka_def w_naam_def w_pati_def w_pita_def w_mata_def w_makan_def
  w_sankhya_def w_umr_def w_ling_def w_aayu_def w_pata_def w_gram_def
  pat_serial_def pat_name_def pat_relation_def pat_house_no_def pat_age_def pat_gender_def
  pat_epic_def pat_epic_region_def re_epic_format_def extract_field_def check_age_def

section \<open>The decoupled parser: status gate and counters\<close>

lemma page_step_cases:
  "page_step U fs d p (rs, st) f =
     (if read_status fs f \<noteq> ustr ''VALID''
      then (rs, st\<lparr>total_tiles := total_tiles st + 1, skipped_tiles := skipped_tiles st + 1\<rparr>)
      else case snd (parse_record U fs (str_replace ''.status'' '''' (basename f)) d) of
             Some record \<Rightarrow>
               (rs @ [record @ [(''page_id'', PStr (ustr p))]],
                st\<lparr>total_tiles := total_tiles st + 1, valid_records := valid_records st + 1\<rparr>)
           | None \<Rightarrow>
               (rs, st\<lparr>total_tiles := total_tiles st + 1, invalid_records := invalid_records st + 1\<rparr>))"
  by (simp add: page_step_def Let_def split: option.splits)

lemma read_status_VALID:
  "read_status fs f = ustr ''VALID'' \<longleftrightarrow> (\<exists>c. read_file fs f = Some c \<and> py_strip c = ustr ''VALID'')"
  by (cases "read_file fs f") (simp_all add: read_status_def ustr_def)

lemma read_status_cong: "read_file fs' f = read_file fs f \<Longrightarrow> read_status fs' f = read_status fs f"
  by (simp add: read_status_def)

lemma foldl_page_step_counts:
  "total_tiles (snd (foldl (page_step U fs d p) acc files)) = total_tiles (snd acc) + length files
   \<and> skipped_tiles (snd (foldl (page_step U fs d p) acc files)) =
       skipped_tiles (snd acc) + length (filter (\<lambda>f. read_status fs f \<noteq> ustr ''VALID'') files)
   \<and> valid_records (snd (foldl (page_step U fs d p) acc files))
       + invalid_records (snd (foldl (page_step U fs d p) acc files)) =
       valid_records (snd acc) + invalid_records (snd acc)
       + length (filter (\<lambda>f. read_status fs f = ustr ''VALID'') files)
   \<and> valid_records (snd acc) \<le> valid_records (snd (foldl (page_step U fs d p) acc files))
   \<and> invalid_records (snd acc) \<le> invalid_records (snd (foldl (page_step U fs d p) acc files))"
proof (induction files arbitrary: acc)
  case Nil
  show ?case by simp
next
  case (Cons f files)
  obtain rs st where acc: "acc = (rs, st)" by (cases acc)
  show ?case
    using Cons [of "page_step U fs d p acc f"]
    by (auto simp: acc page_step_cases split: option.splits)
qed




lemma ex_record_00:
  "parse_record ucd_devanagari ex_fs ''record_00'' ''ocr/p1'' =
     ([], Some [(''record_id'', PStr (ustr ''record_00'')), (''serial'', PStr (ustr ''7'')),
                (''epic'', PStr []), (''name'', PStr [2352, 2366, 2350]),
                (''relation'', PStr []), (''house_no'', PStr []), (''age'', PStr (ustr ''45'')),
                (''gender'', PStr []), (''raw_text_length'', PInt 29)])"
  by (simp add: parse_record_def file_record_def missing_fields_def str_field_def ex_fs_def
      ex_text_00_def read_or_empty_def path_join_def
      text_eval_defs Let_def)

lemma ex_record_02:
  "parse_record ucd_devanagari ex_fs ''record_02'' ''ocr/p1'' =
     ([MissingFields (ustr ''record_02'') [''name'', ''age'', ''serial'']], None)"
  by (simp add: parse_record_def file_record_def missing_fields_def str_field_def ex_fs_def
      ex_text_00_def read_or_empty_def path_join_def
      text_eval_defs Let_def)

lemma ex_status:
  "read_status ex_fs ''ocr/p1/record_00.status'' = ustr ''VALID''"
  "read_status ex_fs ''ocr/p1/record_01.status'' \<noteq> ustr ''VALID''"
  "read_status ex_fs ''ocr/p1/record_02.status'' = ustr ''VALID''"
  by (simp_all add: read_status_def ex_fs_def ustr_def py_strip_def is_space_def)

lemma ex_ids:
  "str_replace ''.status'' '''' (basename ''ocr/p1/record_00.status'') = ''record_00''"
  "str_replace ''.status'' '''' (basename ''ocr/p1/record_02.status'') = ''record_02''"
  by (simp_all add: basename_def)

lemma ex_glob:
  "glob_sorted ex_fs ''ocr/p1/record_*.status'' =
     [''ocr/p1/record_00.status'', ''ocr/p1/record_01.status'', ''ocr/p1/record_02.status'']"
  by (simp add: ex_fs_def)

lemma ex_page:
  "process_page ucd_devanagari ex_fs st ''ocr/p1'' ''p1'' =
    ([[(''record_id'', PStr (ustr ''record_00'')), (''serial'', PStr (ustr ''7'')),
       (''epic'', PStr []), (''name'', PStr [2352, 2366, 2350]),
       (''relation'', PStr []), (''house_no'', PStr []), (''age'', PStr (ustr ''45'')),
       (''gender'', PStr []), (''raw_text_length'', PInt 29), (''page_id'', PStr (ustr ''p1''))]],
     st\<lparr>total_tiles := total_tiles st + 3, valid_records := valid_records st + 1,
        invalid_records := invalid_records st + 1, skipped_tiles := skipped_tiles st + 1\<rparr>)"
  by (simp add: process_page_def path_join_def Let_def ex_glob
      page_step_cases ex_status ex_ids ex_record_00 ex_record_02)

text \<open>
  Claim C6. In the decoupled mode a record is handed to \<open>parse_record\<close> if and only if its
  status file can be read and holds the token \<open>VALID\<close> (the content is compared after
  \<open>strip()\<close>, so surrounding whitespace such as a final line break does not count). For
  any other status, or an unreadable status file, the step only counts the record in
  \<open>total_tiles\<close> and \<open>skipped_tiles\<close>: \<open>invalid_records\<close>, \<open>valid_records\<close> and the record
  list stay as they are, whatever the other files of the directory hold (the step gives
  the same result on every file system with the same status file), so the region text
  files are not parsed. For a page, \<open>skipped_tiles\<close> grows by the number of status files
  that are not \<open>VALID\<close>, and \<open>valid_records + invalid_records\<close> by the number of those
  that are.
\<close>

theorem decoupled_status_gate:
  "(read_status fs f = ustr ''VALID'' \<longleftrightarrow>
      (\<exists>c. read_file fs f = Some c \<and> py_strip c = ustr ''VALID''))
   \<and> (read_status fs f \<noteq> ustr ''VALID'' \<longrightarrow>
        (\<forall>fs' :: fsys. read_file fs' f = read_file fs f \<longrightarrow>
           page_step U fs' d p (rs, st) f =
             (rs, st\<lparr>total_tiles := total_tiles st + 1, skipped_tiles := skipped_tiles st + 1\<rparr>)))
   \<and> (read_status fs f = ustr ''VALID'' \<longrightarrow>
        page_step U fs d p (rs, st) f =
          (case snd (parse_record U fs (str_replace ''.status'' '''' (basename f)) d) of
             Some record \<Rightarrow>
               (rs @ [record @ [(''page_id'', PStr (ustr p))]],
                st\<lparr>total_tiles := total_tiles st + 1, valid_records := valid_records st + 1\<rparr>)
           | None \<Rightarrow>
               (rs, st\<lparr>total_tiles := total_tiles st + 1, invalid_records := invalid_records st + 1\<rparr>)))
   \<and> skipped_tiles (snd (process_page U fs st d p)) =
        skipped_tiles st
        + length (filter (\<lambda>f. read_status fs f \<noteq> ustr ''VALID'')
                         (glob_sorted fs (path_join d ''record_*.status'')))
   \<and> valid_records (snd (process_page U fs st d p)) + invalid_records (snd (process_page U fs st d p)) =
        valid_records st + invalid_records st
        + length (filter (\<lambda>f. read_status fs f = ustr ''VALID'')
                         (glob_sorted fs (path_join d ''record_*.status'')))"
proof (intro conjI impI allI)
  show "read_status fs f = ustr ''VALID'' \<longleftrightarrow>
      (\<exists>c. read_file fs f = Some c \<and> py_strip c = ustr ''VALID'')"
    by (rule read_status_VALID)
next
  fix fs' :: fsys assume ne: "read_status fs f \<noteq> ustr ''VALID''" and same: "read_file fs' f = read_file fs f"
  have "read_status fs' f = read_status fs f" using same by (rule read_status_cong)
  with ne have "read_status fs' f \<noteq> ustr ''VALID''" by simp
  then show "page_step U fs' d p (rs, st) f =
      (rs, st\<lparr>total_tiles := total_tiles st + 1, skipped_tiles := skipped_tiles st + 1\<rparr>)"
    by (simp add: page_step_cases)
next
  assume "read_status fs f = ustr ''VALID''"
  then show "page_step U fs d p (rs, st) f =
          (case snd (parse_record U fs (str_replace ''.status'' '''' (basename f)) d) of
             Some record \<Rightarrow>
               (rs @ [record @ [(''page_id'', PStr (ustr p))]],
                st\<lparr>total_tiles := total_tiles st + 1, valid_records := valid_records st + 1\<rparr>)
           | None \<Rightarrow>
               (rs, st\<lparr>total_tiles := total_tiles st + 1, invalid_records := invalid_records st + 1\<rparr>))"
    by (simp add: page_step_cases)
next
  show "skipped_tiles (snd (process_page U fs st d p)) =
        skipped_tiles st
        + length (filter (\<lambda>f. read_status fs f \<noteq> ustr ''VALID'')
                         (glob_sorted fs (path_join d ''record_*.status'')))"
    using foldl_page_step_counts [of U fs d p "([], st)" "glob_sorted fs (path_join d ''record_*.status'')"]
    by (simp add: process_page_def Let_def)
next
  show "valid_records (snd (process_page U fs st d p)) + invalid_records (snd (process_page U fs st d p)) =
        valid_records st + invalid_records st
        + length (filter (\<lambda>f. read_status fs f = ustr ''VALID'')
                         (glob_sorted fs (path_join d ''record_*.status'')))"
    using foldl_page_step_counts [of U fs d p "([], st)" "glob_sorted fs (path_join d ''record_*.status'')"]
    by (simp add: process_page_def Let_def)
qed

theorem decoupled_status_gate_witness:
  "read_status ex_fs ''ocr/p1/record_01.status'' \<noteq> ustr ''VALID''
   \<and> read_file ex_fs ''ocr/p1/record_01.status'' = read_file ex_fs ''ocr/p1/record_01.status''
   \<and> page_step ucd_devanagari ex_fs ''ocr/p1'' ''p1'' ([], init_stats) ''ocr/p1/record_01.status'' =
       ([], \<lparr>total_tiles = 1, valid_records = 0, invalid_records = 0, skipped_tiles = 1\<rparr>)
   \<and> read_status ex_fs ''ocr/p1/record_02.status'' = ustr ''VALID''
   \<and> page_step ucd_devanagari ex_fs ''ocr/p1'' ''p1'' ([], init_stats) ''ocr/p1/record_02.status'' =
       ([], \<lparr>total_tiles = 1, valid_records = 0, invalid_records = 1, skipped_tiles = 0\<rparr>)
   \<and> snd (process_page ucd_devanagari ex_fs init_stats ''ocr/p1'' ''p1'') =
       \<lparr>total_tiles = 3, valid_records = 1, invalid_records = 1, skipped_tiles = 1\<rparr>
   \<and> map (\<lambda>r. map_of r ''record_id'') (fst (process_page ucd_devanagari ex_fs init_stats ''ocr/p1'' ''p1''))
       = [Some (PStr (ustr ''record_00''))]"
proof -
  note gate01 = decoupled_status_gate [of ex_fs "''ocr/p1/record_01.status''" ucd_devanagari
      "''ocr/p1''" "''p1''" "[]" init_stats]
  note gate02 = decoupled_status_gate [of ex_fs "''ocr/p1/record_02.status''" ucd_devanagari
      "''ocr/p1''" "''p1''" "[]" init_stats]
  have s1: "read_status ex_fs ''ocr/p1/record_01.status'' \<noteq> ustr ''VALID''" by (rule ex_status)
  have s2: "read_status ex_fs ''ocr/p1/record_02.status'' = ustr ''VALID''" by (rule ex_status)
  have "page_step ucd_devanagari ex_fs ''ocr/p1'' ''p1'' ([], init_stats) ''ocr/p1/record_01.status'' =
       ([], init_stats\<lparr>total_tiles := total_tiles init_stats + 1,
                       skipped_tiles := skipped_tiles init_stats + 1\<rparr>)"
    using gate01 s1 by blast
  then have a: "page_step ucd_devanagari ex_fs ''ocr/p1'' ''p1'' ([], init_stats) ''ocr/p1/record_01.status'' =
       ([], \<lparr>total_tiles = 1, valid_records = 0, invalid_records = 0, skipped_tiles = 1\<rparr>)"
    by (simp add: init_stats_def)
  have "page_step ucd_devanagari ex_fs ''ocr/p1'' ''p1'' ([], init_stats) ''ocr/p1/record_02.status'' =
          (case snd (parse_record ucd_devanagari ex_fs
                       (str_replace ''.status'' '''' (basename ''ocr/p1/record_02.status'')) ''ocr/p1'') of
             Some record \<Rightarrow>
               ([] @ [record @ [(''page_id'', PStr (ustr ''p1''))]],
                init_stats\<lparr>total_tiles := total_tiles init_stats + 1,
                           valid_records := valid_records init_stats + 1\<rparr>)
           | None \<Rightarrow>
               ([], init_stats\<lparr>total_tiles := total_tiles init_stats + 1,
                               invalid_records := invalid_records init_stats + 1\<rparr>))"
    using gate02 s2 by blast
  then have b: "page_step ucd_devanagari ex_fs ''ocr/p1'' ''p1'' ([], init_stats) ''ocr/p1/record_02.status'' =
       ([], \<lparr>total_tiles = 1, valid_records = 0, invalid_records = 1, skipped_tiles = 0\<rparr>)"
    by (simp add: ex_ids ex_record_02 init_stats_def)
  have c: "snd (process_page ucd_devanagari ex_fs init_stats ''ocr/p1'' ''p1'') =
       \<lparr>total_tiles = 3, valid_records = 1, invalid_records = 1, skipped_tiles = 1\<rparr>"
    by (simp add: ex_page init_stats_def)
  have d: "map (\<lambda>r. map_of r ''record_id'') (fst (process_page ucd_devanagari ex_fs init_stats ''ocr/p1'' ''p1''))
       = [Some (PStr (ustr ''record_00''))]"
    by (simp add: ex_page)
  from s1 s2 a b c d show ?thesis by simp
qed



section \<open>The page scripts: records\<close>

lemma dropWhile_id: "xs = [] \<or> \<not> P (hd xs) \<Longrightarrow> dropWhile P xs = xs"
  by (cases xs) auto

lemma hd_dropWhile_not: "dropWhile P xs = [] \<or> \<not> P (hd (dropWhile P xs))"
  using hd_dropWhile [of P xs] by blast

lemma last_dropWhile: "dropWhile P xs \<noteq> [] \<Longrightarrow> last (dropWhile P xs) = last xs"
  by (induction xs) (auto split: if_splits)

lemma py_strip_ends:
  "py_strip s = [] \<or> (\<not> is_space (hd (py_strip s)) \<and> \<not> is_space (last (py_strip s)))"
proof (cases "py_strip s = []")
  case True
  then show ?thesis by simp
next
  case False
  define v where "v = dropWhile is_space s"
  define w where "w = dropWhile is_space (rev v)"
  have u: "py_strip s = rev w" by (simp add: py_strip_def v_def w_def)
  with False have w: "w \<noteq> []" by simp
  then have v: "v \<noteq> []" by (auto simp: w_def)
  have "\<not> is_space (hd w)" using hd_dropWhile_not [of is_space "rev v"] w unfolding w_def by blast
  moreover have "last w = last (rev v)" using w unfolding w_def by (rule last_dropWhile)
  moreover have "\<not> is_space (hd v)" using hd_dropWhile_not [of is_space s] v unfolding v_def by blast
  ultimately show ?thesis using w v by (simp add: u hd_rev last_rev)
qed

lemma py_strip_fixed:
  assumes "s = [] \<or> (\<not> is_space (hd s) \<and> \<not> is_space (last s))"
  shows "py_strip s = s"
proof (cases "s = []")
  case True
  then show ?thesis by (simp add: py_strip_def)
next
  case False
  with assms have h: "\<not> is_space (hd s)" and l: "\<not> is_space (last s)" by auto
  have "dropWhile is_space s = s" using h by (intro dropWhile_id) simp
  moreover have "dropWhile is_space (rev s) = rev s"
    using l False by (intro dropWhile_id) (simp add: hd_rev)
  ultimately show ?thesis by (simp add: py_strip_def)
qed

lemma py_strip_idem: "py_strip (py_strip s) = py_strip s"
  using py_strip_ends [of s] by (intro py_strip_fixed) 


lemma csv_record_cells:
  "map_of (csv_record path t s e txt parsed v) ''serial'' = Some (PStr s)"
  "map_of (csv_record path t s e txt parsed v) ''epic'' = Some (PStr e)"
  "map_of (csv_record path t s e txt parsed v) ''raw_text'' = Some (PStr txt)"
  "map_of (csv_record path t s e txt parsed v) ''valid'' = Some (PBool v)"
  "map_of (csv_record path t s e txt parsed v) ''age'' = Some (get_or_empty parsed ''age'')"
  "map_of (csv_record path t s e txt parsed v) ''record_id'' = Some (PStr (ustr (record_id t)))"
  by (simp_all add: csv_record_def)

lemma drop_valid_csv_record:
  "drop_valid (csv_record path t s e txt parsed v) = drop_valid (csv_record path t s e txt parsed v')"
  by (simp add: drop_valid_def csv_record_def)

lemma ocr_region_ids [simp]:
  "res_record_id (ocr_region env task) = task_record_id task"
  "res_type (ocr_region env task) = task_type task"
  by (simp_all add: ocr_region_def split: proc_outcome.splits)

lemma store_result_other:
  "rid \<noteq> res_record_id res \<Longrightarrow> store_result m res rid = m rid"
  by (simp add: store_result_def Let_def)

lemma foldl_store_other:
  "rid \<notin> res_record_id ` set rs \<Longrightarrow> foldl store_result m rs rid = m rid"
  by (induction rs arbitrary: m) (simp_all add: store_result_other)

lemma ocr_tasks_Cons:
  "ocr_tasks (r # rs) =
     [region_task r ''serial'', region_task r ''epic'', region_task r ''text''] @ ocr_tasks rs"
  by (simp add: ocr_tasks_def region_task_def)

lemma ocr_tasks_ids:
  "task_record_id ` set (ocr_tasks rs) = (\<lambda>r. record_id (rtile r)) ` set rs"
  by (induction rs) (auto simp: ocr_tasks_Cons region_task_def ocr_tasks_def)

lemma results_lookup:
  assumes "distinct (map (\<lambda>r. record_id (rtile r)) records)" "r \<in> set records"
  shows "\<exists>d. foldl store_result m (map (ocr_region env) (ocr_tasks records)) (record_id (rtile r)) = Some d
     \<and> d ''serial'' = Some (res_text (ocr_region env (region_task r ''serial'')))
     \<and> d ''epic'' = Some (res_text (ocr_region env (region_task r ''epic'')))
     \<and> d ''text'' = Some (res_text (ocr_region env (region_task r ''text'')))"
  using assms
proof (induction records arbitrary: m)
  case Nil
  then show ?case by simp
next
  case (Cons a records)
  show ?case
  proof (cases "r = a")
    case True
    have notin: "record_id (rtile a) \<notin> res_record_id ` set (map (ocr_region env) (ocr_tasks records))"
      using Cons.prems(1) ocr_tasks_ids [of records] by (auto simp: image_image)
    have "foldl store_result m (map (ocr_region env) (ocr_tasks (a # records))) (record_id (rtile a)) =
        store_result (store_result (store_result m
          (ocr_region env (region_task a ''serial'')))
          (ocr_region env (region_task a ''epic'')))
          (ocr_region env (region_task a ''text''))
          (record_id (rtile a))"
      by (simp add: ocr_tasks_Cons foldl_store_other [OF notin])
    also have "\<dots> = Some ((case m (record_id (rtile a)) of None \<Rightarrow> Map.empty | Some d \<Rightarrow> d)
        (''serial'' \<mapsto> res_text (ocr_region env (region_task a ''serial'')),
         ''epic'' \<mapsto> res_text (ocr_region env (region_task a ''epic'')),
         ''text'' \<mapsto> res_text (ocr_region env (region_task a ''text''))))"
      by (simp add: store_result_def Let_def region_task_def)
    finally show ?thesis
      by (simp add: True)
  next
    case False
    with Cons.prems have "r \<in> set records" "distinct (map (\<lambda>r. record_id (rtile r)) records)" by auto
    from Cons.IH [OF this(2) this(1)] show ?thesis by (simp add: ocr_tasks_Cons)
  qed
qed

lemma get_text_lookup:
  assumes "distinct (map (\<lambda>r. record_id (rtile r)) records)" "r \<in> set records"
    and "ty = ''serial'' \<or> ty = ''epic'' \<or> ty = ''text''"
  shows "get_text (foldl store_result m (map (ocr_region env) (ocr_tasks records))) (record_id (rtile r)) ty
           = region_text env r ty"
  using results_lookup [OF assms(1,2), of m env] assms(3) by (auto simp: get_text_def region_text_def)

lemma csv_records_python_eq:
  assumes "distinct (map (\<lambda>r. record_id (rtile r)) records)"
  shows "csv_records_python U env path records =
     map (\<lambda>r. csv_record path (rtile r) (region_text env r ''serial'') (region_text env r ''epic'')
                 (region_text env r ''text'') (parse_hindi_text U (region_text env r ''text''))
                 (1 \<le> length (region_text env r ''serial'') \<and> 6 \<le> length (region_text env r ''epic'')
                    \<and> 20 \<le> length (region_text env r ''text'')))
         records"
  unfolding csv_records_python_def Let_def
  by (rule map_cong [OF refl]) (simp add: record_python_def Let_def get_text_lookup [OF assms])

lemma grid_ids_distinct: "distinct (map record_id (grid_tiles w h))"
proof -
  have "map record_id (grid_tiles w h) =
      map (\<lambda>(r, c). fmt02 (r * 3 + c))
        (filter (\<lambda>(r, c). \<not> (22 + c * (298 + 5) + 298 > w \<or> 42 + r * (121 + 5) + 121 > h))
                 (List.product [0..<10] [0..<3]))"
    by (simp only: grid_tiles_filter) (simp add: comp_def case_prod_unfold)
  moreover have "distinct (map (\<lambda>(r, c). fmt02 (r * 3 + c)) (List.product [0..<10] [0..<3]))"
    by (simp only: fmt02_ids) simp
  ultimately show ?thesis by (simp only: distinct_map_filter)
qed

lemma extract_rtiles:
  "map rtile (extract_record_regions env img path tmp) =
     filter (\<lambda>t. save_regions env (pixels img) (boxes_dir tmp path) t \<noteq> None)
            (grid_tiles (img_width img) (img_height img))"
proof -
  have "map rtile (List.map_filter (save_regions env px bd) ts) =
          filter (\<lambda>t. save_regions env px bd t \<noteq> None) ts" for px bd ts
    by (induction ts) (auto simp: List.map_filter_def save_regions_def Let_def split: if_splits)
  then show ?thesis by (simp add: extract_record_regions_def)
qed

lemma extract_ids_distinct:
  "distinct (map (\<lambda>r. record_id (rtile r)) (extract_record_regions env img path tmp))"
proof -
  have "map (\<lambda>r. record_id (rtile r)) (extract_record_regions env img path tmp) =
      map record_id (map rtile (extract_record_regions env img path tmp))" by (simp add: comp_def)
  then show ?thesis
    by (simp only: extract_rtiles) (rule distinct_map_filter, rule grid_ids_distinct)
qed


lemma ocr_region_outcome:
  "res_text (ocr_region env task) = outcome_text (tesseract env (region_profile (task_type task)) (task_path task))"
  "res_success (ocr_region env task) = outcome_success (tesseract env (region_profile (task_type task)) (task_path task))"
  by (simp_all add: ocr_region_def outcome_text_def outcome_success_def split: proc_outcome.splits)

lemma save_regions_Some:
  "save_regions env px bd t \<noteq> None \<Longrightarrow>
   save_regions env px bd t =
     Some \<lparr>rtile = t, serial_path = region_path bd (record_id t) ''_serial'',
           epic_path = region_path bd (record_id t) ''_epic'',
           text_path = region_path bd (record_id t) ''_text'',
           full_path = region_path bd (record_id t) ''''\<rparr>"
  by (simp add: save_regions_def Let_def split: if_splits)

lemma extract_all_saved:
  assumes "\<forall>t \<in> set (grid_tiles (img_width img) (img_height img)).
             save_regions env (pixels img) (boxes_dir tmp path) t \<noteq> None"
  shows "extract_record_regions env img path tmp =
     map (\<lambda>t. \<lparr>rtile = t,
                serial_path = region_path (boxes_dir tmp path) (record_id t) ''_serial'',
                epic_path = region_path (boxes_dir tmp path) (record_id t) ''_epic'',
                text_path = region_path (boxes_dir tmp path) (record_id t) ''_text'',
                full_path = region_path (boxes_dir tmp path) (record_id t) ''''\<rparr>)
         (grid_tiles (img_width img) (img_height img))"
proof -
  have "List.map_filter (save_regions env px bd) ts =
      map (\<lambda>t. \<lparr>rtile = t, serial_path = region_path bd (record_id t) ''_serial'',
           epic_path = region_path bd (record_id t) ''_epic'',
           text_path = region_path bd (record_id t) ''_text'',
           full_path = region_path bd (record_id t) ''''\<rparr>) ts"
    if "\<forall>t \<in> set ts. save_regions env px bd t \<noteq> None" for px bd ts
    using that
  proof (induction ts)
    case Nil
    show ?case by (simp add: List.map_filter_def)
  next
    case (Cons t ts)
    then have "save_regions env px bd t \<noteq> None" by simp
    from save_regions_Some [OF this] Cons show ?case by (simp add: List.map_filter_def)
  qed
  from this [OF assms] show ?thesis by (simp add: extract_record_regions_def)
qed

lemma region_text_completed:
  "tesseract env (region_profile ty) (task_path (region_task r ty)) = Completed rc (Some s) \<Longrightarrow>
   region_text env r ty = py_strip s"
  by (simp add: region_text_def ocr_region_outcome outcome_text_def region_task_def py_strip_idem)



lemma record_fast_eq:
  "record_fast U eng px path t =
     csv_record path t
       (fst (ocr_tile_fast eng (crop_img eng px (record_box t))))
       (fst (snd (ocr_tile_fast eng (crop_img eng px (record_box t)))))
       (snd (snd (ocr_tile_fast eng (crop_img eng px (record_box t)))))
       (parse_hindi_text U (snd (snd (ocr_tile_fast eng (crop_img eng px (record_box t))))))
       (6 \<le> length (fst (snd (ocr_tile_fast eng (crop_img eng px (record_box t)))))
          \<or> 20 \<le> length (snd (snd (ocr_tile_fast eng (crop_img eng px (record_box t))))))"
  by (simp add: record_fast_def Let_def)

lemma save_regions_None_iff:
  "save_regions env px bd t = None \<longleftrightarrow>
     crop_py_fails env (crop_py env px (record_box t)) serial_box
   \<or> \<not> save_image env (region_path bd (record_id t) ''_serial'')
          (crop_py env (crop_py env px (record_box t)) serial_box)
   \<or> crop_py_fails env (crop_py env px (record_box t)) epic_box
   \<or> \<not> save_image env (region_path bd (record_id t) ''_epic'')
          (crop_py env (crop_py env px (record_box t)) epic_box)
   \<or> crop_py_fails env (crop_py env px (record_box t)) text_box
   \<or> enhance_fails env (crop_py env (crop_py env px (record_box t)) text_box)
   \<or> \<not> save_image env (region_path bd (record_id t) ''_text'')
          (enhance env (crop_py env (crop_py env px (record_box t)) text_box))
   \<or> \<not> save_image env (region_path bd (record_id t) '''') (crop_py env px (record_box t))"
  by (simp add: save_regions_def Let_def)

lemma process_page_python_eq:
  "process_page_python U env (Some img) tmp path out =
     (if list_ex (\<lambda>t. crop_py_fails env (pixels img) (record_box t))
                 (grid_tiles (img_width img) (img_height img))
      then Inl CropFailed
      else if extract_record_regions env img path tmp = [] then Inr None
      else if dirname out = [] then Inl OutputDirMissing
      else Inr (Some (write_csv (csv_records_python U env path (extract_record_regions env img path tmp)),
                      summary path (length (extract_record_regions env img path tmp))
                        (count_valid (csv_records_python U env path (extract_record_regions env img path tmp)))
                        out)))"
  by (simp add: process_page_python_def Let_def)

section \<open>The page scripts on the example pages\<close>

lemma grid_tiles_one:
  "grid_tiles 320 163 = [\<lparr>record_id = ''00'', row = 0, col = 0, x = 22, y = 42\<rparr>]"
  by (simp add: grid_tiles_filter upt_rec fmt02_def digit_char_def)


lemma stem_page_001: "path_stem ''scans/page_001.png'' = ''page_001''"
  by (simp add: path_stem_def basename_def Let_def)

lemmas hindi_eval_defs = parse_hindi_text_def hindi_patterns_def hindi_pattern_def text_eval_defs

lemma hindi_text_25: "parse_hindi_text ucd_devanagari ex_text_25 = []"
  by (simp add: ex_text_25_def hindi_eval_defs)

lemma hindi_text_age17: "parse_hindi_text ucd_devanagari ex_text_age17 = [(''age'', PStr (ustr ''17''))]"
  by (simp add: ex_text_age17_def hindi_eval_defs)

lemma hindi_text_empty: "parse_hindi_text U [] = []"
  by (simp add: hindi_eval_defs)

lemma strip_examples:
  "py_strip [] = []" "py_strip (ustr ''12'') = ustr ''12''" "py_strip ex_text_25 = ex_text_25"
  "py_strip ex_text_age17 = ex_text_age17"
  by (simp_all add: py_strip_def ustr_def is_space_def ex_text_25_def ex_text_age17_def)

lemma example_lengths: "length ex_text_25 = 25" "length ex_text_age17 = 24" "length (ustr ''12'') = 2"
  by (simp_all add: ex_text_25_def ex_text_age17_def ustr_def)

lemma ex_engine_sel:
  "crop_fails (ex_engine s e t) = (\<lambda>img b. False)"
  "to_gray (ex_engine s e t) = (\<lambda>img. img)"
  "api_serial (ex_engine s e t) img = s"
  "api_epic (ex_engine s e t) img = e"
  "api_text (ex_engine s e t) img = t"
  by (simp_all add: ex_engine_def api_serial_def api_epic_def api_text_def
      fast_serial_profile_def fast_epic_profile_def fast_text_profile_def)

lemma ex_py_env_sel:
  "crop_py_fails (ex_py_env s e t) = (\<lambda>img b. False)"
  "enhance_fails (ex_py_env s e t) = (\<lambda>img. False)"
  "save_image (ex_py_env s e t) = (\<lambda>path img. True)"
  "tesseract (ex_py_env s e t) (region_profile ''serial'') p = s"
  "tesseract (ex_py_env s e t) (region_profile ''epic'') p = e"
  "tesseract (ex_py_env s e t) (region_profile ''text'') p = t"
  by (simp_all add: ex_py_env_def region_profile_def)

lemma dirname_examples:
  "dirname ''out/page_001.csv'' = ''out''"
  "dirname ''page_001.csv'' = []"
  by (simp_all add: dirname_def)

lemma ocr_tile_ex:
  "ocr_tile_fast (ex_engine s e t) img =
     (case s of None \<Rightarrow> ([], [], [])
      | Some a \<Rightarrow> (case e of None \<Rightarrow> ([], [], [])
          | Some b \<Rightarrow> (case t of None \<Rightarrow> ([], [], [])
              | Some c \<Rightarrow> (py_strip a, py_strip b, py_strip c))))"
  by (simp add: ocr_tile_fast_def ex_engine_sel split: option.splits)

lemma fast_records_one:
  "csv_records_fast U (ex_engine s e t) ex_page_one path =
     [csv_record path \<lparr>record_id = ''00'', row = 0, col = 0, x = 22, y = 42\<rparr>
        (fst (ocr_tile_fast (ex_engine s e t) ()))
        (fst (snd (ocr_tile_fast (ex_engine s e t) ())))
        (snd (snd (ocr_tile_fast (ex_engine s e t) ())))
        (parse_hindi_text U (snd (snd (ocr_tile_fast (ex_engine s e t) ()))))
        (6 \<le> length (fst (snd (ocr_tile_fast (ex_engine s e t) ())))
           \<or> 20 \<le> length (snd (snd (ocr_tile_fast (ex_engine s e t) ()))))]"
  by (simp add: csv_records_fast_def ex_page_one_def grid_tiles_one record_fast_def Let_def)

lemma region_text_ex:
  "region_text (ex_py_env s e t) r ''serial'' = py_strip (outcome_text s)"
  "region_text (ex_py_env s e t) r ''epic'' = py_strip (outcome_text e)"
  "region_text (ex_py_env s e t) r ''text'' = py_strip (outcome_text t)"
  by (simp_all add: region_text_def ocr_region_outcome region_task_def ex_py_env_sel)

lemma extract_one:
  "map rtile (extract_record_regions (ex_py_env s e t) ex_page_one path tmp) =
     [\<lparr>record_id = ''00'', row = 0, col = 0, x = 22, y = 42\<rparr>]"
  by (simp add: extract_rtiles ex_page_one_def grid_tiles_one save_regions_def ex_py_env_sel Let_def)


lemma python_records_one:
  "csv_records_python U (ex_py_env s e t) path (extract_record_regions (ex_py_env s e t) ex_page_one path tmp) =
     [csv_record path \<lparr>record_id = ''00'', row = 0, col = 0, x = 22, y = 42\<rparr>
        (py_strip (outcome_text s)) (py_strip (outcome_text e)) (py_strip (outcome_text t))
        (parse_hindi_text U (py_strip (outcome_text t)))
        (1 \<le> length (py_strip (outcome_text s)) \<and> 6 \<le> length (py_strip (outcome_text e))
           \<and> 20 \<le> length (py_strip (outcome_text t)))]"
proof -
  obtain r where r: "extract_record_regions (ex_py_env s e t) ex_page_one path tmp = [r]"
    and t: "rtile r = \<lparr>record_id = ''00'', row = 0, col = 0, x = 22, y = 42\<rparr>"
    using extract_one [of s e t path tmp] by (auto simp: map_eq_Cons_conv)
  have "distinct (map (\<lambda>r. record_id (rtile r)) [r])" by simp
  from csv_records_python_eq [OF this, of U "ex_py_env s e t" path] show ?thesis
    by (simp add: r t region_text_ex)
qed


lemma python_page_one:
  assumes "dirname out \<noteq> []"
  shows "process_page_python U (ex_py_env s e t) (Some ex_page_one) tmp path out =
     Inr (Some (write_csv
                  [csv_record path \<lparr>record_id = ''00'', row = 0, col = 0, x = 22, y = 42\<rparr>
                     (py_strip (outcome_text s)) (py_strip (outcome_text e)) (py_strip (outcome_text t))
                     (parse_hindi_text U (py_strip (outcome_text t)))
                     (1 \<le> length (py_strip (outcome_text s)) \<and> 6 \<le> length (py_strip (outcome_text e))
                        \<and> 20 \<le> length (py_strip (outcome_text t)))],
                summary path 1
                  (if 1 \<le> length (py_strip (outcome_text s)) \<and> 6 \<le> length (py_strip (outcome_text e))
                        \<and> 20 \<le> length (py_strip (outcome_text t)) then 1 else 0) out))"
proof -
  have m: "map rtile (extract_record_regions (ex_py_env s e t) ex_page_one path tmp) =
     [\<lparr>record_id = ''00'', row = 0, col = 0, x = 22, y = 42\<rparr>]"
    by (rule extract_one)
  then have ne: "extract_record_regions (ex_py_env s e t) ex_page_one path tmp \<noteq> []" by auto
  have "length (map rtile (extract_record_regions (ex_py_env s e t) ex_page_one path tmp)) = 1"
    by (simp only: m) simp
  then have len: "length (extract_record_regions (ex_py_env s e t) ex_page_one path tmp) = 1" by simp
  show ?thesis
    by (simp add: process_page_python_def Let_def ne len python_records_one count_valid_def
        csv_record_cells ex_py_env_sel list_ex_iff assms)
qed

lemma fast_page_one:
  "process_page_fast U (Some (ex_engine s e t)) (Some ex_page_one) path out =
     Inr (write_csv (csv_records_fast U (ex_engine s e t) ex_page_one path),
          summary path 1 (count_valid (csv_records_fast U (ex_engine s e t) ex_page_one path)) out)"
  by (simp add: process_page_fast_def Let_def ex_engine_sel list_ex_iff fast_records_one)

section \<open>The validity flag of the page scripts\<close>

lemma record_fast_valid:
  "\<exists>s e txt. map_of (record_fast U eng px path t) ''serial'' = Some (PStr s)
         \<and> map_of (record_fast U eng px path t) ''epic'' = Some (PStr e)
         \<and> map_of (record_fast U eng px path t) ''raw_text'' = Some (PStr txt)
         \<and> map_of (record_fast U eng px path t) ''valid'' = Some (PBool (6 \<le> length e \<or> 20 \<le> length txt))"
  by (simp add: record_fast_def Let_def csv_record_cells)

lemma record_python_valid:
  "\<exists>s e txt. map_of (record_python U results path r) ''serial'' = Some (PStr s)
         \<and> map_of (record_python U results path r) ''epic'' = Some (PStr e)
         \<and> map_of (record_python U results path r) ''raw_text'' = Some (PStr txt)
         \<and> map_of (record_python U results path r) ''valid'' =
             Some (PBool (1 \<le> length s \<and> 6 \<le> length e \<and> 20 \<le> length txt))"
  by (simp add: record_python_def Let_def csv_record_cells)

text \<open>
  Claim C2, as amended. In the persistent-engine script (ocr\_page\_fast.py) the validity
  flag of every record is true if and only if the EPIC text has at least 6 characters or
  the free text has at least 20. In the worker-pool script (ocr\_page\_python.py) the flag
  is true if and only if the serial text has at least 1 character and the EPIC text at
  least 6 and the free text at least 20.
\<close>

theorem validity_flag_rules:
  "(\<forall>r \<in> set (csv_records_fast U eng img path).
      \<exists>s e txt. map_of r ''serial'' = Some (PStr s) \<and> map_of r ''epic'' = Some (PStr e)
        \<and> map_of r ''raw_text'' = Some (PStr txt)
        \<and> map_of r ''valid'' = Some (PBool (6 \<le> length e \<or> 20 \<le> length txt)))
   \<and> (\<forall>r \<in> set (csv_records_python U env path records).
      \<exists>s e txt. map_of r ''serial'' = Some (PStr s) \<and> map_of r ''epic'' = Some (PStr e)
        \<and> map_of r ''raw_text'' = Some (PStr txt)
        \<and> map_of r ''valid'' = Some (PBool (1 \<le> length s \<and> 6 \<le> length e \<and> 20 \<le> length txt)))"
proof (intro conjI ballI)
  fix r assume "r \<in> set (csv_records_fast U eng img path)"
  then obtain t where "r = record_fast U eng (to_gray eng (pixels img)) path t"
    by (auto simp: csv_records_fast_def)
  then show "\<exists>s e txt. map_of r ''serial'' = Some (PStr s) \<and> map_of r ''epic'' = Some (PStr e)
        \<and> map_of r ''raw_text'' = Some (PStr txt)
        \<and> map_of r ''valid'' = Some (PBool (6 \<le> length e \<or> 20 \<le> length txt))"
    using record_fast_valid [of U eng "to_gray eng (pixels img)" path t] by simp
next
  fix r assume "r \<in> set (csv_records_python U env path records)"
  then obtain res rr where "r = record_python U res path rr"
    by (auto simp: csv_records_python_def Let_def)
  then show "\<exists>s e txt. map_of r ''serial'' = Some (PStr s) \<and> map_of r ''epic'' = Some (PStr e)
        \<and> map_of r ''raw_text'' = Some (PStr txt)
        \<and> map_of r ''valid'' = Some (PBool (1 \<le> length s \<and> 6 \<le> length e \<and> 20 \<le> length txt))"
    using record_python_valid [of U res path rr] by simp
qed

theorem validity_flag_rules_witness:
  "csv_records_fast ucd_devanagari (ex_engine (Some []) (Some []) (Some ex_text_25)) ex_page_one
       ''scans/page_001.png'' =
     [csv_record ''scans/page_001.png'' \<lparr>record_id = ''00'', row = 0, col = 0, x = 22, y = 42\<rparr>
        [] [] ex_text_25 [] True]
   \<and> (\<exists>s e txt.
        map_of (csv_record ''scans/page_001.png'' \<lparr>record_id = ''00'', row = 0, col = 0, x = 22, y = 42\<rparr>
                  [] [] ex_text_25 [] True) ''serial'' = Some (PStr s)
      \<and> map_of (csv_record ''scans/page_001.png'' \<lparr>record_id = ''00'', row = 0, col = 0, x = 22, y = 42\<rparr>
                  [] [] ex_text_25 [] True) ''epic'' = Some (PStr e)
      \<and> map_of (csv_record ''scans/page_001.png'' \<lparr>record_id = ''00'', row = 0, col = 0, x = 22, y = 42\<rparr>
                  [] [] ex_text_25 [] True) ''raw_text'' = Some (PStr txt)
      \<and> map_of (csv_record ''scans/page_001.png'' \<lparr>record_id = ''00'', row = 0, col = 0, x = 22, y = 42\<rparr>
                  [] [] ex_text_25 [] True) ''valid'' = Some (PBool (6 \<le> length e \<or> 20 \<le> length txt)))"
proof -
  have a: "csv_records_fast ucd_devanagari (ex_engine (Some []) (Some []) (Some ex_text_25)) ex_page_one
       ''scans/page_001.png'' =
     [csv_record ''scans/page_001.png'' \<lparr>record_id = ''00'', row = 0, col = 0, x = 22, y = 42\<rparr>
        [] [] ex_text_25 [] True]"
    by (simp add: fast_records_one ocr_tile_ex strip_examples hindi_text_25 example_lengths)
  then have mem: "csv_record ''scans/page_001.png'' \<lparr>record_id = ''00'', row = 0, col = 0, x = 22, y = 42\<rparr>
        [] [] ex_text_25 [] True
      \<in> set (csv_records_fast ucd_devanagari (ex_engine (Some []) (Some []) (Some ex_text_25))
                ex_page_one ''scans/page_001.png'')"
    by simp
  note b = validity_flag_rules [of ucd_devanagari "ex_engine (Some []) (Some []) (Some ex_text_25)"
      ex_page_one "''scans/page_001.png''", THEN conjunct1, rule_format, OF mem]
  from a b show ?thesis by (rule conjI)
qed

theorem lenient_validity_counterexample:
  "process_page_python ucd_devanagari
     (ex_py_env (Completed 0 (Some [])) (Completed 0 (Some [])) (Completed 0 (Some ex_text_25)))
     (Some ex_page_one) ''/tmp/t'' ''scans/page_001.png'' ''out/page_001.csv'' =
     Inr (Some (write_csv
                  [csv_record ''scans/page_001.png'' \<lparr>record_id = ''00'', row = 0, col = 0, x = 22, y = 42\<rparr>
                     [] [] ex_text_25 [] False],
                summary ''scans/page_001.png'' 1 0 ''out/page_001.csv''))
   \<and> length ex_text_25 = 25"
  by (simp add: python_page_one dirname_examples outcome_text_def strip_examples hindi_text_25
      example_lengths)

section \<open>The header row of the output file\<close>









section \<open>The two page scripts side by side\<close>

lemma position_cells_csv_record:
  "position_cells (csv_record path t s e tx p v) =
     [(''page'', PStr (ustr (path_stem path))), (''record_id'', PStr (ustr (record_id t))),
      (''row'', PInt (int (row t))), (''col'', PInt (int (col t)))]"
  by (simp add: position_cells_def csv_record_def)

lemma positions_fast:
  "map position_cells (csv_records_fast U eng img path) =
     map (\<lambda>t. [(''page'', PStr (ustr (path_stem path))), (''record_id'', PStr (ustr (record_id t))),
               (''row'', PInt (int (row t))), (''col'', PInt (int (col t)))])
         (grid_tiles (img_width img) (img_height img))"
  by (simp add: csv_records_fast_def record_fast_eq position_cells_csv_record)

lemma positions_python:
  "map position_cells (csv_records_python U env path (extract_record_regions env img path tmp)) =
     map (\<lambda>t. [(''page'', PStr (ustr (path_stem path))), (''record_id'', PStr (ustr (record_id t))),
               (''row'', PInt (int (row t))), (''col'', PInt (int (col t)))])
         (filter (\<lambda>t. save_regions env (pixels img) (boxes_dir tmp path) t \<noteq> None)
                 (grid_tiles (img_width img) (img_height img)))"
proof -
  have "map position_cells (csv_records_python U env path (extract_record_regions env img path tmp)) =
      map (\<lambda>t. [(''page'', PStr (ustr (path_stem path))), (''record_id'', PStr (ustr (record_id t))),
                (''row'', PInt (int (row t))), (''col'', PInt (int (col t)))])
          (map rtile (extract_record_regions env img path tmp))"
    by (simp add: csv_records_python_eq [OF extract_ids_distinct] position_cells_csv_record comp_def)
  then show ?thesis by (simp only: extract_rtiles)
qed

lemma filter_all: "\<forall>t \<in> set ts. P t \<Longrightarrow> filter P ts = ts"
  by (induction ts) auto

lemma unit_records_fast:
  fixes eng :: "unit engine"
  shows "csv_records_fast U eng ex_page_one path =
     [csv_record path \<lparr>record_id = ''00'', row = 0, col = 0, x = 22, y = 42\<rparr>
        (fst (ocr_tile_fast eng ())) (fst (snd (ocr_tile_fast eng ()))) (snd (snd (ocr_tile_fast eng ())))
        (parse_hindi_text U (snd (snd (ocr_tile_fast eng ()))))
        (6 \<le> length (fst (snd (ocr_tile_fast eng ()))) \<or> 20 \<le> length (snd (snd (ocr_tile_fast eng ()))))]"
  by (simp add: csv_records_fast_def ex_page_one_def grid_tiles_one record_fast_def Let_def)

lemma unit_records_python:
  fixes env :: "unit py_env"
  assumes "crop_py_fails env = (\<lambda>img b. False)" "enhance_fails env = (\<lambda>img. False)"
    and "save_image env = (\<lambda>p img. True)"
  shows "csv_records_python U env path (extract_record_regions env ex_page_one path tmp) =
     [csv_record path \<lparr>record_id = ''00'', row = 0, col = 0, x = 22, y = 42\<rparr>
        (py_strip (outcome_text (tesseract env (region_profile ''serial'')
                                   (region_path (boxes_dir tmp path) ''00'' ''_serial''))))
        (py_strip (outcome_text (tesseract env (region_profile ''epic'')
                                   (region_path (boxes_dir tmp path) ''00'' ''_epic''))))
        (py_strip (outcome_text (tesseract env (region_profile ''text'')
                                   (region_path (boxes_dir tmp path) ''00'' ''_text''))))
        (parse_hindi_text U
           (py_strip (outcome_text (tesseract env (region_profile ''text'')
                                      (region_path (boxes_dir tmp path) ''00'' ''_text'')))))
        (1 \<le> length (py_strip (outcome_text (tesseract env (region_profile ''serial'')
                                   (region_path (boxes_dir tmp path) ''00'' ''_serial''))))
         \<and> 6 \<le> length (py_strip (outcome_text (tesseract env (region_profile ''epic'')
                                   (region_path (boxes_dir tmp path) ''00'' ''_epic''))))
         \<and> 20 \<le> length (py_strip (outcome_text (tesseract env (region_profile ''text'')
                                   (region_path (boxes_dir tmp path) ''00'' ''_text'')))))]"
proof -
  have ex: "extract_record_regions env ex_page_one path tmp =
     [\<lparr>rtile = \<lparr>record_id = ''00'', row = 0, col = 0, x = 22, y = 42\<rparr>,
       serial_path = region_path (boxes_dir tmp path) ''00'' ''_serial'',
       epic_path = region_path (boxes_dir tmp path) ''00'' ''_epic'',
       text_path = region_path (boxes_dir tmp path) ''00'' ''_text'',
       full_path = region_path (boxes_dir tmp path) ''00'' []\<rparr>]"
    by (simp add: extract_record_regions_def ex_page_one_def grid_tiles_one List.map_filter_def
        save_regions_def assms Let_def)
  have "distinct (map (\<lambda>r. record_id (rtile r)) (extract_record_regions env ex_page_one path tmp))"
    by (rule extract_ids_distinct)
  from csv_records_python_eq [OF this, of U env path] show ?thesis
    by (simp add: ex region_text_def ocr_region_outcome region_task_def)
qed

lemma capability_selectors:
  "crop_py_fails ex_capability_env = (\<lambda>img b. False)"
  "enhance_fails ex_capability_env = (\<lambda>img. False)"
  "save_image ex_capability_env = (\<lambda>p img. True)"
  "tesseract ex_capability_env pf p = Completed 0 (Some (ex_capability pf))"
  "crop_fails ex_capability_engine = (\<lambda>img b. False)"
  "api_serial ex_capability_engine img = Some (ustr ''12'')"
  "api_epic ex_capability_engine img = Some (ustr ''ABC1234567'')"
  "api_text ex_capability_engine img = Some ex_text_25"
  "ex_capability (region_profile ''serial'') = []"
  "ex_capability (region_profile ''epic'') = []"
  "ex_capability (region_profile ''text'') = ex_text_25"
  by (simp_all add: ex_capability_env_def ex_capability_engine_def ex_capability_def
      api_serial_def api_epic_def api_text_def region_profile_def
      fast_serial_profile_def fast_epic_profile_def fast_text_profile_def)

lemma strip_epic: "py_strip (ustr ''ABC1234567'') = ustr ''ABC1234567''"
  by (simp add: py_strip_def ustr_def is_space_def)

text \<open>
  Claim C4, as amended. That the recognition capability returns the same text for the
  same sub-image and profile does not make the two scripts receive the same texts: no
  call of one script has the profile of the call of the other for the same region
  (segmentation mode 7 against 8 for the serial and the EPIC region, the engine mode left
  open against 1 for all three), and the sub-images differ as well (the
  persistent-engine script crops the page converted to grayscale, the worker-pool script
  hands over the text crop enhanced). What the scripts share: they work through the same
  tiles in the same order, the worker-pool script leaving out the tiles whose regions it
  cannot save, so that with every tile saved the records of the two scripts agree in
  number, order, page, record id, row and col. Each script builds a record from its own
  three texts by the same function up to the validity flag, whose rules differ (EPIC or
  text in ocr\_page\_fast.py; serial and EPIC and text in ocr\_page\_python.py): the
  worker-pool rule implies the persistent-engine rule, not conversely.
\<close>

theorem pipelines_agree_on_tiles:
  "fast_serial_profile \<noteq> region_profile ''serial''
   \<and> fast_epic_profile \<noteq> region_profile ''epic''
   \<and> fast_text_profile \<noteq> region_profile ''text''
   \<and> csv_records_fast U eng img path =
       map (record_fast U eng (to_gray eng (pixels img)) path) (grid_tiles (img_width img) (img_height img))
   \<and> (save_regions env px bd ti \<noteq> None \<longrightarrow>
        save_image env (region_path bd (record_id ti) ''_text'')
          (enhance env (crop_py env (crop_py env px (record_box ti)) text_box)))
   \<and> map position_cells (csv_records_fast U eng img path) =
       map (\<lambda>t. [(''page'', PStr (ustr (path_stem path))), (''record_id'', PStr (ustr (record_id t))),
                 (''row'', PInt (int (row t))), (''col'', PInt (int (col t)))])
           (grid_tiles (img_width img) (img_height img))
   \<and> map position_cells (csv_records_python U env path (extract_record_regions env img path tmp)) =
       map (\<lambda>t. [(''page'', PStr (ustr (path_stem path))), (''record_id'', PStr (ustr (record_id t))),
                 (''row'', PInt (int (row t))), (''col'', PInt (int (col t)))])
           (filter (\<lambda>t. save_regions env (pixels img) (boxes_dir tmp path) t \<noteq> None)
                   (grid_tiles (img_width img) (img_height img)))
   \<and> ((\<forall>t \<in> set (grid_tiles (img_width img) (img_height img)).
          save_regions env (pixels img) (boxes_dir tmp path) t \<noteq> None) \<longrightarrow>
        map position_cells (csv_records_fast U eng img path) =
        map position_cells (csv_records_python U env path (extract_record_regions env img path tmp)))
   \<and> (\<exists>s e tx. record_fast U eng px path ti =
          csv_record path ti s e tx (parse_hindi_text U tx) (6 \<le> length e \<or> 20 \<le> length tx))
   \<and> (\<exists>s e tx. record_python U results path r =
          csv_record path (rtile r) s e tx (parse_hindi_text U tx)
            (1 \<le> length s \<and> 6 \<le> length e \<and> 20 \<le> length tx))
   \<and> drop_valid (csv_record path ti s e tx (parse_hindi_text U tx) (6 \<le> length e \<or> 20 \<le> length tx)) =
     drop_valid (csv_record path ti s e tx (parse_hindi_text U tx)
                   (1 \<le> length s \<and> 6 \<le> length e \<and> 20 \<le> length tx))
   \<and> (map_of (csv_record path ti s e tx (parse_hindi_text U tx)
                 (1 \<le> length s \<and> 6 \<le> length e \<and> 20 \<le> length tx)) ''valid'' = Some (PBool True)
        \<longrightarrow> map_of (csv_record path ti s e tx (parse_hindi_text U tx)
                 (6 \<le> length e \<or> 20 \<le> length tx)) ''valid'' = Some (PBool True))"
proof (intro conjI impI)
  show "fast_serial_profile \<noteq> region_profile ''serial''" "fast_epic_profile \<noteq> region_profile ''epic''"
    "fast_text_profile \<noteq> region_profile ''text''"
    by (simp_all add: fast_serial_profile_def fast_epic_profile_def fast_text_profile_def
        region_profile_def)
next
  show "csv_records_fast U eng img path =
       map (record_fast U eng (to_gray eng (pixels img)) path) (grid_tiles (img_width img) (img_height img))"
    by (simp add: csv_records_fast_def)
next
  assume "save_regions env px bd ti \<noteq> None"
  then show "save_image env (region_path bd (record_id ti) ''_text'')
          (enhance env (crop_py env (crop_py env px (record_box ti)) text_box))"
    by (simp add: save_regions_None_iff)
next
  show "map position_cells (csv_records_fast U eng img path) =
       map (\<lambda>t. [(''page'', PStr (ustr (path_stem path))), (''record_id'', PStr (ustr (record_id t))),
                 (''row'', PInt (int (row t))), (''col'', PInt (int (col t)))])
           (grid_tiles (img_width img) (img_height img))"
    by (rule positions_fast)
next
  show "map position_cells (csv_records_python U env path (extract_record_regions env img path tmp)) =
       map (\<lambda>t. [(''page'', PStr (ustr (path_stem path))), (''record_id'', PStr (ustr (record_id t))),
                 (''row'', PInt (int (row t))), (''col'', PInt (int (col t)))])
           (filter (\<lambda>t. save_regions env (pixels img) (boxes_dir tmp path) t \<noteq> None)
                   (grid_tiles (img_width img) (img_height img)))"
    by (rule positions_python)
next
  assume "\<forall>t \<in> set (grid_tiles (img_width img) (img_height img)).
          save_regions env (pixels img) (boxes_dir tmp path) t \<noteq> None"
  then have "filter (\<lambda>t. save_regions env (pixels img) (boxes_dir tmp path) t \<noteq> None)
                   (grid_tiles (img_width img) (img_height img)) = grid_tiles (img_width img) (img_height img)"
    by (rule filter_all)
  then show "map position_cells (csv_records_fast U eng img path) =
        map position_cells (csv_records_python U env path (extract_record_regions env img path tmp))"
    by (simp only: positions_fast positions_python)
next
  show "\<exists>s e tx. record_fast U eng px path ti =
          csv_record path ti s e tx (parse_hindi_text U tx) (6 \<le> length e \<or> 20 \<le> length tx)"
    by (simp only: record_fast_eq) blast
next
  show "\<exists>s e tx. record_python U results path r =
          csv_record path (rtile r) s e tx (parse_hindi_text U tx)
            (1 \<le> length s \<and> 6 \<le> length e \<and> 20 \<le> length tx)"
    unfolding record_python_def Let_def by blast
next
  show "drop_valid (csv_record path ti s e tx (parse_hindi_text U tx) (6 \<le> length e \<or> 20 \<le> length tx)) =
     drop_valid (csv_record path ti s e tx (parse_hindi_text U tx)
                   (1 \<le> length s \<and> 6 \<le> length e \<and> 20 \<le> length tx))"
    by (rule drop_valid_csv_record)
next
  assume "map_of (csv_record path ti s e tx (parse_hindi_text U tx)
                 (1 \<le> length s \<and> 6 \<le> length e \<and> 20 \<le> length tx)) ''valid'' = Some (PBool True)"
  then show "map_of (csv_record path ti s e tx (parse_hindi_text U tx)
                 (6 \<le> length e \<or> 20 \<le> length tx)) ''valid'' = Some (PBool True)"
    by (simp add: csv_record_cells)
qed

theorem pipelines_agree_on_tiles_witness:
  "map position_cells (csv_records_fast ucd_devanagari ex_capability_engine ex_page_one ''scans/page_001.png'') =
     [[(''page'', PStr (ustr ''page_001'')), (''record_id'', PStr (ustr ''00'')),
       (''row'', PInt 0), (''col'', PInt 0)]]
   \<and> map position_cells (csv_records_python ucd_devanagari ex_capability_env ''scans/page_001.png''
          (extract_record_regions ex_capability_env ex_page_one ''scans/page_001.png'' ''/tmp/t'')) =
     [[(''page'', PStr (ustr ''page_001'')), (''record_id'', PStr (ustr ''00'')),
       (''row'', PInt 0), (''col'', PInt 0)]]
   \<and> save_image ex_capability_env
        (region_path (boxes_dir ''/tmp/t'' ''scans/page_001.png'') ''00'' ''_text'')
        (enhance ex_capability_env
           (crop_py ex_capability_env (crop_py ex_capability_env () (22, 42, 320, 163)) text_box))"
proof -
  have tiles: "grid_tiles (img_width ex_page_one) (img_height ex_page_one) =
      [\<lparr>record_id = ''00'', row = 0, col = 0, x = 22, y = 42\<rparr>]"
    by (simp add: ex_page_one_def grid_tiles_one)
  have s0: "save_regions ex_capability_env ()  (boxes_dir ''/tmp/t'' ''scans/page_001.png'')
        \<lparr>record_id = ''00'', row = 0, col = 0, x = 22, y = 42\<rparr> \<noteq> None"
    by (simp add: save_regions_def capability_selectors Let_def)
  then have saved: "\<forall>t \<in> set (grid_tiles (img_width ex_page_one) (img_height ex_page_one)).
      save_regions ex_capability_env (pixels ex_page_one) (boxes_dir ''/tmp/t'' ''scans/page_001.png'') t
        \<noteq> None"
    by (simp add: tiles)
  note inst = pipelines_agree_on_tiles [of ucd_devanagari ex_capability_engine ex_page_one
      "''scans/page_001.png''" ex_capability_env "()" "boxes_dir ''/tmp/t'' ''scans/page_001.png''"
      "\<lparr>record_id = ''00'', row = 0, col = 0, x = 22, y = 42\<rparr>" "''/tmp/t''"]
  note pf = inst [THEN conjunct2, THEN conjunct2, THEN conjunct2, THEN conjunct2, THEN conjunct2,
      THEN conjunct1]
  note eq = inst [THEN conjunct2, THEN conjunct2, THEN conjunct2, THEN conjunct2, THEN conjunct2,
      THEN conjunct2, THEN conjunct2, THEN conjunct1, THEN mp, OF saved]
  note sv = inst [THEN conjunct2, THEN conjunct2, THEN conjunct2, THEN conjunct2, THEN conjunct1,
      rule_format, OF s0]
  have a: "map position_cells (csv_records_fast ucd_devanagari ex_capability_engine ex_page_one
        ''scans/page_001.png'') =
     [[(''page'', PStr (ustr ''page_001'')), (''record_id'', PStr (ustr ''00'')),
       (''row'', PInt 0), (''col'', PInt 0)]]"
    by (simp only: pf tiles) (simp add: stem_page_001)
  have b: "map position_cells (csv_records_python ucd_devanagari ex_capability_env ''scans/page_001.png''
          (extract_record_regions ex_capability_env ex_page_one ''scans/page_001.png'' ''/tmp/t'')) =
     [[(''page'', PStr (ustr ''page_001'')), (''record_id'', PStr (ustr ''00'')),
       (''row'', PInt 0), (''col'', PInt 0)]]"
    using a by (simp only: eq)
  have c: "save_image ex_capability_env
        (region_path (boxes_dir ''/tmp/t'' ''scans/page_001.png'') ''00'' ''_text'')
        (enhance ex_capability_env
           (crop_py ex_capability_env (crop_py ex_capability_env () (22, 42, 320, 163)) text_box))"
    using sv by (simp add: record_box_def RECORD_WIDTH_def RECORD_HEIGHT_def)
  from a b c show ?thesis by blast
qed

theorem pipelines_identical_counterexample:
  "csv_records_fast ucd_devanagari ex_capability_engine ex_page_one ''scans/page_001.png'' =
     [csv_record ''scans/page_001.png'' \<lparr>record_id = ''00'', row = 0, col = 0, x = 22, y = 42\<rparr>
        (ustr ''12'') (ustr ''ABC1234567'') ex_text_25 [] True]
   \<and> csv_records_python ucd_devanagari ex_capability_env ''scans/page_001.png''
        (extract_record_regions ex_capability_env ex_page_one ''scans/page_001.png'' ''/tmp/t'') =
     [csv_record ''scans/page_001.png'' \<lparr>record_id = ''00'', row = 0, col = 0, x = 22, y = 42\<rparr>
        [] [] ex_text_25 [] False]
   \<and> process_page_fast ucd_devanagari
       (Some (ex_engine (Some (ustr ''12'')) (Some []) (Some ex_text_25)))
       (Some ex_page_one) ''scans/page_001.png'' ''out/page_001.csv'' =
     Inr (write_csv
            [csv_record ''scans/page_001.png'' \<lparr>record_id = ''00'', row = 0, col = 0, x = 22, y = 42\<rparr>
               (ustr ''12'') [] ex_text_25 [] True],
          summary ''scans/page_001.png'' 1 1 ''out/page_001.csv'')
   \<and> process_page_python ucd_devanagari
       (ex_py_env (Completed 0 (Some (ustr ''12''))) (Completed 0 (Some [])) (Completed 0 (Some ex_text_25)))
       (Some ex_page_one) ''/tmp/t'' ''scans/page_001.png'' ''out/page_001.csv'' =
     Inr (Some (write_csv
                  [csv_record ''scans/page_001.png'' \<lparr>record_id = ''00'', row = 0, col = 0, x = 22, y = 42\<rparr>
                     (ustr ''12'') [] ex_text_25 [] False],
                summary ''scans/page_001.png'' 1 0 ''out/page_001.csv''))
   \<and> csv_records_fast ucd_devanagari (ex_engine (Some (ustr ''12'')) None (Some ex_text_25))
        ex_page_one ''scans/page_001.png'' =
     [csv_record ''scans/page_001.png'' \<lparr>record_id = ''00'', row = 0, col = 0, x = 22, y = 42\<rparr>
        [] [] [] [] False]
   \<and> csv_records_python ucd_devanagari
        (ex_py_env (Completed 0 (Some (ustr ''12''))) CallRaised (Completed 0 (Some ex_text_25)))
        ''scans/page_001.png''
        (extract_record_regions
           (ex_py_env (Completed 0 (Some (ustr ''12''))) CallRaised (Completed 0 (Some ex_text_25)))
           ex_page_one ''scans/page_001.png'' ''/tmp/t'') =
     [csv_record ''scans/page_001.png'' \<lparr>record_id = ''00'', row = 0, col = 0, x = 22, y = 42\<rparr>
        (ustr ''12'') [] ex_text_25 [] False]
   \<and> extract_record_regions (ex_capability_env\<lparr>save_image := \<lambda>p img. False\<rparr>) ex_page_one
        ''scans/page_001.png'' ''/tmp/t'' = []
   \<and> process_page_python ucd_devanagari (ex_capability_env\<lparr>save_image := \<lambda>p img. False\<rparr>)
        (Some ex_page_one) ''/tmp/t'' ''scans/page_001.png'' ''out/page_001.csv'' = Inr None"
proof (intro conjI)
  show "csv_records_fast ucd_devanagari ex_capability_engine ex_page_one ''scans/page_001.png'' =
     [csv_record ''scans/page_001.png'' \<lparr>record_id = ''00'', row = 0, col = 0, x = 22, y = 42\<rparr>
        (ustr ''12'') (ustr ''ABC1234567'') ex_text_25 [] True]"
    by (simp add: unit_records_fast ocr_tile_fast_def capability_selectors strip_examples strip_epic
        hindi_text_25 example_lengths)
next
  show "csv_records_python ucd_devanagari ex_capability_env ''scans/page_001.png''
        (extract_record_regions ex_capability_env ex_page_one ''scans/page_001.png'' ''/tmp/t'') =
     [csv_record ''scans/page_001.png'' \<lparr>record_id = ''00'', row = 0, col = 0, x = 22, y = 42\<rparr>
        [] [] ex_text_25 [] False]"
    by (simp add: unit_records_python capability_selectors outcome_text_def strip_examples
        hindi_text_25 example_lengths)
next
  show "process_page_fast ucd_devanagari
       (Some (ex_engine (Some (ustr ''12'')) (Some []) (Some ex_text_25)))
       (Some ex_page_one) ''scans/page_001.png'' ''out/page_001.csv'' =
     Inr (write_csv
            [csv_record ''scans/page_001.png'' \<lparr>record_id = ''00'', row = 0, col = 0, x = 22, y = 42\<rparr>
               (ustr ''12'') [] ex_text_25 [] True],
          summary ''scans/page_001.png'' 1 1 ''out/page_001.csv'')"
    by (simp add: fast_page_one fast_records_one ocr_tile_ex strip_examples hindi_text_25
        example_lengths count_valid_def csv_record_cells)
next
  show "process_page_python ucd_devanagari
       (ex_py_env (Completed 0 (Some (ustr ''12''))) (Completed 0 (Some [])) (Completed 0 (Some ex_text_25)))
       (Some ex_page_one) ''/tmp/t'' ''scans/page_001.png'' ''out/page_001.csv'' =
     Inr (Some (write_csv
                  [csv_record ''scans/page_001.png'' \<lparr>record_id = ''00'', row = 0, col = 0, x = 22, y = 42\<rparr>
                     (ustr ''12'') [] ex_text_25 [] False],
                summary ''scans/page_001.png'' 1 0 ''out/page_001.csv''))"
    by (simp add: python_page_one dirname_examples outcome_text_def strip_examples hindi_text_25
        example_lengths)
next
  show "csv_records_fast ucd_devanagari (ex_engine (Some (ustr ''12'')) None (Some ex_text_25))
        ex_page_one ''scans/page_001.png'' =
     [csv_record ''scans/page_001.png'' \<lparr>record_id = ''00'', row = 0, col = 0, x = 22, y = 42\<rparr>
        [] [] [] [] False]"
    by (simp add: fast_records_one ocr_tile_ex hindi_text_empty)
next
  show "csv_records_python ucd_devanagari
        (ex_py_env (Completed 0 (Some (ustr ''12''))) CallRaised (Completed 0 (Some ex_text_25)))
        ''scans/page_001.png''
        (extract_record_regions
           (ex_py_env (Completed 0 (Some (ustr ''12''))) CallRaised (Completed 0 (Some ex_text_25)))
           ex_page_one ''scans/page_001.png'' ''/tmp/t'') =
     [csv_record ''scans/page_001.png'' \<lparr>record_id = ''00'', row = 0, col = 0, x = 22, y = 42\<rparr>
        (ustr ''12'') [] ex_text_25 [] False]"
    by (simp add: python_records_one outcome_text_def strip_examples hindi_text_25 example_lengths)
next
  show ex: "extract_record_regions (ex_capability_env\<lparr>save_image := \<lambda>p img. False\<rparr>) ex_page_one
        ''scans/page_001.png'' ''/tmp/t'' = []"
    by (simp add: extract_record_regions_def ex_page_one_def grid_tiles_one List.map_filter_def
        save_regions_def capability_selectors Let_def)
  show "process_page_python ucd_devanagari (ex_capability_env\<lparr>save_image := \<lambda>p img. False\<rparr>)
        (Some ex_page_one) ''/tmp/t'' ''scans/page_001.png'' ''out/page_001.csv'' = Inr None"
    by (simp add: process_page_python_eq ex capability_selectors list_ex_iff)
qed
section \<open>Recognition calls that fail\<close>



section \<open>\<open>parse_tile\<close> and \<open>parse_record\<close>: which records are accepted\<close>

lemma check_age_None:
  "check_age U ident a = None \<longleftrightarrow> a = [] \<or> (\<exists>n. py_int U a = Some n \<and> 18 \<le> n \<and> n \<le> 120)"
  by (auto simp: check_age_def split: option.splits)

lemma check_age_examples:
  "check_age U ident [52, 53] = None"
  "check_age U ident [49, 55] = Some (InvalidAge ident 17)"
  "check_age U ident [49, 50, 49] = Some (InvalidAge ident 121)"
  "check_age U ident [97, 98, 99] = Some (NonNumericAge ident [97, 98, 99])"
  by (simp_all add: check_age_def py_int_def py_strip_def is_space_def decimal_value_def
      ascii_digit_def)

lemma tile_record_fields:
  "str_field (tile_record U text tid) ''age'' = extract_field pat_age text"
  "str_field (tile_record U text tid) ''epic'' = extract_field (pat_epic U) text"
  "map_of (tile_record U text tid) ''age'' = Some (PStr (extract_field pat_age text))"
  "map_of (tile_record U text tid) ''epic'' = Some (PStr (extract_field (pat_epic U) text))"
  by (simp_all add: str_field_def tile_record_def)

lemma tile_missing_lenient:
  "missing_fields REQUIRED_FIELDS (tile_record U text tid) = [] \<longleftrightarrow>
     extract_field pat_name text \<noteq> [] \<and> extract_field pat_age text \<noteq> []
     \<and> extract_field (pat_epic U) text \<noteq> []"
  by (simp add: missing_fields_def REQUIRED_FIELDS_def tile_record_def)

lemma tile_missing_strict:
  "missing_fields (map fst (PATTERNS U)) (tile_record U text tid) = [] \<longleftrightarrow>
     extract_field (pat_serial U) text \<noteq> [] \<and> extract_field pat_name text \<noteq> []
     \<and> extract_field pat_relation text \<noteq> [] \<and> extract_field pat_house_no text \<noteq> []
     \<and> extract_field pat_age text \<noteq> [] \<and> extract_field pat_gender text \<noteq> []
     \<and> extract_field (pat_epic U) text \<noteq> []"
  by (simp add: missing_fields_def PATTERNS_def tile_record_def)

lemma file_record_fields:
  "str_field (file_record U rid s e h) ''age'' = extract_field pat_age h"
  "map_of (file_record U rid s e h) ''age'' = Some (PStr (extract_field pat_age h))"
  by (simp_all add: str_field_def file_record_def)

lemma file_missing:
  "missing_fields [''name'', ''age'', ''serial''] (file_record U rid s e h) = [] \<longleftrightarrow>
     extract_field pat_name h \<noteq> [] \<and> extract_field pat_age h \<noteq> []
     \<and> extract_field (pat_serial U) s \<noteq> []"
  by (simp add: missing_fields_def file_record_def)

lemma parse_tile_cases:
  "parse_tile U strict t tid =
     (if length (clean_text t) < 20 then ([], None)
      else if missing_fields (if strict then map fst (PATTERNS U) else REQUIRED_FIELDS)
                (tile_record U (clean_text t) tid) \<noteq> []
      then ([MissingFields tid
               (missing_fields (if strict then map fst (PATTERNS U) else REQUIRED_FIELDS)
                  (tile_record U (clean_text t) tid))], None)
      else case check_age U tid (extract_field pat_age (clean_text t)) of
             Some d \<Rightarrow> ([d], None)
           | None \<Rightarrow>
               if extract_field (pat_epic U) (clean_text t) \<noteq> []
                  \<and> \<not> re_match re_epic_format (extract_field (pat_epic U) (clean_text t))
               then (if strict
                     then ([InvalidEpicFormat tid (extract_field (pat_epic U) (clean_text t))], None)
                     else ([InvalidEpicFormat tid (extract_field (pat_epic U) (clean_text t))],
                           Some (tile_record U (clean_text t) tid)))
               else ([], Some (tile_record U (clean_text t) tid)))"
  unfolding parse_tile_def Let_def tile_record_fields by (rule refl)

lemma parse_tile_lenient:
  "snd (parse_tile U False t tid) \<noteq> None \<longleftrightarrow>
     20 \<le> length (clean_text t)
   \<and> extract_field pat_name (clean_text t) \<noteq> []
   \<and> extract_field pat_age (clean_text t) \<noteq> []
   \<and> extract_field (pat_epic U) (clean_text t) \<noteq> []
   \<and> check_age U tid (extract_field pat_age (clean_text t)) = None"
  by (simp add: parse_tile_cases tile_missing_lenient split: option.splits)

lemma parse_tile_strict:
  "snd (parse_tile U True t tid) \<noteq> None \<longleftrightarrow>
     20 \<le> length (clean_text t)
   \<and> extract_field (pat_serial U) (clean_text t) \<noteq> []
   \<and> extract_field pat_name (clean_text t) \<noteq> []
   \<and> extract_field pat_relation (clean_text t) \<noteq> []
   \<and> extract_field pat_house_no (clean_text t) \<noteq> []
   \<and> extract_field pat_age (clean_text t) \<noteq> []
   \<and> extract_field pat_gender (clean_text t) \<noteq> []
   \<and> extract_field (pat_epic U) (clean_text t) \<noteq> []
   \<and> check_age U tid (extract_field pat_age (clean_text t)) = None
   \<and> re_match re_epic_format (extract_field (pat_epic U) (clean_text t))"
  by (simp add: parse_tile_cases tile_missing_strict split: option.splits)

lemma parse_tile_Some:
  assumes "parse_tile U strict t tid = (ds, Some r)"
  shows "r = tile_record U (clean_text t) tid"
  using assms by (simp add: parse_tile_cases split: if_splits option.splits)

lemma parse_tile_accepts_age:
  assumes "parse_tile U strict t tid = (ds, Some r)"
  shows "map_of r ''age'' = Some (PStr (extract_field pat_age (clean_text t)))
       \<and> extract_field pat_age (clean_text t) \<noteq> []
       \<and> check_age U tid (extract_field pat_age (clean_text t)) = None"
proof -
  have r: "r = tile_record U (clean_text t) tid" using assms by (rule parse_tile_Some)
  have "snd (parse_tile U strict t tid) \<noteq> None" using assms by simp
  then have "extract_field pat_age (clean_text t) \<noteq> []
      \<and> check_age U tid (extract_field pat_age (clean_text t)) = None"
    using parse_tile_strict [of U t tid] parse_tile_lenient [of U t tid] by (cases strict) simp_all
  then show ?thesis by (simp add: r tile_record_fields)
qed

lemma parse_record_cases:
  "parse_record U fs rid d =
     (if missing_fields [''name'', ''age'', ''serial'']
           (file_record U rid (py_strip (read_or_empty fs (path_join d rid @ ''_serial.txt'')))
              (py_strip (read_or_empty fs (path_join d rid @ ''_epic.txt'')))
              (read_or_empty fs (path_join d rid @ ''_text.txt''))) \<noteq> []
      then ([MissingFields (ustr rid)
               (missing_fields [''name'', ''age'', ''serial'']
                  (file_record U rid (py_strip (read_or_empty fs (path_join d rid @ ''_serial.txt'')))
                     (py_strip (read_or_empty fs (path_join d rid @ ''_epic.txt'')))
                     (read_or_empty fs (path_join d rid @ ''_text.txt''))))], None)
      else case check_age U (ustr rid)
                  (extract_field pat_age (read_or_empty fs (path_join d rid @ ''_text.txt''))) of
             Some dg \<Rightarrow> ([dg], None)
           | None \<Rightarrow>
               ([], Some (file_record U rid
                            (py_strip (read_or_empty fs (path_join d rid @ ''_serial.txt'')))
                            (py_strip (read_or_empty fs (path_join d rid @ ''_epic.txt'')))
                            (read_or_empty fs (path_join d rid @ ''_text.txt'')))))"
  unfolding parse_record_def Let_def file_record_fields by (rule refl)

lemma parse_record_accepts_age:
  assumes "parse_record U fs rid d = (ds, Some r)"
  shows "map_of r ''age'' =
           Some (PStr (extract_field pat_age (read_or_empty fs (path_join d rid @ ''_text.txt''))))
       \<and> extract_field pat_age (read_or_empty fs (path_join d rid @ ''_text.txt'')) \<noteq> []
       \<and> check_age U (ustr rid)
            (extract_field pat_age (read_or_empty fs (path_join d rid @ ''_text.txt''))) = None"
  using assms
  by (auto simp: parse_record_cases file_missing file_record_fields split: if_splits option.splits)

section \<open>\<open>parse_tile\<close> on the example tiles\<close>

lemma ex_tile_full_cleaned: "clean_text ex_tile_full = ex_tile_full_clean"
  by (simp add: clean_text_def collapse_hspace_def collapse_newlines_def ex_tile_full_def ex_tile_full_clean_def cls_hspace_def cls_newline_def
      advance_def py_strip_def is_space_def Let_def)


lemma ex_tile_17_cleaned: "clean_text ex_tile_17 = ex_tile_17"
  by (simp add: clean_text_def collapse_hspace_def collapse_newlines_def ex_tile_17_def cls_hspace_def cls_newline_def advance_def
      py_strip_def is_space_def Let_def)

lemma ex_tile_full_length: "length ex_tile_full_clean = 94"
  by (simp add: ex_tile_full_clean_def)

lemma ex_tile_full_fields:
  "extract_field (pat_serial ucd_devanagari) ex_tile_full_clean = [49, 50]"
  "extract_field (pat_epic ucd_devanagari) ex_tile_full_clean = [65, 66, 67, 49, 50, 51, 52, 53, 54, 55]"
  "extract_field pat_name ex_tile_full_clean = [2352, 2366, 2350, 32, 2325, 2369, 2350, 2366, 2352]"
  "extract_field pat_relation ex_tile_full_clean = [2358, 2381, 2351, 2366, 2350]"
  "extract_field pat_house_no ex_tile_full_clean = [49, 50]"
  "extract_field pat_age ex_tile_full_clean = [52, 53]"
  "extract_field pat_gender ex_tile_full_clean = [2346, 2369, 2352, 2369, 2359]"
  by (simp_all add: ex_tile_full_clean_def text_eval_defs)



lemma ex_tile_17_length: "length ex_tile_17 = 40"
  by (simp add: ex_tile_17_def)

lemma ex_tile_17_fields:
  "extract_field (pat_serial ucd_devanagari) ex_tile_17 = [49, 55]"
  "extract_field (pat_epic ucd_devanagari) ex_tile_17 = [65, 66, 67, 49, 50, 51, 52, 53, 54, 55]"
  "extract_field pat_name ex_tile_17 = [2352, 2366, 2350]"
  "extract_field pat_relation ex_tile_17 = []"
  "extract_field pat_house_no ex_tile_17 = []"
  "extract_field pat_age ex_tile_17 = [49, 55]"
  "extract_field pat_gender ex_tile_17 = []"
  by (simp_all add: ex_tile_17_def text_eval_defs)

section \<open>The age check\<close>

text \<open>
  Claim C3, as amended. The age check belongs to the decoupled parser (parse\_ocr.py): in
  \<open>VoterParser.parse_tile\<close>, in strict and in lenient mode alike, and in
  \<open>VoterParser.parse_record\<close>, a record whose extracted age does not parse as an integer
  between 18 and 120 is rejected, and every accepted record carries such an age (the age
  is a required field in both modes). The check accepts \<open>45\<close> and rejects \<open>17\<close>, \<open>121\<close>
  and \<open>abc\<close>. The page scripts (ocr\_page\_fast.py and ocr\_page\_python.py) make no age
  check: they emit a record for the tile whatever its age, and its validity flag is a
  function of the lengths of the recognized texts alone.
\<close>

theorem age_check_in_parser:
  "(check_age U ident a = None \<longleftrightarrow> a = [] \<or> (\<exists>n. py_int U a = Some n \<and> 18 \<le> n \<and> n \<le> 120))
   \<and> check_age U ident (ustr ''45'') = None
   \<and> check_age U ident (ustr ''17'') = Some (InvalidAge ident 17)
   \<and> check_age U ident (ustr ''121'') = Some (InvalidAge ident 121)
   \<and> check_age U ident (ustr ''abc'') = Some (NonNumericAge ident (ustr ''abc''))
   \<and> (check_age U tid (extract_field pat_age (clean_text t)) \<noteq> None
        \<longrightarrow> snd (parse_tile U strict t tid) = None)
   \<and> (parse_tile U strict t tid = (ds, Some r) \<longrightarrow>
        (\<exists>a n. map_of r ''age'' = Some (PStr a) \<and> a \<noteq> [] \<and> a = extract_field pat_age (clean_text t)
            \<and> py_int U a = Some n \<and> 18 \<le> n \<and> n \<le> 120))
   \<and> (check_age U (ustr rid) (extract_field pat_age (read_or_empty fs (path_join d rid @ ''_text.txt'')))
          \<noteq> None
        \<longrightarrow> snd (parse_record U fs rid d) = None)
   \<and> (parse_record U fs rid d = (ds', Some r') \<longrightarrow>
        (\<exists>a n. map_of r' ''age'' = Some (PStr a) \<and> a \<noteq> []
            \<and> a = extract_field pat_age (read_or_empty fs (path_join d rid @ ''_text.txt''))
            \<and> py_int U a = Some n \<and> 18 \<le> n \<and> n \<le> 120))
   \<and> map_of (record_fast U eng px path ti) ''valid'' =
       Some (PBool (6 \<le> length (fst (snd (ocr_tile_fast eng (crop_img eng px (record_box ti)))))
                    \<or> 20 \<le> length (snd (snd (ocr_tile_fast eng (crop_img eng px (record_box ti)))))))
   \<and> map_of (record_python U results path rr) ''valid'' =
       Some (PBool (1 \<le> length (get_text results (record_id (rtile rr)) ''serial'')
                    \<and> 6 \<le> length (get_text results (record_id (rtile rr)) ''epic'')
                    \<and> 20 \<le> length (get_text results (record_id (rtile rr)) ''text'')))"
proof (intro conjI impI)
  show "check_age U ident a = None \<longleftrightarrow> a = [] \<or> (\<exists>n. py_int U a = Some n \<and> 18 \<le> n \<and> n \<le> 120)"
    by (rule check_age_None)
next
  show "check_age U ident (ustr ''45'') = None"
    "check_age U ident (ustr ''17'') = Some (InvalidAge ident 17)"
    "check_age U ident (ustr ''121'') = Some (InvalidAge ident 121)"
    "check_age U ident (ustr ''abc'') = Some (NonNumericAge ident (ustr ''abc''))"
    by (simp_all add: ustr_def check_age_examples)
next
  assume "check_age U tid (extract_field pat_age (clean_text t)) \<noteq> None"
  then show "snd (parse_tile U strict t tid) = None"
    by (auto simp: parse_tile_cases)
next
  assume acc: "parse_tile U strict t tid = (ds, Some r)"
  from parse_tile_accepts_age [OF acc] check_age_None [of U tid "extract_field pat_age (clean_text t)"]
  show "\<exists>a n. map_of r ''age'' = Some (PStr a) \<and> a \<noteq> [] \<and> a = extract_field pat_age (clean_text t)
            \<and> py_int U a = Some n \<and> 18 \<le> n \<and> n \<le> 120"
    by auto
next
  assume "check_age U (ustr rid) (extract_field pat_age (read_or_empty fs (path_join d rid @ ''_text.txt'')))
          \<noteq> None"
  then show "snd (parse_record U fs rid d) = None"
    by (auto simp: parse_record_cases)
next
  assume acc: "parse_record U fs rid d = (ds', Some r')"
  from parse_record_accepts_age [OF acc]
    check_age_None [of U "ustr rid" "extract_field pat_age (read_or_empty fs (path_join d rid @ ''_text.txt''))"]
  show "\<exists>a n. map_of r' ''age'' = Some (PStr a) \<and> a \<noteq> []
            \<and> a = extract_field pat_age (read_or_empty fs (path_join d rid @ ''_text.txt''))
            \<and> py_int U a = Some n \<and> 18 \<le> n \<and> n \<le> 120"
    by auto
next
  show "map_of (record_fast U eng px path ti) ''valid'' =
       Some (PBool (6 \<le> length (fst (snd (ocr_tile_fast eng (crop_img eng px (record_box ti)))))
                    \<or> 20 \<le> length (snd (snd (ocr_tile_fast eng (crop_img eng px (record_box ti)))))))"
    by (simp add: record_fast_eq csv_record_cells)
next
  show "map_of (record_python U results path rr) ''valid'' =
       Some (PBool (1 \<le> length (get_text results (record_id (rtile rr)) ''serial'')
                    \<and> 6 \<le> length (get_text results (record_id (rtile rr)) ''epic'')
                    \<and> 20 \<le> length (get_text results (record_id (rtile rr)) ''text'')))"
    by (simp add: record_python_def Let_def csv_record_cells)
qed

theorem age_check_in_parser_witness:
  "parse_tile ucd_devanagari False ex_tile_full (ustr ''00'') =
     ([], Some (tile_record ucd_devanagari ex_tile_full_clean (ustr ''00'')))
   \<and> (\<exists>n. map_of (tile_record ucd_devanagari ex_tile_full_clean (ustr ''00'')) ''age''
            = Some (PStr (ustr ''45''))
          \<and> py_int ucd_devanagari (ustr ''45'') = Some n \<and> 18 \<le> n \<and> n \<le> 120)
   \<and> check_age ucd_devanagari (ustr ''00'') (extract_field pat_age (clean_text ex_tile_17))
       = Some (InvalidAge (ustr ''00'') 17)
   \<and> snd (parse_tile ucd_devanagari False ex_tile_17 (ustr ''00'')) = None
   \<and> snd (parse_tile ucd_devanagari True ex_tile_17 (ustr ''00'')) = None
   \<and> (\<exists>r n. parse_record ucd_devanagari ex_fs ''record_00'' ''ocr/p1'' = ([], Some r)
          \<and> map_of r ''age'' = Some (PStr (ustr ''45''))
          \<and> py_int ucd_devanagari (ustr ''45'') = Some n \<and> 18 \<le> n \<and> n \<le> 120)"
proof -
  have full: "parse_tile ucd_devanagari False ex_tile_full (ustr ''00'') =
     ([], Some (tile_record ucd_devanagari ex_tile_full_clean (ustr ''00'')))"
    by (simp add: parse_tile_cases ex_tile_full_cleaned ex_tile_full_length ex_tile_full_fields
        tile_missing_lenient check_age_examples)
       (simp add: text_eval_defs)
  have a45: "extract_field pat_age (clean_text ex_tile_full) = ustr ''45''"
    by (simp add: ex_tile_full_cleaned ex_tile_full_fields ustr_def)
  have c1: "\<exists>n. map_of (tile_record ucd_devanagari ex_tile_full_clean (ustr ''00'')) ''age''
            = Some (PStr (ustr ''45''))
          \<and> py_int ucd_devanagari (ustr ''45'') = Some n \<and> 18 \<le> n \<and> n \<le> 120"
    using age_check_in_parser [of ucd_devanagari _ _ "ustr ''00''" ex_tile_full False "[]"
        "tile_record ucd_devanagari ex_tile_full_clean (ustr ''00'')",
        THEN conjunct2, THEN conjunct2, THEN conjunct2, THEN conjunct2, THEN conjunct2,
        THEN conjunct2, THEN conjunct1, rule_format, OF full]
    by (auto simp: a45)
  have bad: "check_age ucd_devanagari (ustr ''00'') (extract_field pat_age (clean_text ex_tile_17))
       = Some (InvalidAge (ustr ''00'') 17)"
    by (simp add: ex_tile_17_cleaned ex_tile_17_fields check_age_examples)
  then have ne: "check_age ucd_devanagari (ustr ''00'') (extract_field pat_age (clean_text ex_tile_17))
      \<noteq> None"
    by simp
  note rej = age_check_in_parser [of ucd_devanagari _ _ "ustr ''00''" ex_tile_17,
        THEN conjunct2, THEN conjunct2, THEN conjunct2, THEN conjunct2, THEN conjunct2,
        THEN conjunct1, rule_format, OF ne]
  have rec: "parse_record ucd_devanagari ex_fs ''record_00'' ''ocr/p1'' =
     ([], Some [(''record_id'', PStr (ustr ''record_00'')), (''serial'', PStr (ustr ''7'')),
                (''epic'', PStr []), (''name'', PStr [2352, 2366, 2350]),
                (''relation'', PStr []), (''house_no'', PStr []), (''age'', PStr (ustr ''45'')),
                (''gender'', PStr []), (''raw_text_length'', PInt 29)])"
    by (rule ex_record_00)
  have c3: "\<exists>r n. parse_record ucd_devanagari ex_fs ''record_00'' ''ocr/p1'' = ([], Some r)
          \<and> map_of r ''age'' = Some (PStr (ustr ''45''))
          \<and> py_int ucd_devanagari (ustr ''45'') = Some n \<and> 18 \<le> n \<and> n \<le> 120"
    using age_check_in_parser [of ucd_devanagari _ _ _ _ _ _ _ "''record_00''" ex_fs "''ocr/p1''" "[]",
        THEN conjunct2, THEN conjunct2, THEN conjunct2, THEN conjunct2, THEN conjunct2,
        THEN conjunct2, THEN conjunct2, THEN conjunct2, THEN conjunct1, rule_format, OF rec]
    by (auto simp: rec)
  from full c1 bad rej [of False] rej [of True] c3 show ?thesis by blast
qed

theorem page_script_age_counterexample:
  "parse_hindi_text ucd_devanagari ex_text_age17 = [(''age'', PStr (ustr ''17''))]
   \<and> check_age ucd_devanagari (ustr ''00'') (ustr ''17'') = Some (InvalidAge (ustr ''00'') 17)
   \<and> process_page_fast ucd_devanagari
       (Some (ex_engine (Some (ustr ''12'')) (Some []) (Some ex_text_age17)))
       (Some ex_page_one) ''scans/page_001.png'' ''out/page_001.csv'' =
     Inr (write_csv
            [csv_record ''scans/page_001.png'' \<lparr>record_id = ''00'', row = 0, col = 0, x = 22, y = 42\<rparr>
               (ustr ''12'') [] ex_text_age17 [(''age'', PStr (ustr ''17''))] True],
          summary ''scans/page_001.png'' 1 1 ''out/page_001.csv'')
   \<and> map_of (csv_record ''scans/page_001.png'' \<lparr>record_id = ''00'', row = 0, col = 0, x = 22, y = 42\<rparr>
               (ustr ''12'') [] ex_text_age17 [(''age'', PStr (ustr ''17''))] True) ''age''
       = Some (PStr (ustr ''17''))
   \<and> map_of (csv_record ''scans/page_001.png'' \<lparr>record_id = ''00'', row = 0, col = 0, x = 22, y = 42\<rparr>
               (ustr ''12'') [] ex_text_age17 [(''age'', PStr (ustr ''17''))] True) ''valid''
       = Some (PBool True)"
proof -
  have "process_page_fast ucd_devanagari
       (Some (ex_engine (Some (ustr ''12'')) (Some []) (Some ex_text_age17)))
       (Some ex_page_one) ''scans/page_001.png'' ''out/page_001.csv'' =
     Inr (write_csv
            [csv_record ''scans/page_001.png'' \<lparr>record_id = ''00'', row = 0, col = 0, x = 22, y = 42\<rparr>
               (ustr ''12'') [] ex_text_age17 [(''age'', PStr (ustr ''17''))] True],
          summary ''scans/page_001.png'' 1 1 ''out/page_001.csv'')"
    by (simp add: fast_page_one fast_records_one ocr_tile_ex strip_examples hindi_text_age17
        example_lengths count_valid_def csv_record_cells)
  moreover have "check_age ucd_devanagari (ustr ''00'') (ustr ''17'') = Some (InvalidAge (ustr ''00'') 17)"
    by (simp add: ustr_def check_age_examples)
  ultimately show ?thesis
    by (simp add: hindi_text_age17 csv_record_cells get_or_empty_def)
qed
section \<open>The EPIC format\<close>


lemma snd_advance: "snd (advance st j) = drop j (snd st)"
  by (simp add: advance_def)








section \<open>Cleaning the text\<close>

lemma re_sub_Rep_prev:
  "re_sub (Rep p m n g) repl prev s = re_sub (Rep p m n g) repl prev' s"
proof (induction "length s" arbitrary: s prev prev' rule: less_induct)
  case less
  show ?case
  proof (cases s)
    case Nil
    then show ?thesis by simp
  next
    case (Cons c cs)
    have sn: "map snd (rmatch (Rep p m n g) (prev, c # cs)) = map snd (rmatch (Rep p m n g) (prev', c # cs))"
      by (simp add: Let_def snd_advance comp_def)
    show ?thesis
    proof (cases "rmatch (Rep p m n g) (prev, c # cs)")
      case Nil
      with sn have "rmatch (Rep p m n g) (prev', c # cs) = []" by simp
      with Nil less [of cs "Some c" "Some c"] show ?thesis by (simp add: Cons)
    next
      case (Cons st sts)
      with sn obtain st' sts' where c': "rmatch (Rep p m n g) (prev', c # cs) = st' # sts'"
        and eq: "snd st' = snd st"
        by (cases "rmatch (Rep p m n g) (prev', c # cs)") auto
      show ?thesis
      proof (cases "length (snd st) \<le> length cs")
        case True
        then have "length (snd st) < length s" by (simp add: \<open>s = c # cs\<close>)
        from less [OF this, of "fst st" "fst st'"] True Cons c' eq show ?thesis
          by (simp add: \<open>s = c # cs\<close>)
      next
        case False
        with Cons c' eq show ?thesis by (simp add: \<open>s = c # cs\<close>)
      qed
    qed
  qed
qed

lemma rmatch_Rep_hd:
  "m \<le> length (takeWhile p s) \<Longrightarrow>
   rmatch (Rep p m None True) (prev, s) =
     advance (prev, s) (length (takeWhile p s))
       # map (advance (prev, s)) (rev [m..<length (takeWhile p s)])"
  by (simp add: Let_def)

lemma rmatch_Rep_none:
  "\<not> m \<le> length (takeWhile p s) \<Longrightarrow> rmatch (Rep p m None True) (prev, s) = []"
  by (simp add: Let_def)

lemma re_sub_Rep_Cons:
  assumes "1 \<le> m"
  shows "re_sub (Rep p m None True) repl prev (c # cs) =
     (if m \<le> length (takeWhile p (c # cs))
      then repl @ re_sub (Rep p m None True) repl prev (dropWhile p (c # cs))
      else c # re_sub (Rep p m None True) repl prev cs)"
proof (cases "m \<le> length (takeWhile p (c # cs))")
  case True
  define k where "k = length (takeWhile p (c # cs))"
  have k: "m \<le> k" "1 \<le> k" using True assms by (simp_all add: k_def)
  have rm: "rmatch (Rep p m None True) (prev, c # cs) =
      advance (prev, c # cs) k # map (advance (prev, c # cs)) (rev [m..<k])"
    unfolding k_def using True by (rule rmatch_Rep_hd)
  have sn: "snd (advance (prev, c # cs) k) = dropWhile p (c # cs)"
    by (simp only: snd_advance snd_conv k_def dropWhile_eq_drop)
  have "length (drop k (c # cs)) \<le> length cs" using k(2) by simp
  then have le: "length (dropWhile p (c # cs)) \<le> length cs"
    by (simp only: dropWhile_eq_drop k_def)
  have "re_sub (Rep p m None True) repl prev (c # cs) =
      repl @ re_sub (Rep p m None True) repl (fst (advance (prev, c # cs) k)) (dropWhile p (c # cs))"
    by (simp only: re_sub.simps rm list.case sn le if_True)
  also have "\<dots> = repl @ re_sub (Rep p m None True) repl prev (dropWhile p (c # cs))"
    by (rule arg_cong [where f = "(@) repl"], rule re_sub_Rep_prev)
  finally show ?thesis using True by (simp only: if_True)
next
  case False
  then have rm: "rmatch (Rep p m None True) (prev, c # cs) = []" by (rule rmatch_Rep_none)
  have "re_sub (Rep p m None True) repl prev (c # cs) = c # re_sub (Rep p m None True) repl (Some c) cs"
    by (simp only: re_sub.simps rm list.case)
  also have "\<dots> = c # re_sub (Rep p m None True) repl prev cs"
    by (rule arg_cong [where f = "(#) c"], rule re_sub_Rep_prev)
  finally show ?thesis using False by (simp only: if_False)
qed


lemma run_induct [case_names Nil Cons]:
  assumes "P []" and "\<And>c cs. P cs \<Longrightarrow> P (dropWhile p cs) \<Longrightarrow> P (c # cs)"
  shows "P s"
proof (induction "length s" arbitrary: s rule: less_induct)
  case less
  show ?case
  proof (cases s)
    case Nil
    then show ?thesis using assms(1) by simp
  next
    case (Cons c cs)
    have "length (dropWhile p cs) \<le> length cs" by (rule length_dropWhile_le)
    then have "P (dropWhile p cs)" "P cs" using less Cons by simp_all
    then show ?thesis using assms(2) Cons by simp
  qed
qed

lemma collapse_hspace_Nil [simp]: "collapse_hspace [] = []"
  by (simp add: collapse_hspace_def)

lemma collapse_hspace_Cons:
  "collapse_hspace (c # cs) =
     (if cls_hspace c then 32 # collapse_hspace (dropWhile cls_hspace cs)
      else c # collapse_hspace cs)"
  unfolding collapse_hspace_def
  by (simp only: re_sub_Rep_Cons [OF order_refl]) simp

lemma collapse_newlines_Nil [simp]: "collapse_newlines [] = []"
  by (simp add: collapse_newlines_def)

lemma collapse_newlines_Cons:
  "collapse_newlines (c # cs) =
     (if c = 10 \<and> 2 \<le> length (takeWhile cls_newline cs)
      then 10 # 10 # collapse_newlines (dropWhile cls_newline cs)
      else c # collapse_newlines cs)"
proof -
  have "1 \<le> (3::nat)" by simp
  from re_sub_Rep_Cons [OF this, of cls_newline "[10, 10]" None c cs] show ?thesis
    unfolding collapse_newlines_def by (auto simp: cls_newline_def)
qed

lemma collapse_newlines_Cons_match:
  "c = 10 \<Longrightarrow> 2 \<le> length (takeWhile cls_newline cs) \<Longrightarrow>
   collapse_newlines (c # cs) = 10 # 10 # collapse_newlines (dropWhile cls_newline cs)"
  by (simp add: collapse_newlines_Cons)

lemma collapse_newlines_Cons_other:
  "\<not> (c = 10 \<and> 2 \<le> length (takeWhile cls_newline cs)) \<Longrightarrow>
   collapse_newlines (c # cs) = c # collapse_newlines cs"
  by (auto simp: collapse_newlines_Cons)

lemma length_collapse_hspace: "length (collapse_hspace s) \<le> length s"
proof (induction s rule: run_induct [where p = cls_hspace])
  case Nil
  show ?case by simp
next
  case (Cons c cs)
  have "length (dropWhile cls_hspace cs) \<le> length cs" by (rule length_dropWhile_le)
  with Cons show ?case by (simp add: collapse_hspace_Cons)
qed

lemma length_collapse_newlines: "length (collapse_newlines s) \<le> length s"
proof (induction s rule: run_induct [where p = cls_newline])
  case Nil
  show ?case by simp
next
  case (Cons c cs)
  have "length (dropWhile cls_newline cs) + length (takeWhile cls_newline cs) = length cs"
    by (metis add.commute length_append takeWhile_dropWhile_id)
  with Cons show ?case by (auto simp: collapse_newlines_Cons)
qed

lemma dropWhile_same_length: "length (dropWhile P xs) = length xs \<Longrightarrow> dropWhile P xs = xs"
  by (metis append_self_conv2 length_0_conv length_append add_cancel_right_left takeWhile_dropWhile_id
      add.commute)

lemma dropWhile_fixed_iff: "dropWhile P xs = xs \<longleftrightarrow> xs = [] \<or> \<not> P (hd xs)"
proof (cases xs)
  case Nil
  then show ?thesis by simp
next
  case (Cons a list)
  have "dropWhile P list \<noteq> a # list"
  proof
    assume "dropWhile P list = a # list"
    then have "length (dropWhile P list) = Suc (length list)" by simp
    moreover have "length (dropWhile P list) \<le> length list" by (rule length_dropWhile_le)
    ultimately show False by simp
  qed
  then show ?thesis using Cons by auto
qed


lemma collapse_hspace_fix_Cons:
  "collapse_hspace (c # cs) = c # cs \<longleftrightarrow>
     (cls_hspace c \<longrightarrow> c = 32 \<and> (cs = [] \<or> \<not> cls_hspace (hd cs))) \<and> collapse_hspace cs = cs"
proof (cases "cls_hspace c")
  case False
  then show ?thesis by (simp add: collapse_hspace_Cons)
next
  case True
  show ?thesis
  proof
    assume eq: "collapse_hspace (c # cs) = c # cs"
    with True have c: "c = 32" and d: "collapse_hspace (dropWhile cls_hspace cs) = cs"
      by (simp_all add: collapse_hspace_Cons)
    have "length cs \<le> length (dropWhile cls_hspace cs)"
      using length_collapse_hspace [of "dropWhile cls_hspace cs"] by (simp only: d)
    moreover have "length (dropWhile cls_hspace cs) \<le> length cs" by (rule length_dropWhile_le)
    ultimately have "dropWhile cls_hspace cs = cs" by (intro dropWhile_same_length) simp
    with c d show "(cls_hspace c \<longrightarrow> c = 32 \<and> (cs = [] \<or> \<not> cls_hspace (hd cs)))
        \<and> collapse_hspace cs = cs"
      by (simp add: dropWhile_fixed_iff)
  next
    assume a: "(cls_hspace c \<longrightarrow> c = 32 \<and> (cs = [] \<or> \<not> cls_hspace (hd cs)))
        \<and> collapse_hspace cs = cs"
    with True have "dropWhile cls_hspace cs = cs" by (simp add: dropWhile_fixed_iff)
    with a True show "collapse_hspace (c # cs) = c # cs" by (simp add: collapse_hspace_Cons)
  qed
qed

lemma collapse_newlines_fix_Cons:
  "collapse_newlines (c # cs) = c # cs \<longleftrightarrow>
     \<not> (c = 10 \<and> 2 \<le> length (takeWhile cls_newline cs)) \<and> collapse_newlines cs = cs"
proof (cases "c = 10 \<and> 2 \<le> length (takeWhile cls_newline cs)")
  case False
  then show ?thesis by (simp add: collapse_newlines_Cons_other)
next
  case True
  have "length (dropWhile cls_newline cs) + length (takeWhile cls_newline cs) = length cs"
    by (metis add.commute length_append takeWhile_dropWhile_id)
  with True have "length (dropWhile cls_newline cs) + 2 \<le> length cs" by simp
  with length_collapse_newlines [of "dropWhile cls_newline cs"]
  have "length (collapse_newlines (c # cs)) \<le> length cs"
    using True by (simp add: collapse_newlines_Cons)
  then have "collapse_newlines (c # cs) \<noteq> c # cs" by (auto dest: arg_cong [where f = length])
  with True show ?thesis by simp
qed

lemma collapse_hspace_fix_append:
  "collapse_hspace (a @ b) = a @ b \<Longrightarrow> collapse_hspace a = a \<and> collapse_hspace b = b"
proof (induction a)
  case Nil
  then show ?case by simp
next
  case (Cons c a)
  then have 1: "cls_hspace c \<longrightarrow> c = 32 \<and> (a @ b = [] \<or> \<not> cls_hspace (hd (a @ b)))"
    and 2: "collapse_hspace (a @ b) = a @ b"
    by (simp_all add: collapse_hspace_fix_Cons)
  from Cons.IH [OF 2] have ih: "collapse_hspace a = a" "collapse_hspace b = b" by simp_all
  from 1 have "cls_hspace c \<longrightarrow> c = 32 \<and> (a = [] \<or> \<not> cls_hspace (hd a))"
    by (cases a) auto
  with ih show ?case by (simp add: collapse_hspace_fix_Cons)
qed

lemma takeWhile_append_le: "length (takeWhile P a) \<le> length (takeWhile P (a @ b))"
  by (induction a) auto

lemma collapse_newlines_fix_append:
  "collapse_newlines (a @ b) = a @ b \<Longrightarrow> collapse_newlines a = a \<and> collapse_newlines b = b"
proof (induction a)
  case Nil
  then show ?case by simp
next
  case (Cons c a)
  then have 1: "\<not> (c = 10 \<and> 2 \<le> length (takeWhile cls_newline (a @ b)))"
    and 2: "collapse_newlines (a @ b) = a @ b"
    by (simp_all add: collapse_newlines_fix_Cons)
  from Cons.IH [OF 2] have ih: "collapse_newlines a = a" "collapse_newlines b = b" by simp_all
  from 1 takeWhile_append_le [of cls_newline a b]
  have "\<not> (c = 10 \<and> 2 \<le> length (takeWhile cls_newline a))" by auto
  with ih show ?case by (simp add: collapse_newlines_fix_Cons)
qed

lemma py_strip_middle: "\<exists>a b. s = a @ py_strip s @ b"
proof -
  define v where "v = dropWhile is_space s"
  have "rev v = takeWhile is_space (rev v) @ dropWhile is_space (rev v)" by simp
  then have "rev (rev v) = rev (takeWhile is_space (rev v) @ dropWhile is_space (rev v))"
    by (rule arg_cong)
  then have "v = rev (dropWhile is_space (rev v)) @ rev (takeWhile is_space (rev v))"
    by (simp only: rev_rev_ident rev_append)
  moreover have "s = takeWhile is_space s @ v" by (simp add: v_def)
  ultimately have "s = takeWhile is_space s @ py_strip s @ rev (takeWhile is_space (rev v))"
    by (simp add: py_strip_def v_def)
  then show ?thesis by blast
qed

lemma collapse_hspace_fix_strip:
  assumes "collapse_hspace s = s" shows "collapse_hspace (py_strip s) = py_strip s"
proof -
  obtain a b where s: "s = a @ py_strip s @ b" using py_strip_middle by blast
  with assms have "collapse_hspace (a @ (py_strip s @ b)) = a @ (py_strip s @ b)" by simp
  then have "collapse_hspace (py_strip s @ b) = py_strip s @ b"
    by (rule collapse_hspace_fix_append [THEN conjunct2])
  then show ?thesis by (rule collapse_hspace_fix_append [THEN conjunct1])
qed

lemma collapse_newlines_fix_strip:
  assumes "collapse_newlines s = s" shows "collapse_newlines (py_strip s) = py_strip s"
proof -
  obtain a b where s: "s = a @ py_strip s @ b" using py_strip_middle by blast
  with assms have "collapse_newlines (a @ (py_strip s @ b)) = a @ (py_strip s @ b)" by simp
  then have "collapse_newlines (py_strip s @ b) = py_strip s @ b"
    by (rule collapse_newlines_fix_append [THEN conjunct2])
  then show ?thesis by (rule collapse_newlines_fix_append [THEN conjunct1])
qed

lemma collapse_newlines_hd:
  "(collapse_newlines s = [] \<longleftrightarrow> s = []) \<and> (s \<noteq> [] \<longrightarrow> hd (collapse_newlines s) = hd s)"
  by (cases s) (auto simp: collapse_newlines_Cons)

lemma collapse_hspace_hd:
  "(collapse_hspace s = [] \<longleftrightarrow> s = [])
   \<and> (s \<noteq> [] \<longrightarrow> \<not> cls_hspace (hd s) \<longrightarrow> hd (collapse_hspace s) = hd s)"
  by (cases s) (auto simp: collapse_hspace_Cons)

lemma collapse_hspace_idem: "collapse_hspace (collapse_hspace s) = collapse_hspace s"
proof (induction s rule: run_induct [where p = cls_hspace])
  case Nil
  show ?case by simp
next
  case (Cons c cs)
  show ?case
  proof (cases "cls_hspace c")
    case False
    with Cons show ?thesis by (simp add: collapse_hspace_Cons)
  next
    case True
    define d where "d = dropWhile cls_hspace cs"
    have d: "d = [] \<or> \<not> cls_hspace (hd d)" unfolding d_def by (rule hd_dropWhile_not)
    then have "collapse_hspace d = [] \<or> \<not> cls_hspace (hd (collapse_hspace d))"
      using collapse_hspace_hd [of d] by auto
    then have "dropWhile cls_hspace (collapse_hspace d) = collapse_hspace d"
      by (simp only: dropWhile_fixed_iff)
    moreover have "cls_hspace 32" by (simp add: cls_hspace_def)
    ultimately show ?thesis using True Cons(2)
      by (simp add: collapse_hspace_Cons d_def)
  qed
qed

lemma collapse_newlines_run:
  assumes a: "2 \<le> length (takeWhile cls_newline (collapse_newlines s))"
  shows "2 \<le> length (takeWhile cls_newline s)"
proof (cases s)
  case Nil
  then show ?thesis using a by simp
next
  case (Cons c cs)
  show ?thesis
  proof (cases "c = 10 \<and> 2 \<le> length (takeWhile cls_newline cs)")
    case True
    then show ?thesis by (simp add: Cons cls_newline_def)
  next
    case False
    from False have "collapse_newlines s = c # collapse_newlines cs"
      unfolding Cons by (rule collapse_newlines_Cons_other)
    with a have c: "cls_newline c" and r: "1 \<le> length (takeWhile cls_newline (collapse_newlines cs))"
      by (auto split: if_splits)
    from r have ne: "collapse_newlines cs \<noteq> []" by auto
    with r have "cls_newline (hd (collapse_newlines cs))"
      by (cases "collapse_newlines cs") (auto split: if_splits)
    with ne collapse_newlines_hd [of cs] have "cs \<noteq> []" "cls_newline (hd cs)" by auto
    then have "1 \<le> length (takeWhile cls_newline cs)" by (cases cs) auto
    with c show ?thesis by (simp add: Cons)
  qed
qed

lemma collapse_newlines_idem: "collapse_newlines (collapse_newlines s) = collapse_newlines s"
proof (induction s rule: run_induct [where p = cls_newline])
  case Nil
  show ?case by simp
next
  case (Cons c cs)
  show ?case
  proof (cases "c = 10 \<and> 2 \<le> length (takeWhile cls_newline cs)")
    case True
    define d where "d = dropWhile cls_newline cs"
    have "d = [] \<or> \<not> cls_newline (hd d)" unfolding d_def by (rule hd_dropWhile_not)
    then have "collapse_newlines d = [] \<or> \<not> cls_newline (hd (collapse_newlines d))"
      using collapse_newlines_hd [of d] by auto
    then have tw: "takeWhile cls_newline (collapse_newlines d) = []"
      by (cases "collapse_newlines d") auto
    have "collapse_newlines (10 # 10 # collapse_newlines d) = 10 # 10 # collapse_newlines (collapse_newlines d)"
      by (simp add: collapse_newlines_Cons tw cls_newline_def)
    with True Cons(2) show ?thesis by (simp add: collapse_newlines_Cons_match d_def)
  next
    case False
    then have "\<not> (c = 10 \<and> 2 \<le> length (takeWhile cls_newline (collapse_newlines cs)))"
      using collapse_newlines_run [of cs] by blast
    then have "collapse_newlines (c # collapse_newlines cs) = c # collapse_newlines (collapse_newlines cs)"
      by (rule collapse_newlines_Cons_other)
    with False Cons(1) show ?thesis by (simp add: collapse_newlines_Cons_other)
  qed
qed

lemma collapse_hspace_fix_newlines:
  "collapse_hspace s = s \<Longrightarrow> collapse_hspace (collapse_newlines s) = collapse_newlines s"
proof (induction s rule: run_induct [where p = cls_newline])
  case Nil
  show ?case by simp
next
  case (Cons c cs)
  from Cons.prems have 1: "cls_hspace c \<longrightarrow> c = 32 \<and> (cs = [] \<or> \<not> cls_hspace (hd cs))"
    and 2: "collapse_hspace cs = cs"
    by (simp_all add: collapse_hspace_fix_Cons)
  have "collapse_hspace (takeWhile cls_newline cs @ dropWhile cls_newline cs) =
      takeWhile cls_newline cs @ dropWhile cls_newline cs"
    using 2 by simp
  then have 3: "collapse_hspace (dropWhile cls_newline cs) = dropWhile cls_newline cs"
    by (rule collapse_hspace_fix_append [THEN conjunct2])
  note ih1 = Cons.IH(1) [OF 2] and ih2 = Cons.IH(2) [OF 3]
  have n10: "\<not> cls_hspace 10" by (simp add: cls_hspace_def)
  show ?case
  proof (cases "c = 10 \<and> 2 \<le> length (takeWhile cls_newline cs)")
    case True
    then show ?thesis using ih2 n10 by (simp add: collapse_newlines_Cons_match collapse_hspace_Cons)
  next
    case False
    from 1 collapse_newlines_hd [of cs]
    have "cls_hspace c \<longrightarrow> c = 32 \<and> (collapse_newlines cs = [] \<or> \<not> cls_hspace (hd (collapse_newlines cs)))"
      by auto
    with ih1 have "collapse_hspace (c # collapse_newlines cs) = c # collapse_newlines cs"
      by (simp only: collapse_hspace_fix_Cons)
    with False show ?thesis by (simp add: collapse_newlines_Cons_other)
  qed
qed

lemma clean_text_idem: "clean_text (clean_text s) = clean_text s"
proof -
  define u where "u = collapse_newlines (collapse_hspace s)"
  have h: "collapse_hspace (py_strip u) = py_strip u"
    unfolding u_def
    by (intro collapse_hspace_fix_strip collapse_hspace_fix_newlines collapse_hspace_idem)
  have n: "collapse_newlines (py_strip u) = py_strip u"
    unfolding u_def by (intro collapse_newlines_fix_strip collapse_newlines_idem)
  show ?thesis
    by (simp add: clean_text_def Let_def u_def [symmetric] h n py_strip_idem)
qed


lemma parse_tile_clean: "parse_tile U strict (clean_text t) tid = parse_tile U strict t tid"
  by (simp add: parse_tile_def clean_text_idem)

lemma ex_text_spaces_facts:
  "py_strip ex_text_spaces = ex_text_spaces"
  "clean_text ex_text_spaces = [2344, 2366, 2350, 58, 32, 65, 32, 66]"
  "parse_hindi_text ucd_devanagari ex_text_spaces = [(''name'', PStr (ustr ''A  B''))]"
  "parse_hindi_text ucd_devanagari [2344, 2366, 2350, 58, 32, 65, 32, 66] = [(''name'', PStr (ustr ''A B''))]"
  by (simp_all add: ex_text_spaces_def clean_text_def collapse_hspace_Cons collapse_newlines_Cons
      cls_hspace_def hindi_eval_defs)

text \<open>
  Claim C9, as amended. \<open>VoterParser.clean_text\<close> replaces every run of spaces and tabs by
  one space, then every run of three or more line breaks by two line breaks, then strips
  the text. It runs before the pattern applications of \<open>VoterParser.parse_tile\<close> and only
  there: \<open>parse_record\<close> applies its patterns to the texts as read from the files (the
  serial and the EPIC text stripped, the free text as it is) and \<open>parse_hindi_text\<close> of
  the page scripts to the recognized text, stripped. Cleaning is idempotent, and so is
  the cleaning-plus-extraction of \<open>parse_tile\<close>: on an already cleaned text it gives the
  result of the first application.
\<close>

theorem cleaning_idempotent:
  "clean_text t = py_strip (collapse_newlines (collapse_hspace t))
   \<and> collapse_hspace [] = []
   \<and> collapse_hspace (c # cs) =
       (if cls_hspace c then 32 # collapse_hspace (dropWhile cls_hspace cs)
        else c # collapse_hspace cs)
   \<and> collapse_newlines [] = []
   \<and> collapse_newlines (c # cs) =
       (if c = 10 \<and> 2 \<le> length (takeWhile cls_newline cs)
        then 10 # 10 # collapse_newlines (dropWhile cls_newline cs)
        else c # collapse_newlines cs)
   \<and> clean_text (clean_text t) = clean_text t
   \<and> parse_tile U strict (clean_text t) tid = parse_tile U strict t tid
   \<and> (parse_tile U strict t tid = (ds, Some r) \<longrightarrow> r = tile_record U (clean_text t) tid)
   \<and> (parse_record U fs rid d = (ds', Some r') \<longrightarrow>
        r' = file_record U rid (py_strip (read_or_empty fs (path_join d rid @ ''_serial.txt'')))
               (py_strip (read_or_empty fs (path_join d rid @ ''_epic.txt'')))
               (read_or_empty fs (path_join d rid @ ''_text.txt'')))
   \<and> (\<exists>s e v. record_fast U eng px path ti =
         csv_record path ti s e (snd (snd (ocr_tile_fast eng (crop_img eng px (record_box ti)))))
           (parse_hindi_text U (snd (snd (ocr_tile_fast eng (crop_img eng px (record_box ti)))))) v)
   \<and> (\<exists>s e v. record_python U results path rr =
         csv_record path (rtile rr) s e (get_text results (record_id (rtile rr)) ''text'')
           (parse_hindi_text U (get_text results (record_id (rtile rr)) ''text'')) v)"
proof (intro conjI impI)
  show "clean_text t = py_strip (collapse_newlines (collapse_hspace t))"
    by (simp add: clean_text_def)
next
  show "collapse_hspace [] = []" "collapse_newlines [] = []" by simp_all
next
  show "collapse_hspace (c # cs) =
       (if cls_hspace c then 32 # collapse_hspace (dropWhile cls_hspace cs)
        else c # collapse_hspace cs)"
    by (rule collapse_hspace_Cons)
next
  show "collapse_newlines (c # cs) =
       (if c = 10 \<and> 2 \<le> length (takeWhile cls_newline cs)
        then 10 # 10 # collapse_newlines (dropWhile cls_newline cs)
        else c # collapse_newlines cs)"
    by (rule collapse_newlines_Cons)
next
  show "clean_text (clean_text t) = clean_text t" by (rule clean_text_idem)
next
  show "parse_tile U strict (clean_text t) tid = parse_tile U strict t tid" by (rule parse_tile_clean)
next
  assume "parse_tile U strict t tid = (ds, Some r)"
  then show "r = tile_record U (clean_text t) tid" by (rule parse_tile_Some)
next
  assume "parse_record U fs rid d = (ds', Some r')"
  then show "r' = file_record U rid (py_strip (read_or_empty fs (path_join d rid @ ''_serial.txt'')))
               (py_strip (read_or_empty fs (path_join d rid @ ''_epic.txt'')))
               (read_or_empty fs (path_join d rid @ ''_text.txt''))"
    by (simp add: parse_record_cases split: if_splits option.splits)
next
  show "\<exists>s e v. record_fast U eng px path ti =
         csv_record path ti s e (snd (snd (ocr_tile_fast eng (crop_img eng px (record_box ti)))))
           (parse_hindi_text U (snd (snd (ocr_tile_fast eng (crop_img eng px (record_box ti)))))) v"
    by (simp only: record_fast_eq) blast
next
  show "\<exists>s e v. record_python U results path rr =
         csv_record path (rtile rr) s e (get_text results (record_id (rtile rr)) ''text'')
           (parse_hindi_text U (get_text results (record_id (rtile rr)) ''text'')) v"
    unfolding record_python_def Let_def by blast
qed

theorem cleaning_idempotent_witness:
  "clean_text ex_tile_full = ex_tile_full_clean
   \<and> clean_text ex_tile_full_clean = ex_tile_full_clean
   \<and> parse_tile ucd_devanagari False ex_tile_full (ustr ''00'') =
       ([], Some (tile_record ucd_devanagari ex_tile_full_clean (ustr ''00'')))
   \<and> parse_tile ucd_devanagari False ex_tile_full_clean (ustr ''00'') =
       ([], Some (tile_record ucd_devanagari ex_tile_full_clean (ustr ''00'')))
   \<and> map_of (tile_record ucd_devanagari ex_tile_full_clean (ustr ''00'')) ''name'' =
       Some (PStr [2352, 2366, 2350, 32, 2325, 2369, 2350, 2366, 2352])
   \<and> parse_record ucd_devanagari ex_fs ''record_00'' ''ocr/p1'' =
       ([], Some (file_record ucd_devanagari ''record_00''
                    (py_strip (read_or_empty ex_fs (path_join ''ocr/p1'' ''record_00'' @ ''_serial.txt'')))
                    (py_strip (read_or_empty ex_fs (path_join ''ocr/p1'' ''record_00'' @ ''_epic.txt'')))
                    (read_or_empty ex_fs (path_join ''ocr/p1'' ''record_00'' @ ''_text.txt''))))"
proof -
  note inst = cleaning_idempotent [of ex_tile_full _ _ ucd_devanagari False "ustr ''00''" "[]"
      "tile_record ucd_devanagari ex_tile_full_clean (ustr ''00'')" ex_fs "''record_00''" "''ocr/p1''" "[]"]
  have a: "clean_text ex_tile_full = ex_tile_full_clean" by (rule ex_tile_full_cleaned)
  have b: "clean_text ex_tile_full_clean = ex_tile_full_clean"
    using inst [THEN conjunct2, THEN conjunct2, THEN conjunct2, THEN conjunct2, THEN conjunct2,
      THEN conjunct1]
    by (simp only: a)
  have full: "parse_tile ucd_devanagari False ex_tile_full (ustr ''00'') =
     ([], Some (tile_record ucd_devanagari ex_tile_full_clean (ustr ''00'')))"
    by (simp add: parse_tile_cases ex_tile_full_cleaned ex_tile_full_length ex_tile_full_fields
        tile_missing_lenient check_age_examples)
       (simp add: text_eval_defs)
  have c: "parse_tile ucd_devanagari False ex_tile_full_clean (ustr ''00'') =
       ([], Some (tile_record ucd_devanagari ex_tile_full_clean (ustr ''00'')))"
    using inst [THEN conjunct2, THEN conjunct2, THEN conjunct2, THEN conjunct2, THEN conjunct2,
      THEN conjunct2, THEN conjunct1]
    by (simp only: a full)
  have n: "map_of (tile_record ucd_devanagari ex_tile_full_clean (ustr ''00'')) ''name'' =
       Some (PStr [2352, 2366, 2350, 32, 2325, 2369, 2350, 2366, 2352])"
    by (simp add: tile_record_def ex_tile_full_fields)
  have rec: "\<exists>r. parse_record ucd_devanagari ex_fs ''record_00'' ''ocr/p1'' = ([], Some r)"
    by (simp add: ex_record_00)
  then obtain r where r: "parse_record ucd_devanagari ex_fs ''record_00'' ''ocr/p1'' = ([], Some r)" ..
  from cleaning_idempotent [of _ _ _ ucd_devanagari _ _ _ _ ex_fs "''record_00''" "''ocr/p1''" "[]" r,
      THEN conjunct2, THEN conjunct2, THEN conjunct2, THEN conjunct2, THEN conjunct2,
      THEN conjunct2, THEN conjunct2, THEN conjunct2, THEN conjunct1, THEN mp, OF r] r
  have p: "parse_record ucd_devanagari ex_fs ''record_00'' ''ocr/p1'' =
       ([], Some (file_record ucd_devanagari ''record_00''
                    (py_strip (read_or_empty ex_fs (path_join ''ocr/p1'' ''record_00'' @ ''_serial.txt'')))
                    (py_strip (read_or_empty ex_fs (path_join ''ocr/p1'' ''record_00'' @ ''_epic.txt'')))
                    (read_or_empty ex_fs (path_join ''ocr/p1'' ''record_00'' @ ''_text.txt''))))"
    by simp
  from a b full c n p show ?thesis by blast
qed

theorem uncleaned_patterns_counterexample:
  "clean_text ex_text_spaces = [2344, 2366, 2350, 58, 32, 65, 32, 66]
   \<and> parse_hindi_text ucd_devanagari (clean_text ex_text_spaces) = [(''name'', PStr (ustr ''A B''))]
   \<and> process_page_fast ucd_devanagari
       (Some (ex_engine (Some (ustr ''12'')) (Some []) (Some ex_text_spaces)))
       (Some ex_page_one) ''scans/page_001.png'' ''out/page_001.csv'' =
     Inr (write_csv
            [csv_record ''scans/page_001.png'' \<lparr>record_id = ''00'', row = 0, col = 0, x = 22, y = 42\<rparr>
               (ustr ''12'') [] ex_text_spaces [(''name'', PStr (ustr ''A  B''))] False],
          summary ''scans/page_001.png'' 1 0 ''out/page_001.csv'')
   \<and> map_of (csv_record ''scans/page_001.png'' \<lparr>record_id = ''00'', row = 0, col = 0, x = 22, y = 42\<rparr>
               (ustr ''12'') [] ex_text_spaces [(''name'', PStr (ustr ''A  B''))] False) ''name''
       = Some (PStr (ustr ''A  B''))"
proof -
  have "process_page_fast ucd_devanagari
       (Some (ex_engine (Some (ustr ''12'')) (Some []) (Some ex_text_spaces)))
       (Some ex_page_one) ''scans/page_001.png'' ''out/page_001.csv'' =
     Inr (write_csv
            [csv_record ''scans/page_001.png'' \<lparr>record_id = ''00'', row = 0, col = 0, x = 22, y = 42\<rparr>
               (ustr ''12'') [] ex_text_spaces [(''name'', PStr (ustr ''A  B''))] False],
          summary ''scans/page_001.png'' 1 0 ''out/page_001.csv'')"
    by (simp add: fast_page_one fast_records_one ocr_tile_ex strip_examples ex_text_spaces_facts
        count_valid_def csv_record_cells)
       (simp add: ex_text_spaces_def)
  then show ?thesis
    by (simp add: ex_text_spaces_facts csv_record_def get_or_empty_def)
qed

end
